theory Spec2Isabelle
  imports Main "HOL-Library.Sublist" "HOL-Library.AList"
begin

section \<open>Data model\<close>

text \<open>
  The embedding follows \<^verbatim>\<open>GXFExecutor\<close> (the connection planner and the port
  resolver) and \<^verbatim>\<open>Fragment::add_flow\<close> (the graph model). Operators are
  identified by their names, GXF component ids by the pair (entity, component name).
  Log output is modelled only where a claim reads it (\<^verbatim>\<open>Fragment::add_flow\<close>);
  data flow tracking annotations are left out.
\<close>

datatype ConnectorType = kDefault | kDoubleBuffer | kUCX

datatype IOType = kInput | kOutput

datatype OperatorType = kNative | kGXF | kVirtual

datatype ConditionType =
    kNone
  | kMessageAvailable
  | kDownstreamMessageAffordable
  | kExpiringMessageAvailable
  | kMultiMessageAvailable
  | kMultiMessageAvailableTimeout
  | kOtherCondition

datatype MetadataPolicy = kReject | kInplaceUpdate | kUpdate | kRaise | kDefaultPolicy

text \<open>
  The ways a call ends without its result: an exception with its message, the
  dereference of a null pointer, and \<^verbatim>\<open>initialize_fragment\<close> returning
  \<^verbatim>\<open>false\<close> after logging a message. \<open>ConditionTypeError kind\<close> is the
  exception with the message \<^verbatim>\<open>Condition type n is not a supported multi-message
  condition\<close>, where \<open>n\<close> is the integer value of the enumerator \<open>kind\<close>; the
  enumeration is declared in a header that is not among the sources.
\<close>

datatype error =
    RuntimeError string
  | NullDereference
  | ReturnFalse string
  | ConditionTypeError ConditionType

text \<open>A condition object; only its \<^verbatim>\<open>min_size\<close> argument is read by the planner.\<close>

record Condition =
  min_size :: nat

text \<open>
  A receiver or transmitter resource. \<open>has_gxf_cptr\<close> says that the GXF component
  behind the resource exists already.
\<close>

record Connector =
  conn_kind :: ConnectorType
  conn_name :: string
  capacity :: nat
  policy :: nat
  conn_args :: "(string \<times> string) list"
  has_gxf_cptr :: bool

record IOSpec =
  io_name :: string
  io_type :: IOType
  queue_size :: int
  connector_type :: ConnectorType
  queue_policy :: "nat option"
  conditions :: "(ConditionType \<times> Condition option) list"
  connector :: "Connector option"

text \<open>
  Modelled from the spec: the queue-size constants of \<^verbatim>\<open>IOSpec\<close> are declared in
  a header that is not among the sources. \<^verbatim>\<open>kPrecedingCount\<close> is 0 by the comment in
  \<^verbatim>\<open>create_input_port\<close>, \<^verbatim>\<open>kSizeOne\<close> is the fixed size 1, and
  \<^verbatim>\<open>kAnySize\<close> is the marker of the parameterized receivers.
\<close>

definition kAnySize :: int where
  "kAnySize = -1"

definition kPrecedingCount :: int where
  "kPrecedingCount = 0"

definition kSizeOne :: int where
  "kSizeOne = 1"

text \<open>
  Modelled from the spec: \<^verbatim>\<open>IOSpec::condition(type, args)\<close> is declared in the same
  missing header; it appends a condition of the given kind to the port's list
  (\<^verbatim>\<open>kNone\<close> carries no condition object).
\<close>

definition condition :: "ConditionType \<Rightarrow> Condition option \<Rightarrow> IOSpec \<Rightarrow> IOSpec" where
  "condition ty c io_spec = io_spec\<lparr>conditions := conditions io_spec @ [(ty, c)]\<rparr>"

text \<open>The arguments of a virtual operator (\<^verbatim>\<open>ops::VirtualOperator\<close>).\<close>

record VirtualInfo =
  v_port_name :: string
  v_connector_type :: ConnectorType
  v_arg_list :: "(string \<times> string) list"
  v_io_type :: IOType

text \<open>
  An operator with its spec. The maps of the spec are association lists in the
  iteration order of the source's containers. The execution ports are pointers
  into the spec's port maps, here the port's key. \<open>op_id\<close> is \<open>-1\<close> until the
  operator is initialized. \<open>receivers_params\<close> holds the parameters of type
  \<^verbatim>\<open>std::vector<IOSpec*>\<close> with the number of ports created for each so far.
\<close>

record Operator =
  op_name :: string
  operator_type :: OperatorType
  inputs :: "(string \<times> IOSpec) list"
  outputs :: "(string \<times> IOSpec) list"
  input_exec_spec :: "string option"
  output_exec_spec :: "string option"
  metadata_policy :: MetadataPolicy
  op_id :: int
  is_initialized :: bool
  non_default_input_ports :: "string list"
  non_default_output_ports :: "string list"
  multi_port_conditions :: "(ConditionType \<times> string list) list"
  receivers_params :: "(string \<times> nat) list"
  virtual_info :: "VirtualInfo option"
  device_id :: "int option"

subsection \<open>The operator graph\<close>

type_synonym port_map = "(string \<times> string list) list"

text \<open>
  Modelled from the spec: the \<^verbatim>\<open>FlowGraph\<close> class is not among the sources. Per the
  spec's data model it holds the nodes in insertion order and, for each pair of
  connected nodes, one edge whose data maps a source port to the set of
  destination ports.
\<close>

record OperatorGraph =
  nodes :: "string list"
  edges :: "((string \<times> string) \<times> port_map) list"

definition get_nodes :: "OperatorGraph \<Rightarrow> string list" where
  "get_nodes g = nodes g"

definition find_node :: "OperatorGraph \<Rightarrow> string \<Rightarrow> string option" where
  "find_node g n = (if n \<in> set (nodes g) then Some n else None)"

definition get_previous_nodes :: "OperatorGraph \<Rightarrow> string \<Rightarrow> string list" where
  "get_previous_nodes g v = map (fst \<circ> fst) (filter (\<lambda>e. snd (fst e) = v) (edges g))"

definition get_next_nodes :: "OperatorGraph \<Rightarrow> string \<Rightarrow> string list" where
  "get_next_nodes g u = map (snd \<circ> fst) (filter (\<lambda>e. fst (fst e) = u) (edges g))"

definition get_port_map :: "OperatorGraph \<Rightarrow> string \<Rightarrow> string \<Rightarrow> port_map option" where
  "get_port_map g u v = map_of (edges g) (u, v)"

text \<open>
  The containers of the source have unique keys: a node is registered once, two
  nodes share at most one edge, a port map has one entry per source port and
  the destination ports of an entry form a set.
\<close>

definition wf_port_map :: "port_map \<Rightarrow> bool" where
  "wf_port_map pm \<longleftrightarrow> distinct (map fst pm) \<and> list_all (\<lambda>e. distinct (snd e)) pm"

definition wf_graph :: "OperatorGraph \<Rightarrow> bool" where
  "wf_graph g \<longleftrightarrow>
     distinct (nodes g) \<and> distinct (map fst (edges g)) \<and>
     list_all (\<lambda>e. fst (fst e) \<in> set (nodes g) \<and> snd (fst e) \<in> set (nodes g) \<and>
                    wf_port_map (snd e)) (edges g)"

text \<open>
  The edges of the data model: (source node, source port) to (destination node,
  destination port).
\<close>

definition edge_set :: "OperatorGraph \<Rightarrow> ((string \<times> string) \<times> (string \<times> string)) set" where
  "edge_set g =
     {((u, out), (v, inp)) | u out v inp.
        \<exists>pm ts. ((u, v), pm) \<in> set (edges g) \<and> (out, ts) \<in> set pm \<and> inp \<in> set ts}"

section \<open>Formatting of messages\<close>

definition quote :: string where
  "quote = [CHR 0x27]"

definition digit_char :: "nat \<Rightarrow> char" where
  "digit_char d = ''0123456789'' ! d"

function fmt_nat :: "nat \<Rightarrow> string" where
  "fmt_nat n = (if n < 10 then [digit_char n] else fmt_nat (n div 10) @ [digit_char (n mod 10)])"
  by pat_completeness auto
termination
  by (relation "measure id") auto

declare fmt_nat.simps [simp del]

definition fmt_int :: "int \<Rightarrow> string" where
  "fmt_int i = (if i < 0 then ''-'' @ fmt_nat (nat (- i)) else fmt_nat (nat i))"

fun join :: "string \<Rightarrow> string list \<Rightarrow> string" where
  "join sep [] = []"
| "join sep [x] = x"
| "join sep (x # y # ys) = x @ sep @ join sep (y # ys)"

section \<open>PortResolver: input ports\<close>

text \<open>
  \<^verbatim>\<open>create_input_port\<close>, the loop that counts the connections to the input
  port \<open>rx_name\<close> of \<open>node\<close>: for each previous node and each entry of its port
  map, \<^verbatim>\<open>connection_count += target_ports.count(rx_name)\<close>.
\<close>

definition count_in_port_map :: "string \<Rightarrow> port_map \<Rightarrow> int \<Rightarrow> int" where
  "count_in_port_map rx_name pm c =
     foldl (\<lambda>c e. c + (if rx_name \<in> set (snd e) then 1 else 0)) c pm"

definition connection_count :: "OperatorGraph \<Rightarrow> string \<Rightarrow> string \<Rightarrow> int" where
  "connection_count g node rx_name =
     foldl (\<lambda>c prev_node.
              case get_port_map g prev_node node of
                None \<Rightarrow> c
              | Some pm \<Rightarrow> count_in_port_map rx_name pm c)
       0 (get_previous_nodes g node)"

text \<open>
  The queue size after the \<^verbatim>\<open>kPrecedingCount\<close> resolution (the value compared
  with 1 afterwards).
\<close>

definition resolved_queue_size :: "OperatorGraph \<Rightarrow> Operator \<Rightarrow> IOSpec \<Rightarrow> error + int" where
  "resolved_queue_size g op io_spec =
     (if queue_size io_spec = kPrecedingCount then
        (case find_node g (op_name op) of
           Some node \<Rightarrow> Inr (connection_count g node (io_name io_spec))
         | None \<Rightarrow>
             Inl (RuntimeError (''Failed to find node for operator '' @ quote @ op_name op @ quote)))
      else Inr (queue_size io_spec))"

definition invalid_queue_size_msg :: "int \<Rightarrow> string \<Rightarrow> string \<Rightarrow> string" where
  "invalid_queue_size_msg q opn rx_name =
     ''Invalid queue size: '' @ fmt_int q @ '' (op: '' @ quote @ opn @ quote @
     '', input port: '' @ quote @ rx_name @ quote @ '')''"

text \<open>
  The components of a GXF entity that exists already, by name, with whether the
  component is a double buffer receiver or transmitter (the wrapped-operator
  path binds to them).
\<close>

type_synonym gxf_entity = "(string \<times> bool) list"

definition bind_input_port :: "gxf_entity \<Rightarrow> IOSpec \<Rightarrow> error + IOSpec" where
  "bind_input_port entity io_spec =
     (let rx_name = io_name io_spec in
      if connector_type io_spec \<noteq> kDefault then
        Inl (RuntimeError (''Unable to support types other than ConnectorType::kDefault (rx_name: ''
                           @ quote @ rx_name @ quote @ '')''))
      else if queue_size io_spec = kAnySize then Inr io_spec
      else
        (case map_of entity rx_name of
           None \<Rightarrow>
             Inl (RuntimeError (''Unable to find the Receiver component with name ''
                                @ quote @ rx_name @ quote))
         | Some is_double_buffer \<Rightarrow>
             if is_double_buffer then
               Inr (io_spec\<lparr>connector := Some \<lparr>conn_kind = kDoubleBuffer, conn_name = rx_name,
                      capacity = 1, policy = 0, conn_args = [], has_gxf_cptr = True\<rparr>\<rparr>)
             else Inr io_spec))"

text \<open>The receiver created for the port when none with a GXF component is set.\<close>

definition make_receiver :: "IOSpec \<Rightarrow> int \<Rightarrow> nat \<Rightarrow> error + Connector" where
  "make_receiver io_spec q default_policy =
     (case connector_type io_spec of
        kDefault \<Rightarrow>
          Inr \<lparr>conn_kind = kDoubleBuffer, conn_name = io_name io_spec, capacity = nat q,
               policy = (case queue_policy io_spec of Some p \<Rightarrow> p | None \<Rightarrow> default_policy),
               conn_args = [], has_gxf_cptr = True\<rparr>
      | _ \<Rightarrow>
          (case connector io_spec of
             None \<Rightarrow> Inl NullDereference
           | Some c \<Rightarrow> Inr (c\<lparr>conn_name := io_name io_spec, has_gxf_cptr := True\<rparr>)))"

definition input_condition_supported :: "ConditionType \<Rightarrow> bool" where
  "input_condition_supported ty \<longleftrightarrow>
     ty \<in> {kMessageAvailable, kExpiringMessageAvailable, kMultiMessageAvailableTimeout, kNone}"

definition create_input_port ::
  "OperatorGraph \<Rightarrow> nat \<Rightarrow> gxf_entity \<Rightarrow> IOSpec \<Rightarrow> bool \<Rightarrow> Operator \<Rightarrow> error + IOSpec" where
  "create_input_port g default_policy entity io_spec bind_port op =
     (let rx_name = io_name io_spec in
      if bind_port then bind_input_port entity io_spec
      else if queue_size io_spec = kAnySize then Inr io_spec
      else
        (case resolved_queue_size g op io_spec of
           Inl e \<Rightarrow> Inl e
         | Inr q \<Rightarrow>
             if q < 1 then Inl (RuntimeError (invalid_queue_size_msg q (op_name op) rx_name))
             else
               (case (case connector io_spec of
                        Some c \<Rightarrow> if has_gxf_cptr c then Inr c
                                  else make_receiver io_spec q default_policy
                      | None \<Rightarrow> make_receiver io_spec q default_policy) of
                  Inl e \<Rightarrow> Inl e
                | Inr rx \<Rightarrow>
                    (let io1 = io_spec\<lparr>connector := Some rx\<rparr>;
                         port_has_multi_port_condition =
                           (\<exists>info \<in> set (multi_port_conditions op). rx_name \<in> set (snd info));
                         port_has_user_supplied_condition =
                           (rx_name \<in> set (non_default_input_ports op));
                         io2 =
                           (if conditions io1 = [] \<and> \<not> port_has_multi_port_condition \<and>
                               \<not> port_has_user_supplied_condition
                            then condition kMessageAvailable (Some \<lparr>min_size = nat q\<rparr>) io1
                            else io1)
                     in if list_all (\<lambda>c. input_condition_supported (fst c)) (conditions io2)
                        then Inr io2
                        else Inl (RuntimeError ''Unsupported condition type'')))))"

section \<open>PortResolver: output ports\<close>

definition bind_output_port :: "gxf_entity \<Rightarrow> IOSpec \<Rightarrow> error + IOSpec" where
  "bind_output_port entity io_spec =
     (let tx_name = io_name io_spec in
      if connector_type io_spec \<noteq> kDefault then
        Inl (RuntimeError (''Unable to support types other than ConnectorType::kDefault (tx_name: ''
                           @ quote @ tx_name @ quote @ '')''))
      else
        (case map_of entity tx_name of
           None \<Rightarrow>
             Inl (RuntimeError (''Unable to find the Transmitter component with name ''
                                @ quote @ tx_name @ quote))
         | Some is_double_buffer \<Rightarrow>
             if is_double_buffer then
               Inr (io_spec\<lparr>connector := Some \<lparr>conn_kind = kDoubleBuffer, conn_name = tx_name,
                      capacity = 1, policy = 0, conn_args = [], has_gxf_cptr = True\<rparr>\<rparr>)
             else Inr io_spec))"

definition make_transmitter :: "IOSpec \<Rightarrow> nat \<Rightarrow> error + Connector" where
  "make_transmitter io_spec default_policy =
     (case connector_type io_spec of
        kDefault \<Rightarrow>
          Inr \<lparr>conn_kind = kDoubleBuffer, conn_name = io_name io_spec, capacity = 1,
               policy = (case queue_policy io_spec of Some p \<Rightarrow> p | None \<Rightarrow> default_policy),
               conn_args = [], has_gxf_cptr = True\<rparr>
      | _ \<Rightarrow>
          (case connector io_spec of
             None \<Rightarrow> Inl NullDereference
           | Some c \<Rightarrow> Inr (c\<lparr>conn_name := io_name io_spec, has_gxf_cptr := True\<rparr>)))"

definition output_condition_supported :: "ConditionType \<Rightarrow> bool" where
  "output_condition_supported ty \<longleftrightarrow> ty \<in> {kDownstreamMessageAffordable, kNone}"

definition create_output_port ::
  "nat \<Rightarrow> gxf_entity \<Rightarrow> IOSpec \<Rightarrow> bool \<Rightarrow> Operator \<Rightarrow> error + IOSpec" where
  "create_output_port default_policy entity io_spec bind_port op =
     (let tx_name = io_name io_spec; tx_type = connector_type io_spec in
      if bind_port then bind_output_port entity io_spec
      else
        (case (case connector io_spec of
                 Some c \<Rightarrow> if has_gxf_cptr c then Inr c
                           else make_transmitter io_spec default_policy
               | None \<Rightarrow> make_transmitter io_spec default_policy) of
           Inl e \<Rightarrow> Inl e
         | Inr tx \<Rightarrow>
             (let io1 = io_spec\<lparr>connector := Some tx\<rparr>;
                  port_has_user_supplied_condition =
                    (tx_name \<in> set (non_default_output_ports op));
                  io2 =
                    (if conditions io1 = [] \<and> tx_type \<noteq> kUCX \<and>
                        \<not> port_has_user_supplied_condition
                     then condition kDownstreamMessageAffordable (Some \<lparr>min_size = 1\<rparr>) io1
                     else io1)
              in if list_all (\<lambda>c. output_condition_supported (fst c)) (conditions io2)
                 then Inr io2
                 else Inl (RuntimeError ''Unsupported condition type''))))"

section \<open>Operator initialization\<close>

text \<open>
  The executor's settings read by the planner. \<open>wrapped_entity\<close> is the GXF
  entity of a wrapped codelet (\<^verbatim>\<open>op_eid_ != 0\<close>), in which case ports are bound
  instead of created. \<open>codelet_cid\<close> stands for the component id GXF gives to an
  operator's codelet; the planner only compares it with \<open>-1\<close>.
\<close>

record ExecutorConfig =
  entity_prefix :: string
  default_queue_policy :: nat
  fragment_metadata_policy :: MetadataPolicy
  wrapped_entity :: "gxf_entity option"
  codelet_cid :: nat

fun create_input_ports ::
  "OperatorGraph \<Rightarrow> ExecutorConfig \<Rightarrow> Operator \<Rightarrow> (string \<times> IOSpec) list
     \<Rightarrow> error + (string \<times> IOSpec) list" where
  "create_input_ports g cfg op [] = Inr []"
| "create_input_ports g cfg op (p # rest) =
     (case create_input_port g (default_queue_policy cfg)
             (case wrapped_entity cfg of Some en \<Rightarrow> en | None \<Rightarrow> [])
             (snd p) (wrapped_entity cfg \<noteq> None) op of
        Inl e \<Rightarrow> Inl e
      | Inr io' \<Rightarrow>
          (case create_input_ports g cfg op rest of
             Inl e \<Rightarrow> Inl e
           | Inr rest' \<Rightarrow> Inr ((fst p, io') # rest')))"

fun create_output_ports ::
  "ExecutorConfig \<Rightarrow> Operator \<Rightarrow> (string \<times> IOSpec) list \<Rightarrow> error + (string \<times> IOSpec) list" where
  "create_output_ports cfg op [] = Inr []"
| "create_output_ports cfg op (p # rest) =
     (case create_output_port (default_queue_policy cfg)
             (case wrapped_entity cfg of Some en \<Rightarrow> en | None \<Rightarrow> [])
             (snd p) (wrapped_entity cfg \<noteq> None) op of
        Inl e \<Rightarrow> Inl e
      | Inr io' \<Rightarrow>
          (case create_output_ports cfg op rest of
             Inl e \<Rightarrow> Inl e
           | Inr rest' \<Rightarrow> Inr ((fst p, io') # rest')))"

text \<open>
  The loop over the multi-message conditions of \<^verbatim>\<open>initialize_operator\<close>: it
  stops silently at a condition that names a missing input port and throws at
  a kind that is no multi-message condition. The conditions it adds are not
  read by the planner and are left out.
\<close>

fun add_multi_port_conditions ::
  "(string \<times> IOSpec) list \<Rightarrow> (ConditionType \<times> string list) list \<Rightarrow> error + unit" where
  "add_multi_port_conditions ins [] = Inr ()"
| "add_multi_port_conditions ins (info # rest) =
     (if \<not> list_all (\<lambda>n. n \<in> fst ` set ins) (snd info) then Inr ()
      else if fst info = kMultiMessageAvailable \<or> fst info = kMultiMessageAvailableTimeout
      then add_multi_port_conditions ins rest
      else Inl (ConditionTypeError (fst info)))"

definition initialize_operator ::
  "ExecutorConfig \<Rightarrow> OperatorGraph \<Rightarrow> Operator \<Rightarrow> error + Operator" where
  "initialize_operator cfg g op =
     (if is_initialized op then Inr op
      else
        (let op1 = op\<lparr>op_id := int (codelet_cid cfg),
                       metadata_policy :=
                         (if metadata_policy op = kDefaultPolicy
                          then fragment_metadata_policy cfg else metadata_policy op)\<rparr>
         in case create_input_ports g cfg op1 (inputs op1) of
              Inl e \<Rightarrow> Inl e
            | Inr ins \<Rightarrow>
                (case create_output_ports cfg op1 (outputs op1) of
                   Inl e \<Rightarrow> Inl e
                 | Inr outs \<Rightarrow>
                     (case add_multi_port_conditions ins (multi_port_conditions op1) of
                        Inl e \<Rightarrow> Inl e
                      | Inr _ \<Rightarrow>
                          Inr (op1\<lparr>inputs := ins, outputs := outs,
                                   is_initialized := True\<rparr>)))))"

text \<open>
  Modelled from the spec: \<^verbatim>\<open>Operator::initialize\<close> is not among the sources. It
  is the operator-initialization boundary call, which for an operator of the
  fragment is \<^verbatim>\<open>GXFExecutor::initialize_operator\<close>; a virtual node is a stand-in
  for the remote end of an edge and nothing is created for it.
\<close>

definition op_initialize ::
  "ExecutorConfig \<Rightarrow> OperatorGraph \<Rightarrow> Operator \<Rightarrow> error + Operator" where
  "op_initialize cfg g op =
     (if operator_type op = kVirtual then Inr op else initialize_operator cfg g op)"

section \<open>ResourceGrouper: thread pools\<close>

record ThreadPool =
  pool_name :: string
  pool_operators :: "string list"

definition thread_pool_msg :: "string \<Rightarrow> string \<Rightarrow> int \<Rightarrow> int \<Rightarrow> string" where
  "thread_pool_msg pool opn current_dev_id gpu_device =
     ''All operators in thread pool '' @ quote @ pool @ quote @
     '' must be using the same GPU device. Operator '' @ quote @ opn @ quote @
     '' has a component using a GPUDevice with CUDA device id '' @ fmt_int current_dev_id @
     '' but a prior operator in the pool was using a component with device id '' @
     fmt_int gpu_device @
     ''. Please use separate thread pools for operators on different devices.''"

text \<open>
  The loop over the operators of one pool; \<open>gpu_device\<close> starts at \<open>-1\<close>. The
  device id of an operator is what \<^verbatim>\<open>gxf_device_id\<close> finds for its entity.
\<close>

fun check_pool_devices ::
  "string \<Rightarrow> (string \<times> Operator) list \<Rightarrow> int \<Rightarrow> string list \<Rightarrow> error + int" where
  "check_pool_devices pool ops gpu_device [] = Inr gpu_device"
| "check_pool_devices pool ops gpu_device (opn # rest) =
     (case map_of ops opn of
        None \<Rightarrow> Inl NullDereference
      | Some op \<Rightarrow>
          (case device_id op of
             None \<Rightarrow> check_pool_devices pool ops gpu_device rest
           | Some current_dev_id \<Rightarrow>
               if gpu_device = -1 then check_pool_devices pool ops current_dev_id rest
               else if gpu_device \<noteq> current_dev_id
               then Inl (RuntimeError (thread_pool_msg pool opn current_dev_id gpu_device))
               else check_pool_devices pool ops gpu_device rest))"

fun finish_thread_pools :: "(string \<times> Operator) list \<Rightarrow> ThreadPool list \<Rightarrow> error + unit" where
  "finish_thread_pools ops [] = Inr ()"
| "finish_thread_pools ops (pool # rest) =
     (case check_pool_devices (pool_name pool) ops (-1) (pool_operators pool) of
        Inl e \<Rightarrow> Inl e
      | Inr _ \<Rightarrow> finish_thread_pools ops rest)"

section \<open>Example inputs\<close>

definition g_fan_in :: OperatorGraph where
  "g_fan_in = \<lparr>nodes = [''A'', ''B'', ''C''],
     edges = [((''A'', ''C''), [(''out1'', [''in'']), (''out2'', [''in'', ''aux''])]),
              ((''B'', ''C''), [(''out'', [''in''])]),
              ((''A'', ''B''), [(''out1'', [''in''])])]\<rparr>"

definition mk_op :: "string \<Rightarrow> Operator" where
  "mk_op n = \<lparr>op_name = n, operator_type = kNative, inputs = [], outputs = [],
     input_exec_spec = None, output_exec_spec = None, metadata_policy = kDefaultPolicy,
     op_id = -1, is_initialized = False, non_default_input_ports = [], non_default_output_ports = [],
     multi_port_conditions = [], receivers_params = [], virtual_info = None,
     device_id = None\<rparr>"

definition mk_input :: "string \<Rightarrow> int \<Rightarrow> IOSpec" where
  "mk_input n q = \<lparr>io_name = n, io_type = kInput, queue_size = q, connector_type = kDefault,
     queue_policy = None, conditions = [], connector = None\<rparr>"

definition mk_output :: "string \<Rightarrow> IOSpec" where
  "mk_output n = \<lparr>io_name = n, io_type = kOutput, queue_size = 1, connector_type = kDefault,
     queue_policy = None, conditions = [], connector = None\<rparr>"

definition cfg0 :: ExecutorConfig where
  "cfg0 = \<lparr>entity_prefix = '''', default_queue_policy = 2,
     fragment_metadata_policy = kRaise, wrapped_entity = None, codelet_cid = 1\<rparr>"

definition op_no_pred :: Operator where
  "op_no_pred = (mk_op ''A'')\<lparr>inputs := [(''in'', mk_input ''in'' 0)]\<rparr>"

definition ucx_connector :: Connector where
  "ucx_connector = \<lparr>conn_kind = kUCX, conn_name = [], capacity = 1, policy = 2,
     conn_args = [(''receiver_address'', ''10.0.0.2'')], has_gxf_cptr = False\<rparr>"

definition ucx_output :: "string \<Rightarrow> IOSpec" where
  "ucx_output n = (mk_output n)\<lparr>connector_type := kUCX, connector := Some ucx_connector\<rparr>"

definition ops_two_devices :: "(string \<times> Operator) list" where
  "ops_two_devices =
     [(''Q1'', (mk_op ''Q1'')\<lparr>device_id := Some 0\<rparr>),
      (''Q2'', (mk_op ''Q2'')\<lparr>device_id := Some 1\<rparr>)]"

definition pool_q :: ThreadPool where
  "pool_q = \<lparr>pool_name = ''pool1'', pool_operators = [''Q1'', ''Q2'']\<rparr>"

section \<open>GraphModel: the fragment and add_flow\<close>

text \<open>
  A fragment: its operator graph, the operator objects behind the graph's node
  handles (by name), its thread pools and the lines written to the error log.
\<close>

record Fragment =
  frag_name :: string
  graph :: OperatorGraph
  operators :: "(string \<times> Operator) list"
  thread_pools :: "ThreadPool list"
  log :: "string list"

text \<open>
  Modelled from the spec: \<^verbatim>\<open>FlowGraph::add_node\<close> and \<^verbatim>\<open>FlowGraph::add_flow\<close>
  are not among the sources. A flow registers both nodes if they are new; port
  map entries that share a source port accumulate into the fan-out set of that
  port.
\<close>

definition graph_add_node :: "string \<Rightarrow> OperatorGraph \<Rightarrow> OperatorGraph" where
  "graph_add_node n g = (if n \<in> set (nodes g) then g else g\<lparr>nodes := nodes g @ [n]\<rparr>)"

definition insert_target :: "string \<Rightarrow> string \<Rightarrow> port_map \<Rightarrow> port_map" where
  "insert_target key v pm =
     (case map_of pm key of
        None \<Rightarrow> pm @ [(key, [v])]
      | Some vs \<Rightarrow> AList.update key (if v \<in> set vs then vs else vs @ [v]) pm)"

definition merge_port_map :: "port_map \<Rightarrow> port_map \<Rightarrow> port_map" where
  "merge_port_map old new =
     foldl (\<lambda>pm e. foldl (\<lambda>pm v. insert_target (fst e) v pm) pm (snd e)) old new"

definition graph_add_flow :: "string \<Rightarrow> string \<Rightarrow> port_map \<Rightarrow> OperatorGraph \<Rightarrow> OperatorGraph" where
  "graph_add_flow u v pm g =
     (let g1 = graph_add_node v (graph_add_node u g)
      in case map_of (edges g1) (u, v) of
           None \<Rightarrow> g1\<lparr>edges := edges g1 @ [((u, v), pm)]\<rparr>
         | Some old \<Rightarrow> g1\<lparr>edges := AList.update (u, v) (merge_port_map old pm) (edges g1)\<rparr>)"

text \<open>
  Modelled from the spec: the names of the execution ports are constants of
  \<^verbatim>\<open>Operator\<close>, declared in a header that is not among the sources.
\<close>

definition kInputExecPortName :: string where
  "kInputExecPortName = ''__input_exec__''"

definition kOutputExecPortName :: string where
  "kOutputExecPortName = ''__output_exec__''"

text \<open>
  Modelled from the spec: \<^verbatim>\<open>OperatorSpec::input\<close> and \<^verbatim>\<open>OperatorSpec::output\<close>
  (not among the sources) declare a new port with the default connector and no
  condition. The port maps are the ordered maps of the spec's data model: a new
  port is entered after the ports declared before it, and \<^verbatim>\<open>begin()\<close> is the
  first port of the map.
\<close>

definition new_port :: "string \<Rightarrow> IOType \<Rightarrow> int \<Rightarrow> IOSpec" where
  "new_port n ty q = \<lparr>io_name = n, io_type = ty, queue_size = q, connector_type = kDefault,
     queue_policy = None, conditions = [], connector = None\<rparr>"

definition spec_input :: "string \<Rightarrow> int \<Rightarrow> Operator \<Rightarrow> Operator" where
  "spec_input n q op = op\<lparr>inputs := inputs op @ [(n, new_port n kInput q)]\<rparr>"

definition spec_output :: "string \<Rightarrow> Operator \<Rightarrow> Operator" where
  "spec_output n op = op\<lparr>outputs := outputs op @ [(n, new_port n kOutput kSizeOne)]\<rparr>"

text \<open>\<^verbatim>\<open>GXFExecutor::add_receivers\<close>: a new input port \<open>name:index\<close>.\<close>

definition add_receivers :: "string \<Rightarrow> Operator \<Rightarrow> Operator \<times> string" where
  "add_receivers receivers_name op =
     (let size = (case map_of (receivers_params op) receivers_name of Some k \<Rightarrow> k | None \<Rightarrow> 0);
          new_input_label = receivers_name @ '':'' @ fmt_nat size
      in ((spec_input new_input_label kSizeOne op)
            \<lparr>receivers_params := AList.update receivers_name (Suc size) (receivers_params op)\<rparr>,
          new_input_label))"

text \<open>
  \<^verbatim>\<open>GXFExecutor::add_control_flow\<close>, on the upstream and on the downstream
  operator. The execution port of the operator is set to \<^verbatim>\<open>begin()\<close> of the port
  map after the new port is declared: for an operator that has ports already,
  this is its first port and not the new one.
\<close>

definition add_control_flow_upstream :: "Operator \<Rightarrow> Operator" where
  "add_control_flow_upstream up =
     (if output_exec_spec up = None then
        (let up1 = spec_output kOutputExecPortName up
         in up1\<lparr>output_exec_spec := Some (fst (hd (outputs up1)))\<rparr>)
      else up)"

definition add_control_flow_downstream :: "Operator \<Rightarrow> Operator" where
  "add_control_flow_downstream down =
     (if input_exec_spec down = None then
        (let down1 = spec_input kInputExecPortName kPrecedingCount down
         in down1\<lparr>input_exec_spec := Some (fst (hd (inputs down1)))\<rparr>)
      else down)"

definition type_label :: "OperatorType \<Rightarrow> string" where
  "type_label ty = (if ty = kNative then ''Native'' else ''GXF'')"

text \<open>The conversion of the port pairs to the port map; its keys are the output labels.\<close>

definition pairs_to_port_map :: "(string \<times> string) list \<Rightarrow> port_map" where
  "pairs_to_port_map port_pairs = foldl (\<lambda>pm p. insert_target (fst p) (snd p) pm) [] port_pairs"

text \<open>
  The loop of \<^verbatim>\<open>add_flow\<close> that checks the output labels: the first label that
  is no output port of the upstream operator is either the empty label of a
  single-port operator, which is replaced by that port, or an error.
\<close>

definition check_output_labels :: "Operator \<Rightarrow> port_map \<Rightarrow> string + port_map" where
  "check_output_labels up pm =
     (case filter (\<lambda>l. map_of (outputs up) l = None) (map fst pm) of
        [] \<Rightarrow> Inr pm
      | l # _ \<Rightarrow>
          if length (outputs up) = 1 \<and> length pm = 1 \<and> l = []
          then Inr [(fst (hd (outputs up)), snd (hd pm))]
          else if outputs up = []
          then Inl (''The upstream operator('' @ op_name up @
                    '') does not have any output port but '' @ quote @ l @ quote @
                    '' was specified in port_map'')
          else Inl (''The upstream operator('' @ op_name up @
                    '') does not have an output port with label '' @ quote @ l @ quote @
                    ''. It should be one of ('' @ join '', '' (map fst (outputs up)) @ '')''))"

text \<open>
  The loop over the input labels of one output label. \<open>n\<close> is the number of
  input labels. The result is the log line of an error, or the final input
  labels; the downstream operator gains the receiver ports created on the way.
\<close>

fun resolve_input_labels ::
  "Operator \<Rightarrow> nat \<Rightarrow> string list \<Rightarrow> string list
     \<Rightarrow> (string \<times> Operator) + (Operator \<times> string list)" where
  "resolve_input_labels down n [] acc = Inr (down, acc)"
| "resolve_input_labels down n (input_label # rest) acc =
     (let op_inputs = inputs down;
          found = map_of op_inputs input_label;
          is_receivers = (case found of Some io \<Rightarrow> queue_size io = kAnySize | None \<Rightarrow> False);
          single = (\<not> is_receivers \<and> length op_inputs = 1 \<and> n = 1 \<and> input_label = [])
      in if is_receivers \<or> found = None then
           (if single \<and> queue_size (snd (hd op_inputs)) \<noteq> kAnySize
            then Inr (down, acc @ [fst (hd op_inputs)])
            else
              (let input_receivers_label = (if single then fst (hd op_inputs) else input_label)
               in if map_of (receivers_params down) input_receivers_label \<noteq> None then
                    (let r = add_receivers input_receivers_label down
                     in resolve_input_labels (fst r) n rest (acc @ [snd r]))
                  else if op_inputs = []
                  then Inl (''The downstream operator('' @ op_name down @
                            '') does not have any input port but '' @ quote @
                            input_receivers_label @ quote @ '' was specified in the port_map'',
                            down)
                  else Inl (''The downstream operator('' @ op_name down @
                            '') does not have an input port with label '' @ quote @
                            input_receivers_label @ quote @ ''. It should be one of ('' @
                            join '', '' (map fst op_inputs) @ '')'', down)))
         else resolve_input_labels down n rest (acc @ [input_label]))"

fun resolve_output_labels ::
  "Operator \<Rightarrow> port_map \<Rightarrow> string list \<Rightarrow> (string \<times> Operator) + (Operator \<times> port_map)" where
  "resolve_output_labels down pm [] = Inr (down, pm)"
| "resolve_output_labels down pm (output_label # rest) =
     (let input_labels = (case map_of pm output_label of Some ls \<Rightarrow> ls | None \<Rightarrow> [])
      in if length (inputs down) = 1 \<and> length input_labels \<noteq> 1
         then Inl (''The downstream operator('' @ op_name down @
                   '') has only one port with label '' @ quote @ fst (hd (inputs down)) @ quote @
                   '' but port_map specifies '' @ fmt_nat (length input_labels) @ '' labels('' @
                   join '', '' input_labels @ '') to the downstream operator'' @ quote @
                   ''s input port'', down)
         else
           (case resolve_input_labels down (length input_labels) input_labels [] of
              Inl x \<Rightarrow> Inl x
            | Inr r \<Rightarrow>
                resolve_output_labels (fst r)
                  (AList.update output_label (remdups (snd r)) pm) rest))"

definition set_operator :: "Operator \<Rightarrow> Fragment \<Rightarrow> Fragment" where
  "set_operator op frag = frag\<lparr>operators := AList.update (op_name op) op (operators frag)\<rparr>"

definition log_error :: "string \<Rightarrow> Fragment \<Rightarrow> Fragment" where
  "log_error msg frag = frag\<lparr>log := log frag @ [msg]\<rparr>"

text \<open>
  \<^verbatim>\<open>Fragment::add_flow\<close>. The function returns nothing and throws nothing on
  these paths: an error is a line of the log and the flow is not added.
\<close>

definition add_flow :: "string \<Rightarrow> string \<Rightarrow> (string \<times> string) list \<Rightarrow> Fragment \<Rightarrow> Fragment" where
  "add_flow upstream downstream port_pairs frag =
     (case map_of (operators frag) upstream of
        None \<Rightarrow> log_error ''upstream_op_spec is nullptr'' frag
      | Some up \<Rightarrow>
     (case map_of (operators frag) downstream of
        None \<Rightarrow> log_error ''downstream_op_spec is nullptr'' frag
      | Some down \<Rightarrow>
          if port_pairs = [] \<and> (inputs down = [] \<or> input_exec_spec down \<noteq> None) then
            (if operator_type up \<noteq> kNative \<or> operator_type down \<noteq> kNative then
               log_error
                 (''Both upstream ('' @ quote @ op_name up @ quote @ '', type: '' @
                  type_label (operator_type up) @ '') and downstream ('' @ quote @ op_name down @
                  quote @ '', type: '' @ type_label (operator_type down) @
                  '') operators should be native operators to connect execution ports. '' @
                  ''Please check the operator types. Ignoring the control flow addition.'') frag
             else
               (let frag1 = frag\<lparr>graph := graph_add_flow upstream downstream
                                   [(kOutputExecPortName, [kInputExecPortName])] (graph frag)\<rparr>;
                    frag2 = set_operator (add_control_flow_upstream up) frag1;
                    down2 = (case map_of (operators frag2) downstream of
                               Some d \<Rightarrow> d | None \<Rightarrow> down)
                in set_operator (add_control_flow_downstream down2) frag2))
          else if port_pairs = [] \<and> length (outputs up) > 1 then
            log_error
              (''The upstream operator has more than one output port ('' @
               join '', '' (map fst (outputs up)) @
               '') so mapping should be specified explicitly!'') frag
          else if port_pairs = [] \<and> length (inputs down) > 1 then
            log_error
              (''The downstream operator has more than one input port ('' @
               join '', '' (map fst (inputs down)) @
               '') so mapping should be specified explicitly!'') frag
          else
            (let pairs = (if port_pairs = [] then [([], [])] else port_pairs);
                 pm0 = pairs_to_port_map pairs;
                 output_labels = map fst pm0
             in if length (outputs up) = 1 \<and> length output_labels \<noteq> 1 then
                  log_error
                    (''The upstream operator('' @ op_name up @
                     '') has only one port with label '' @ quote @ fst (hd (outputs up)) @ quote @
                     '' but port_map specifies '' @ fmt_nat (length output_labels) @
                     '' labels('' @ join '', '' output_labels @
                     '') to the upstream operator'' @ quote @ ''s output port'') frag
                else
                  (case check_output_labels up pm0 of
                     Inl msg \<Rightarrow> log_error msg frag
                   | Inr pm1 \<Rightarrow>
                       (case resolve_output_labels down pm1 (map fst pm1) of
                          Inl x \<Rightarrow> log_error (fst x) (set_operator (snd x) frag)
                        | Inr r \<Rightarrow>
                            (set_operator (fst r) frag)
                              \<lparr>graph := graph_add_flow upstream downstream (snd r)
                                          (graph frag)\<rparr>)))))"

text \<open>\<^verbatim>\<open>Fragment::add_operator\<close>, together with the creation of the operator object.\<close>

definition add_operator :: "Operator \<Rightarrow> Fragment \<Rightarrow> Fragment" where
  "add_operator op frag =
     (set_operator op frag)\<lparr>graph := graph_add_node (op_name op) (graph frag)\<rparr>"

definition empty_fragment :: "string \<Rightarrow> Fragment" where
  "empty_fragment n = \<lparr>frag_name = n, graph = \<lparr>nodes = [], edges = []\<rparr>, operators = [],
     thread_pools = [], log = []\<rparr>"

section \<open>DistributedLowering\<close>

text \<open>
  A connection item: the name \<open>operator.port\<close> of a port whose edge crosses the
  boundary of the fragment, the direction of the port and the arguments of the
  transport.
\<close>

record ConnectionItem =
  ci_name :: string
  ci_io_type :: IOType
  ci_args :: "(string \<times> string) list"

text \<open>
  Modelled from the spec: \<^verbatim>\<open>Operator::parse_port_name\<close> is not among the sources;
  a connection item is named \<open>operator name.port name\<close>, split at the first dot.
\<close>

definition parse_port_name :: "string \<Rightarrow> string \<times> string" where
  "parse_port_name s =
     (takeWhile (\<lambda>c. c \<noteq> CHR ''.'') s, drop 1 (dropWhile (\<lambda>c. c \<noteq> CHR ''.'') s))"

text \<open>
  Modelled from the spec: \<^verbatim>\<open>CLIOptions::parse_address\<close> is not among the sources;
  the bind address is \<open>ip[:port]\<close> and its port component is ignored.
\<close>

definition parse_address_ip :: "string \<Rightarrow> string \<Rightarrow> string" where
  "parse_address_ip s default_ip =
     (let ip = takeWhile (\<lambda>c. c \<noteq> CHR '':'') s in if ip = [] then default_ip else ip)"

text \<open>
  \<^verbatim>\<open>generate_connection_map\<close>: the connection items by operator and port, each
  in the order of the items. An item that names no operator of the graph leaves
  a null operator in the map, which the next step dereferences.
\<close>

type_synonym connection_map = "(string \<times> (string \<times> ConnectionItem list) list) list"

definition add_connection_item ::
  "ConnectionItem \<Rightarrow> connection_map \<Rightarrow> connection_map" where
  "add_connection_item item cm =
     (let opn = fst (parse_port_name (ci_name item));
          port = snd (parse_port_name (ci_name item));
          port_map = (case map_of cm opn of Some pm \<Rightarrow> pm | None \<Rightarrow> []);
          items = (case map_of port_map port of Some xs \<Rightarrow> xs | None \<Rightarrow> [])
      in AList.update opn (AList.update port (items @ [item]) port_map) cm)"

definition generate_connection_map ::
  "OperatorGraph \<Rightarrow> ConnectionItem list \<Rightarrow> error + connection_map" where
  "generate_connection_map g connection_items =
     (if list_all (\<lambda>item. fst (parse_port_name (ci_name item)) \<in> set (get_nodes g))
           connection_items
      then Inr (foldl (\<lambda>cm item. add_connection_item item cm) [] connection_items)
      else Inl NullDereference)"

text \<open>
  Modelled from the spec: the classes of the virtual operators and of the
  forward operator are not among the sources. A virtual transmitter stands
  for the remote receiving end and has the one input port \<open>port_name\<close>; a
  virtual receiver has the one output port \<open>port_name\<close>; the forward operator
  re-exposes its input \<open>in\<close> on its output \<open>out\<close>.
\<close>

definition basic_operator :: "string \<Rightarrow> OperatorType \<Rightarrow> Operator" where
  "basic_operator n ty = \<lparr>op_name = n, operator_type = ty, inputs = [], outputs = [],
     input_exec_spec = None, output_exec_spec = None, metadata_policy = kDefaultPolicy,
     op_id = -1, is_initialized = False, non_default_input_ports = [],
     non_default_output_ports = [], multi_port_conditions = [], receivers_params = [],
     virtual_info = None, device_id = None\<rparr>"

definition VirtualTransmitterOp ::
  "string \<Rightarrow> string \<Rightarrow> ConnectorType \<Rightarrow> (string \<times> string) list \<Rightarrow> Operator" where
  "VirtualTransmitterOp n port_name ty args =
     (spec_input port_name kSizeOne (basic_operator n kVirtual))
       \<lparr>virtual_info := Some \<lparr>v_port_name = port_name, v_connector_type = ty,
                               v_arg_list = args, v_io_type = kOutput\<rparr>\<rparr>"

definition VirtualReceiverOp ::
  "string \<Rightarrow> string \<Rightarrow> ConnectorType \<Rightarrow> (string \<times> string) list \<Rightarrow> Operator" where
  "VirtualReceiverOp n port_name ty args =
     (spec_output port_name (basic_operator n kVirtual))
       \<lparr>virtual_info := Some \<lparr>v_port_name = port_name, v_connector_type = ty,
                               v_arg_list = args, v_io_type = kInput\<rparr>\<rparr>"

definition ForwardOp :: "string \<Rightarrow> Operator" where
  "ForwardOp n = spec_output ''out'' (spec_input ''in'' kSizeOne (basic_operator n kNative))"

text \<open>
  Modelled from the spec: \<^verbatim>\<open>IOSpec::connector(type, args)\<close> is declared in the
  missing header; it sets the connector kind of the port and creates the
  connector resource from the arguments.
\<close>

definition set_connector ::
  "ConnectorType \<Rightarrow> (string \<times> string) list \<Rightarrow> nat \<Rightarrow> IOSpec \<Rightarrow> IOSpec" where
  "set_connector ty args default_policy io_spec =
     io_spec\<lparr>connector_type := ty,
             connector := Some \<lparr>conn_kind = ty, conn_name = [], capacity = 1,
                                policy = default_policy, conn_args = args,
                                has_gxf_cptr = False\<rparr>\<rparr>"

text \<open>
  The body of the innermost loop of \<^verbatim>\<open>create_virtual_operators_and_connections\<close>
  for one connection of the port \<open>port_name\<close> of \<open>opn\<close>. The state is the
  fragment and the list of the virtual operators created so far.
\<close>

definition create_virtual_operator ::
  "nat \<Rightarrow> string \<Rightarrow> string \<Rightarrow> string \<Rightarrow> nat \<Rightarrow> ConnectionItem \<Rightarrow> Fragment \<times> string list
     \<Rightarrow> error + (Fragment \<times> string list)" where
  "create_virtual_operator default_policy source_ip opn port_name connection_index connection st =
     (let frag = fst st;
          vname = ''virtual_'' @ opn @ ''_'' @ port_name @ ''_'' @ fmt_nat connection_index
      in if ci_io_type connection = kOutput then
           (let args = ci_args connection @ [(''local_address'', source_ip)];
                virtual_op = VirtualTransmitterOp vname port_name kUCX args
            in Inr (add_flow opn vname [(port_name, port_name)] (set_operator virtual_op frag),
                    snd st @ [vname]))
         else
           (case map_of (operators frag) opn of
              None \<Rightarrow> Inl NullDereference
            | Some op \<Rightarrow>
                (let virtual_op = VirtualReceiverOp vname port_name kUCX (ci_args connection);
                     indexed =
                       (case map_of (inputs op) port_name of
                          None \<Rightarrow> True
                        | Some io \<Rightarrow> queue_size io = kAnySize)
                 in if indexed \<and> map_of (receivers_params op) port_name = None
                    then Inl NullDereference
                    else
                      (let forward_op_name =
                             (if indexed
                              then ''forward_'' @ opn @ ''_'' @ port_name @ '':'' @
                                   fmt_nat (the (map_of (receivers_params op) port_name))
                              else ''forward_'' @ opn @ ''_'' @ port_name);
                           forward_op = ForwardOp forward_op_name;
                           forward_op1 =
                             forward_op\<lparr>inputs :=
                               AList.map_entry ''in''
                                 (set_connector kUCX (ci_args connection) default_policy)
                                 (inputs forward_op)\<rparr>;
                           frag1 = set_operator forward_op1 (set_operator virtual_op frag);
                           frag2 = add_flow vname forward_op_name [(port_name, ''in'')] frag1;
                           frag3 = add_flow forward_op_name opn [(''out'', port_name)] frag2
                       in Inr (frag3, snd st @ [vname])))))"

fun create_virtual_operators_port ::
  "nat \<Rightarrow> string \<Rightarrow> string \<Rightarrow> string \<Rightarrow> nat \<Rightarrow> ConnectionItem list \<Rightarrow> Fragment \<times> string list
     \<Rightarrow> error + (Fragment \<times> string list)" where
  "create_virtual_operators_port dp ip opn port_name i [] st = Inr st"
| "create_virtual_operators_port dp ip opn port_name i (c # cs) st =
     (case create_virtual_operator dp ip opn port_name i c st of
        Inl e \<Rightarrow> Inl e
      | Inr st' \<Rightarrow> create_virtual_operators_port dp ip opn port_name (Suc i) cs st')"

fun create_virtual_operators_op ::
  "nat \<Rightarrow> string \<Rightarrow> string \<Rightarrow> (string \<times> ConnectionItem list) list \<Rightarrow> Fragment \<times> string list
     \<Rightarrow> error + (Fragment \<times> string list)" where
  "create_virtual_operators_op dp ip opn [] st = Inr st"
| "create_virtual_operators_op dp ip opn (p # ps) st =
     (case create_virtual_operators_port dp ip opn (fst p) 0 (snd p) st of
        Inl e \<Rightarrow> Inl e
      | Inr st' \<Rightarrow> create_virtual_operators_op dp ip opn ps st')"

fun create_virtual_operators_map ::
  "nat \<Rightarrow> string \<Rightarrow> connection_map \<Rightarrow> Fragment \<times> string list
     \<Rightarrow> error + (Fragment \<times> string list)" where
  "create_virtual_operators_map dp ip [] st = Inr st"
| "create_virtual_operators_map dp ip (e # es) st =
     (case create_virtual_operators_op dp ip (fst e) (snd e) st of
        Inl e \<Rightarrow> Inl e
      | Inr st' \<Rightarrow> create_virtual_operators_map dp ip es st')"

text \<open>
  \<^verbatim>\<open>create_virtual_operators_and_connections\<close>; \<open>source_address\<close> is the value
  of the environment variable \<^verbatim>\<open>HOLOSCAN_UCX_SOURCE_ADDRESS\<close>.
\<close>

definition create_virtual_operators_and_connections ::
  "nat \<Rightarrow> string option \<Rightarrow> Fragment \<Rightarrow> connection_map \<Rightarrow> error + (Fragment \<times> string list)" where
  "create_virtual_operators_and_connections dp source_address frag cm =
     (let source_ip =
            (case source_address of
               None \<Rightarrow> ''0.0.0.0''
             | Some a \<Rightarrow> if a = [] then ''0.0.0.0'' else parse_address_ip a ''0.0.0.0'')
      in create_virtual_operators_map dp source_ip cm (frag, []))"

text \<open>
  \<^verbatim>\<open>connect_ucx_transmitters_to_virtual_ops\<close>, for one virtual operator: the
  connections that leave the port of the transmitting operator are counted
  over the port maps to its next nodes; if there is exactly one, the UCX
  connector is set on the operator's own output port.
\<close>

definition port_connection_count :: "OperatorGraph \<Rightarrow> string \<Rightarrow> string \<Rightarrow> int" where
  "port_connection_count g last_transmitter_op port_name =
     foldl (\<lambda>c opn.
              case get_port_map g last_transmitter_op opn of
                None \<Rightarrow> c
              | Some pm \<Rightarrow> c + (if map_of pm port_name \<noteq> None then 1 else 0))
       0 (get_next_nodes g last_transmitter_op)"

definition connect_ucx_transmitter :: "nat \<Rightarrow> string \<Rightarrow> Fragment \<Rightarrow> error + Fragment" where
  "connect_ucx_transmitter dp vname frag =
     (case map_of (operators frag) vname of
        None \<Rightarrow> Inl NullDereference
      | Some virtual_op \<Rightarrow>
          (case virtual_info virtual_op of
             None \<Rightarrow> Inl NullDereference
           | Some vi \<Rightarrow>
               if v_io_type vi = kOutput then
                 (case get_previous_nodes (graph frag) vname of
                    [] \<Rightarrow> Inl NullDereference
                  | last_transmitter_op # _ \<Rightarrow>
                      if port_connection_count (graph frag) last_transmitter_op (v_port_name vi) = 1
                      then
                        (case map_of (operators frag) last_transmitter_op of
                           None \<Rightarrow> Inl NullDereference
                         | Some op \<Rightarrow>
                             if map_of (outputs op) (v_port_name vi) = None
                             then Inl NullDereference
                             else Inr (set_operator
                                    (op\<lparr>outputs :=
                                          AList.map_entry (v_port_name vi)
                                            (set_connector (v_connector_type vi) (v_arg_list vi) dp)
                                            (outputs op)\<rparr>) frag))
                      else Inr frag)
               else Inr frag))"

fun connect_ucx_transmitters_to_virtual_ops ::
  "nat \<Rightarrow> Fragment \<Rightarrow> string list \<Rightarrow> error + Fragment" where
  "connect_ucx_transmitters_to_virtual_ops dp frag [] = Inr frag"
| "connect_ucx_transmitters_to_virtual_ops dp frag (v # vs) =
     (case connect_ucx_transmitter dp v frag of
        Inl e \<Rightarrow> Inl e
      | Inr frag' \<Rightarrow> connect_ucx_transmitters_to_virtual_ops dp frag' vs)"

text \<open>The lowering pass at the head of \<^verbatim>\<open>initialize_fragment\<close>.\<close>

definition lower_fragment ::
  "nat \<Rightarrow> string option \<Rightarrow> ConnectionItem list \<Rightarrow> Fragment \<Rightarrow> error + Fragment" where
  "lower_fragment dp source_address connection_items frag =
     (case generate_connection_map (graph frag) connection_items of
        Inl e \<Rightarrow> Inl e
      | Inr cm \<Rightarrow>
          (case create_virtual_operators_and_connections dp source_address frag cm of
             Inl e \<Rightarrow> Inl e
           | Inr r \<Rightarrow> connect_ucx_transmitters_to_virtual_ops dp (fst r) (snd r)))"

section \<open>ConnectionPlanner\<close>

text \<open>
  A GXF component id is modelled by the owning entity and the component's
  name: the connector of the port of an operator, or the receiver \<open>source\<close> or
  a transmitter of a broadcast entity.
\<close>

datatype cid = OperatorPort string string | BroadcastPort string string

record BroadcastTx =
  btx_name :: string
  btx_kind :: ConnectorType
  btx_capacity :: nat
  btx_policy :: nat
  btx_min_size :: "nat option"
  btx_args :: "(string \<times> string) list"

text \<open>
  A broadcast entity: its codelet, the configuration of its receiver \<open>source\<close>
  (capacity, policy, \<open>min_size\<close>) and the transmitters added to it.
\<close>

record BroadcastEntity =
  be_name :: string
  be_codelet :: string
  be_capacity :: nat
  be_policy :: nat
  be_min_size :: nat
  be_transmitters :: "BroadcastTx list"

text \<open>
  The state of \<^verbatim>\<open>initialize_fragment\<close>: the operators, the port maps of the
  graph's edges (the planner erases entries of them; it adds or removes no node
  and no edge), the worklist, the indegrees, the visited nodes in the order of
  their visits, the map of the broadcast entities (operator, then source port),
  the broadcast entities themselves, the connection components added, and the
  counter of the broadcast transmitters.
\<close>

record Planner =
  ops :: "(string \<times> Operator) list"
  port_maps :: "((string \<times> string) \<times> port_map) list"
  worklist :: "string list"
  indegrees :: "(string \<times> int) list"
  visited_nodes :: "string list"
  broadcast_entities :: "(string \<times> (string \<times> string) list) list"
  implicit_broadcast_entities :: "BroadcastEntity list"
  connections :: "(cid \<times> cid) list"
  btx_count :: nat

definition add_connection :: "cid \<Rightarrow> cid \<Rightarrow> Planner \<Rightarrow> Planner" where
  "add_connection source_cid target_cid st =
     st\<lparr>connections := connections st @ [(source_cid, target_cid)]\<rparr>"

definition indegree :: "Planner \<Rightarrow> string \<Rightarrow> int" where
  "indegree st n = (case map_of (indegrees st) n of Some d \<Rightarrow> d | None \<Rightarrow> 0)"

text \<open>
  The first downstream-affordable condition of an output port, as the loops of
  \<^verbatim>\<open>create_broadcast_components\<close> and \<^verbatim>\<open>connect_broadcast_to_previous_op\<close>
  find it; its \<open>min_size\<close>.
\<close>

definition downstream_min_size :: "IOSpec \<Rightarrow> nat option" where
  "downstream_min_size io_spec =
     (case filter (\<lambda>c. fst c = kDownstreamMessageAffordable) (conditions io_spec) of
        [] \<Rightarrow> None
      | c # _ \<Rightarrow> (case snd c of Some cond \<Rightarrow> Some (min_size cond) | None \<Rightarrow> None))"

subsection \<open>Cycle mitigation\<close>

text \<open>
  The loop over the previous operators: it stops at the operator itself (a self
  cycle) and notes every previous operator that is not visited yet.
\<close>

fun detect_cycle :: "string \<Rightarrow> string list \<Rightarrow> string list \<Rightarrow> bool \<Rightarrow> bool \<times> bool" where
  "detect_cycle opn visited [] cycle_detected = (cycle_detected, False)"
| "detect_cycle opn visited (prev_op # rest) cycle_detected =
     (if prev_op = opn then (True, True)
      else detect_cycle opn visited rest (cycle_detected \<or> prev_op \<notin> set visited))"

definition mitigate_cycle :: "string list \<Rightarrow> string list \<Rightarrow> Operator \<Rightarrow> error + Operator" where
  "mitigate_cycle prev_operators visited op =
     (case input_exec_spec op of
        None \<Rightarrow> Inr op
      | Some in_port \<Rightarrow>
          (let r = detect_cycle (op_name op) visited prev_operators False;
               cycle_detected = fst r;
               self_cycle = snd r
           in if cycle_detected then
                (let op1 = op\<lparr>inputs :=
                                 AList.map_entry in_port (\<lambda>io. io\<lparr>queue_size := kSizeOne\<rparr>)
                                   (inputs op),
                               metadata_policy := kUpdate\<rparr>
                 in if self_cycle then
                      (case output_exec_spec op1 of
                         None \<Rightarrow> Inl NullDereference
                       | Some out_port \<Rightarrow>
                           Inr (op1\<lparr>outputs :=
                                      AList.map_entry out_port (condition kNone None)
                                        (outputs op1)\<rparr>))
                    else Inr op1)
              else Inr op))"

subsection \<open>Broadcast components\<close>

definition add_transmitter_to_entity :: "string \<Rightarrow> BroadcastTx \<Rightarrow> Planner \<Rightarrow> Planner" where
  "add_transmitter_to_entity entity tx st =
     st\<lparr>implicit_broadcast_entities :=
          map (\<lambda>e. if be_name e = entity
                    then e\<lparr>be_transmitters := be_transmitters e @ [tx]\<rparr> else e)
            (implicit_broadcast_entities st)\<rparr>"

text \<open>
  The body of the loop over the target ports in
  \<^verbatim>\<open>connect_broadcast_to_previous_op\<close>: one transmitter of the broadcast entity
  for the target port of \<open>op\<close>.
\<close>

definition add_broadcast_transmitter ::
  "nat \<Rightarrow> Operator \<Rightarrow> Operator \<Rightarrow> string \<Rightarrow> string \<Rightarrow> string \<Rightarrow> Planner \<Rightarrow> error + Planner" where
  "add_broadcast_transmitter default_policy op prev_op port_name entity target_port st =
     (case map_of (outputs prev_op) port_name of
        None \<Rightarrow> Inl NullDereference
      | Some prev_op_io_spec \<Rightarrow>
          (let prev_connector = connector prev_op_io_spec;
               prev_connector_type =
                 (if connector_type prev_op_io_spec = kDefault
                  then (if operator_type op = kVirtual then kUCX else kDoubleBuffer)
                  else connector_type prev_op_io_spec)
           in if prev_connector_type = kDoubleBuffer then
                (let cp = (case prev_connector of
                             Some c \<Rightarrow> if conn_kind c = kDoubleBuffer
                                       then (capacity c, policy c) else (1, default_policy)
                           | None \<Rightarrow> (1, default_policy));
                     tx = \<lparr>btx_name = ''btx_'' @ fmt_nat (btx_count st),
                           btx_kind = kDoubleBuffer, btx_capacity = fst cp, btx_policy = snd cp,
                           btx_min_size = downstream_min_size prev_op_io_spec, btx_args = []\<rparr>;
                     st1 = (add_transmitter_to_entity entity tx st)
                             \<lparr>btx_count := (btx_count st + 1) mod 2 ^ 32\<rparr>
                 in case map_of (inputs op) target_port of
                      None \<Rightarrow> Inl NullDereference
                    | Some target_io \<Rightarrow>
                        if connector target_io = None then Inl NullDereference
                        else Inr (add_connection (BroadcastPort entity (btx_name tx))
                                    (OperatorPort (op_name op) target_port) st1))
              else
                (if operator_type op = kVirtual then
                   (case virtual_info op of
                      None \<Rightarrow> Inl NullDereference
                    | Some vi \<Rightarrow>
                        Inr (add_transmitter_to_entity entity
                               \<lparr>btx_name = op_name op @ ''_'' @ port_name, btx_kind = kUCX,
                                btx_capacity = 1, btx_policy = default_policy,
                                btx_min_size = None, btx_args = v_arg_list vi\<rparr> st))
                 else
                   (case prev_connector of
                      None \<Rightarrow> Inl (RuntimeError ''failed to cast connector to UcxTransmitter'')
                    | Some c \<Rightarrow>
                        if conn_kind c \<noteq> kUCX
                        then Inl (RuntimeError ''failed to cast connector to UcxTransmitter'')
                        else Inr (add_transmitter_to_entity entity
                                    \<lparr>btx_name = op_name op @ ''_'' @ port_name, btx_kind = kUCX,
                                     btx_capacity = capacity c, btx_policy = policy c,
                                     btx_min_size = None, btx_args = conn_args c\<rparr> st)))))"

fun add_broadcast_transmitters ::
  "nat \<Rightarrow> Operator \<Rightarrow> Operator \<Rightarrow> string \<Rightarrow> string \<Rightarrow> string list \<Rightarrow> Planner
     \<Rightarrow> error + Planner" where
  "add_broadcast_transmitters dp op prev_op port_name entity [] st = Inr st"
| "add_broadcast_transmitters dp op prev_op port_name entity (target_port # rest) st =
     (case add_broadcast_transmitter dp op prev_op port_name entity target_port st of
        Inl e \<Rightarrow> Inl e
      | Inr st' \<Rightarrow> add_broadcast_transmitters dp op prev_op port_name entity rest st')"

text \<open>
  The loop of \<^verbatim>\<open>connect_broadcast_to_previous_op\<close> over the broadcast entities of
  \<open>prev_op\<close>: a source port that occurs in the port map of the edge from
  \<open>prev_op\<close> to \<open>op\<close> gets its transmitters and is erased from the port map.
\<close>

fun connect_broadcast_ports ::
  "nat \<Rightarrow> Operator \<Rightarrow> Operator \<Rightarrow> (string \<times> string) list \<Rightarrow> Planner \<Rightarrow> error + Planner" where
  "connect_broadcast_ports dp op prev_op [] st = Inr st"
| "connect_broadcast_ports dp op prev_op (b # rest) st =
     (let key = (op_name prev_op, op_name op);
          port_map_val = (case map_of (port_maps st) key of Some pm \<Rightarrow> pm | None \<Rightarrow> [])
      in case map_of port_map_val (fst b) of
           None \<Rightarrow> connect_broadcast_ports dp op prev_op rest st
         | Some target_ports \<Rightarrow>
             (case add_broadcast_transmitters dp op prev_op (fst b) (snd b) target_ports st of
                Inl e \<Rightarrow> Inl e
              | Inr st1 \<Rightarrow>
                  connect_broadcast_ports dp op prev_op rest
                    (st1\<lparr>port_maps :=
                           AList.map_entry key (AList.delete (fst b)) (port_maps st1)\<rparr>)))"

definition connect_broadcast_to_previous_op ::
  "nat \<Rightarrow> string \<Rightarrow> string \<Rightarrow> Planner \<Rightarrow> error + Planner" where
  "connect_broadcast_to_previous_op dp opn prev_opn st =
     (case (map_of (ops st) opn, map_of (ops st) prev_opn) of
        (Some op, Some prev_op) \<Rightarrow>
          (case map_of (broadcast_entities st) prev_opn of
             None \<Rightarrow> Inl (RuntimeError ''unordered_map::at'')
           | Some bs \<Rightarrow> connect_broadcast_ports dp op prev_op bs st)
      | _ \<Rightarrow> Inl NullDereference)"

text \<open>
  \<^verbatim>\<open>create_broadcast_components\<close>. \<open>conns\<close> is the map of the downstream
  connections of \<open>op\<close>: for each source connector its name, its connector type
  and the set of its target ports (operator, port).
\<close>

type_synonym target_connections = "(cid \<times> string \<times> ConnectorType \<times> (string \<times> string) list) list"

definition create_broadcast_component ::
  "ExecutorConfig \<Rightarrow> Operator \<Rightarrow> cid \<times> string \<times> ConnectorType \<times> (string \<times> string) list
     \<Rightarrow> Planner \<Rightarrow> error + Planner" where
  "create_broadcast_component cfg op conn st =
     (let source_cid = fst conn;
          source_cname = fst (snd conn);
          target_ports = snd (snd (snd conn))
      in if length target_ports = 0 \<or> length target_ports = 1 then Inr st
         else
           (case map_of (outputs op) source_cname of
              None \<Rightarrow> Inl NullDereference
            | Some op_io_spec \<Rightarrow>
                (let curr_min_size =
                       (case downstream_min_size op_io_spec of Some m \<Rightarrow> m | None \<Rightarrow> 1);
                     broadcast_entity_name =
                       entity_prefix cfg @ ''_broadcast_'' @ op_name op @ ''_'' @ source_cname;
                     cp = (case connector op_io_spec of
                             Some c \<Rightarrow> if conn_kind c = kDoubleBuffer
                                       then (capacity c, policy c)
                                       else (1, default_queue_policy cfg)
                           | None \<Rightarrow> (1, default_queue_policy cfg));
                     entity = \<lparr>be_name = broadcast_entity_name,
                               be_codelet = entity_prefix cfg @ ''_broadcast_component_'' @
                                            op_name op @ ''_'' @ source_cname,
                               be_capacity = fst cp, be_policy = snd cp,
                               be_min_size = curr_min_size, be_transmitters = []\<rparr>;
                     bs = (case map_of (broadcast_entities st) (op_name op) of
                             Some m \<Rightarrow> m | None \<Rightarrow> [])
                 in Inr (add_connection source_cid (BroadcastPort broadcast_entity_name ''source'')
                           (st\<lparr>implicit_broadcast_entities :=
                                  implicit_broadcast_entities st @ [entity],
                                broadcast_entities :=
                                  AList.update (op_name op)
                                    (AList.update source_cname broadcast_entity_name bs)
                                    (broadcast_entities st)\<rparr>)))))"

fun create_broadcast_components ::
  "ExecutorConfig \<Rightarrow> Operator \<Rightarrow> target_connections \<Rightarrow> Planner \<Rightarrow> error + Planner" where
  "create_broadcast_components cfg op [] st = Inr st"
| "create_broadcast_components cfg op (c # cs) st =
     (case create_broadcast_component cfg op c st of
        Inl e \<Rightarrow> Inl e
      | Inr st' \<Rightarrow> create_broadcast_components cfg op cs st')"

subsection \<open>Connections to the previous operators\<close>

text \<open>
  The direct connections of one entry (source port, target ports) of the port
  map from \<open>prev_op\<close> to \<open>op\<close>.
\<close>

fun connect_targets :: "Operator \<Rightarrow> Operator \<Rightarrow> string \<Rightarrow> string list \<Rightarrow> Planner \<Rightarrow> error + Planner" where
  "connect_targets prev_op op source_port [] st = Inr st"
| "connect_targets prev_op op source_port (target_port # rest) st =
     (case map_of (inputs op) target_port of
        None \<Rightarrow> Inl NullDereference
      | Some target_io \<Rightarrow>
          if op_id prev_op \<noteq> -1 then
            (if connector target_io = None then Inl NullDereference
             else connect_targets prev_op op source_port rest
                    (add_connection (OperatorPort (op_name prev_op) source_port)
                       (OperatorPort (op_name op) target_port) st))
          else connect_targets prev_op op source_port rest st)"

definition connect_port :: "Operator \<Rightarrow> Operator \<Rightarrow> string \<times> string list \<Rightarrow> Planner \<Rightarrow> error + Planner" where
  "connect_port prev_op op entry st =
     (case map_of (outputs prev_op) (fst entry) of
        None \<Rightarrow> Inl NullDereference
      | Some source_io \<Rightarrow>
          if op_id prev_op \<noteq> -1 \<and> connector source_io = None then Inl NullDereference
          else if connector_type source_io \<noteq> kUCX
          then connect_targets prev_op op (fst entry) (snd entry) st
          else if length (snd entry) > 1
          then Inl (ReturnFalse
                 (''Source port with UCX connector is connected to multiple target ports without a ''
                  @ ''Broadcast component. Op: '' @ op_name op @ '' source name: '' @ fst entry))
          else Inr st)"

fun connect_ports :: "Operator \<Rightarrow> Operator \<Rightarrow> port_map \<Rightarrow> Planner \<Rightarrow> error + Planner" where
  "connect_ports prev_op op [] st = Inr st"
| "connect_ports prev_op op (entry # rest) st =
     (case connect_port prev_op op entry st of
        Inl e \<Rightarrow> Inl e
      | Inr st' \<Rightarrow> connect_ports prev_op op rest st')"

text \<open>The body of the loop over the previous operators of \<open>op\<close>.\<close>

definition connect_previous_operator ::
  "ExecutorConfig \<Rightarrow> string \<Rightarrow> string \<Rightarrow> Planner \<Rightarrow> error + Planner" where
  "connect_previous_operator cfg opn prev_opn st =
     (if prev_opn = opn then Inr st
      else
        (case map_of (port_maps st) (prev_opn, opn) of
           None \<Rightarrow> Inl (ReturnFalse (''Could not find port map for '' @ prev_opn @ '' -> '' @ opn))
         | Some _ \<Rightarrow>
             (case (if map_of (broadcast_entities st) prev_opn \<noteq> None
                    then connect_broadcast_to_previous_op (default_queue_policy cfg) opn prev_opn st
                    else Inr st) of
                Inl e \<Rightarrow> Inl e
              | Inr st1 \<Rightarrow>
                  (case (map_of (port_maps st1) (prev_opn, opn),
                         map_of (ops st1) prev_opn, map_of (ops st1) opn) of
                     (Some port_map_val, Some prev_op, Some op) \<Rightarrow>
                       if port_map_val = [] then Inr st1
                       else if operator_type prev_op = kVirtual \<or> operator_type op = kVirtual
                       then Inr st1
                       else connect_ports prev_op op port_map_val st1
                   | _ \<Rightarrow> Inl NullDereference))))"

fun connect_previous_operators ::
  "ExecutorConfig \<Rightarrow> string \<Rightarrow> string list \<Rightarrow> Planner \<Rightarrow> error + Planner" where
  "connect_previous_operators cfg opn [] st = Inr st"
| "connect_previous_operators cfg opn (prev_opn # rest) st =
     (case connect_previous_operator cfg opn prev_opn st of
        Inl e \<Rightarrow> Inl e
      | Inr st' \<Rightarrow> connect_previous_operators cfg opn rest st')"

subsection \<open>Connections to the next operators\<close>

definition insert_connection ::
  "cid \<Rightarrow> string \<Rightarrow> ConnectorType \<Rightarrow> string \<times> string \<Rightarrow> target_connections
     \<Rightarrow> target_connections" where
  "insert_connection source_cid source_cname ty target conns =
     (case map_of conns source_cid of
        None \<Rightarrow> conns @ [(source_cid, source_cname, ty, [target])]
      | Some info \<Rightarrow>
          AList.update source_cid
            (fst info, fst (snd info),
             (if target \<in> set (snd (snd info)) then snd (snd info)
              else snd (snd info) @ [target])) conns)"

text \<open>
  The targets of one entry of the port map from \<open>op\<close> to \<open>next_op\<close>, collected
  in the map of the downstream connections (nothing for a virtual operator).
\<close>

fun collect_targets ::
  "Operator \<Rightarrow> string \<Rightarrow> string \<Rightarrow> string list \<Rightarrow> target_connections
     \<Rightarrow> error + target_connections" where
  "collect_targets op next_opn source_port [] conns = Inr conns"
| "collect_targets op next_opn source_port (target_port # rest) conns =
     (if operator_type op \<noteq> kVirtual then
        (case map_of (outputs op) source_port of
           None \<Rightarrow> Inl NullDereference
         | Some source_io \<Rightarrow>
             (case connector source_io of
                None \<Rightarrow> Inl NullDereference
              | Some c \<Rightarrow>
                  collect_targets op next_opn source_port rest
                    (insert_connection (OperatorPort (op_name op) source_port) (conn_name c)
                       (connector_type source_io) (next_opn, target_port) conns)))
      else collect_targets op next_opn source_port rest conns)"

fun collect_port_map ::
  "Operator \<Rightarrow> string \<Rightarrow> port_map \<Rightarrow> target_connections \<Rightarrow> error + target_connections" where
  "collect_port_map op next_opn [] conns = Inr conns"
| "collect_port_map op next_opn (entry # rest) conns =
     (case collect_targets op next_opn (fst entry) (snd entry) conns of
        Inl e \<Rightarrow> Inl e
      | Inr conns' \<Rightarrow> collect_port_map op next_opn rest conns')"

text \<open>
  The loop over the next operators of \<open>op\<close>: the downstream connections are
  collected, the indegree of the next operator is decremented and the next
  operator is put on the worklist when its indegree is zero. A next operator
  without a port map is skipped.
\<close>

fun process_next_operators ::
  "Operator \<Rightarrow> string list \<Rightarrow> Planner \<times> target_connections
     \<Rightarrow> error + (Planner \<times> target_connections)" where
  "process_next_operators op [] sc = Inr sc"
| "process_next_operators op (next_op # rest) sc =
     (case map_of (port_maps (fst sc)) (op_name op, next_op) of
        None \<Rightarrow> process_next_operators op rest sc
      | Some port_map \<Rightarrow>
          (case collect_port_map op next_op port_map (snd sc) of
             Inl e \<Rightarrow> Inl e
           | Inr conns \<Rightarrow>
               (let st = fst sc;
                    d = indegree st next_op - 1;
                    st1 = st\<lparr>indegrees := AList.update next_op d (indegrees st)\<rparr>;
                    st2 = (if d = 0 then st1\<lparr>worklist := worklist st1 @ [next_op]\<rparr> else st1)
                in process_next_operators op rest (st2, conns))))"

text \<open>
  The downstream connections to operators that are initialized already (a
  cycle): one connection per target, except from a UCX connector.
\<close>

fun connect_initialized_targets ::
  "cid \<Rightarrow> (string \<times> string) list \<Rightarrow> Planner \<Rightarrow> error + Planner" where
  "connect_initialized_targets source_cid [] st = Inr st"
| "connect_initialized_targets source_cid (t # rest) st =
     (case map_of (ops st) (fst t) of
        None \<Rightarrow> Inl NullDereference
      | Some tmp_next_op \<Rightarrow>
          if op_id tmp_next_op \<noteq> -1 then
            (case map_of (inputs tmp_next_op) (snd t) of
               None \<Rightarrow> Inl NullDereference
             | Some target_io \<Rightarrow>
                 if connector target_io = None then Inl NullDereference
                 else connect_initialized_targets source_cid rest
                        (add_connection source_cid (OperatorPort (fst t) (snd t)) st))
          else connect_initialized_targets source_cid rest st)"

fun connect_downstream :: "target_connections \<Rightarrow> bool \<times> Planner \<Rightarrow> error + (bool \<times> Planner)" where
  "connect_downstream [] r = Inr r"
| "connect_downstream (c # cs) r =
     (if fst (snd (snd c)) = kUCX then connect_downstream cs (True, snd r)
      else
        (case connect_initialized_targets (fst c) (snd (snd (snd c))) (snd r) of
           Inl e \<Rightarrow> Inl e
         | Inr st' \<Rightarrow> connect_downstream cs (fst r, st')))"

text \<open>
  After the broadcast components of \<open>op\<close> are created: a next operator that is
  initialized already and is not virtual is connected to them at once.
\<close>

fun connect_broadcast_to_next_operators ::
  "ExecutorConfig \<Rightarrow> string \<Rightarrow> string list \<Rightarrow> Planner \<Rightarrow> error + Planner" where
  "connect_broadcast_to_next_operators cfg opn [] st = Inr st"
| "connect_broadcast_to_next_operators cfg opn (next_opn # rest) st =
     (case map_of (ops st) next_opn of
        None \<Rightarrow> Inl NullDereference
      | Some next_op \<Rightarrow>
          if op_id next_op \<noteq> -1 \<and> operator_type next_op \<noteq> kVirtual then
            (case map_of (port_maps st) (opn, next_opn) of
               None \<Rightarrow> Inl (ReturnFalse (''Could not find port map for '' @ opn @ '' -> '' @ next_opn))
             | Some _ \<Rightarrow>
                 (case (if map_of (broadcast_entities st) opn \<noteq> None
                        then connect_broadcast_to_previous_op (default_queue_policy cfg)
                               next_opn opn st
                        else Inr st) of
                    Inl e \<Rightarrow> Inl e
                  | Inr st' \<Rightarrow> connect_broadcast_to_next_operators cfg opn rest st'))
          else connect_broadcast_to_next_operators cfg opn rest st)"

definition broadcast_stage ::
  "ExecutorConfig \<Rightarrow> OperatorGraph \<Rightarrow> Operator \<Rightarrow> target_connections \<Rightarrow> bool \<Rightarrow> Planner
     \<Rightarrow> error + Planner" where
  "broadcast_stage cfg g op conns has_ucx st =
     (let next_ops = get_next_nodes g (op_name op);
          target_op_has_ucx_connector =
            (has_ucx \<or>
             list_ex (\<lambda>n. case map_of (ops st) n of
                             Some next_op \<Rightarrow> operator_type next_op = kVirtual
                           | None \<Rightarrow> False) next_ops)
      in if target_op_has_ucx_connector then
           (case create_broadcast_components cfg op conns st of
              Inl e \<Rightarrow> Inl e
            | Inr st1 \<Rightarrow>
                if operator_type op \<noteq> kVirtual
                then connect_broadcast_to_next_operators cfg (op_name op) next_ops st1
                else Inr st1)
         else Inr st)"

subsection \<open>The worklist loop\<close>

text \<open>
  One visit: the body of the loop of \<^verbatim>\<open>initialize_fragment\<close> for the operator
  \<open>opn\<close> taken from the worklist, after it was entered in the visited nodes.
  The operator is initialized on the graph as it is now.
\<close>

definition visit_operator ::
  "ExecutorConfig \<Rightarrow> OperatorGraph \<Rightarrow> string \<Rightarrow> Planner \<Rightarrow> error + Planner" where
  "visit_operator cfg g opn st =
     (case map_of (ops st) opn of
        None \<Rightarrow> Inl NullDereference
      | Some op0 \<Rightarrow>
          (let prev_operators = get_previous_nodes g opn
           in case mitigate_cycle prev_operators (visited_nodes st) op0 of
                Inl e \<Rightarrow> Inl e
              | Inr op1 \<Rightarrow>
                  (case op_initialize cfg \<lparr>nodes = nodes g, edges = port_maps st\<rparr> op1 of
                     Inl e \<Rightarrow> Inl e
                   | Inr op \<Rightarrow>
                       (case connect_previous_operators cfg opn prev_operators
                               (st\<lparr>ops := AList.update opn op (ops st)\<rparr>) of
                          Inl e \<Rightarrow> Inl e
                        | Inr st1 \<Rightarrow>
                            (case process_next_operators op (get_next_nodes g opn) (st1, []) of
                               Inl e \<Rightarrow> Inl e
                             | Inr sc \<Rightarrow>
                                 (case connect_downstream (snd sc) (False, fst sc) of
                                    Inl e \<Rightarrow> Inl e
                                  | Inr r \<Rightarrow>
                                      broadcast_stage cfg g op (snd sc) (fst r) (snd r)))))))"

text \<open>
  The fallback for a residual cycle: every node whose indegree is not zero gets
  the indegree zero and is put on the worklist, in the order of the nodes.
\<close>

fun break_cycles :: "string list \<Rightarrow> Planner \<Rightarrow> Planner" where
  "break_cycles [] st = st"
| "break_cycles (node # rest) st =
     (if indegree st node \<noteq> 0
      then break_cycles rest
             (st\<lparr>indegrees := AList.update node 0 (indegrees st),
                  worklist := worklist st @ [node]\<rparr>)
      else break_cycles rest st)"

text \<open>
  The loop of \<^verbatim>\<open>initialize_fragment\<close>, one iteration per unit of fuel; \<open>None\<close>
  when the fuel runs out. Taking the front of an empty worklist is the
  dereference of a null pointer.
\<close>

fun planner_loop ::
  "ExecutorConfig \<Rightarrow> OperatorGraph \<Rightarrow> nat \<Rightarrow> Planner \<Rightarrow> (error + Planner) option" where
  "planner_loop cfg g 0 st = None"
| "planner_loop cfg g (Suc fuel) st =
     (if worklist st = [] \<and> length (visited_nodes st) = length (get_nodes g)
      then Some (Inr st)
      else
        (let st1 = (if worklist st = [] then break_cycles (get_nodes g) st else st)
         in case worklist st1 of
              [] \<Rightarrow> Some (Inl NullDereference)
            | opn # rest \<Rightarrow>
                if opn \<in> set (visited_nodes st1)
                then planner_loop cfg g fuel (st1\<lparr>worklist := rest\<rparr>)
                else
                  (case visit_operator cfg g opn
                          (st1\<lparr>worklist := rest,
                               visited_nodes := visited_nodes st1 @ [opn]\<rparr>) of
                     Inl e \<Rightarrow> Some (Inl e)
                   | Inr st2 \<Rightarrow> planner_loop cfg g fuel st2)))"

text \<open>The state before the loop: the indegrees and the root operators on the worklist.\<close>

definition initial_planner :: "Fragment \<Rightarrow> Planner" where
  "initial_planner frag =
     (let g = graph frag
      in \<lparr>ops = operators frag,
          port_maps = edges g,
          worklist = filter (\<lambda>n. get_previous_nodes g n = []) (get_nodes g),
          indegrees = map (\<lambda>n. (n, int (length (get_previous_nodes g n)))) (get_nodes g),
          visited_nodes = [],
          broadcast_entities = [],
          implicit_broadcast_entities = [],
          connections = [],
          btx_count = 0\<rparr>)"

text \<open>
  \<^verbatim>\<open>initialize_fragment\<close>: the lowering of the connection items, the worklist
  loop and the thread pools. \<open>source_address\<close> is the bind address of the
  environment.
\<close>

definition initialize_fragment ::
  "ExecutorConfig \<Rightarrow> string option \<Rightarrow> ConnectionItem list \<Rightarrow> nat \<Rightarrow> Fragment
     \<Rightarrow> (error + Planner) option" where
  "initialize_fragment cfg source_address connection_items fuel frag =
     (case lower_fragment (default_queue_policy cfg) source_address connection_items frag of
        Inl e \<Rightarrow> Some (Inl e)
      | Inr frag1 \<Rightarrow>
          (case planner_loop cfg (graph frag1) fuel (initial_planner frag1) of
             None \<Rightarrow> None
           | Some (Inl e) \<Rightarrow> Some (Inl e)
           | Some (Inr st) \<Rightarrow>
               (case finish_thread_pools (ops st) (thread_pools frag1) of
                  Inl e \<Rightarrow> Some (Inl e)
                | Inr _ \<Rightarrow> Some (Inr st))))"

text \<open>Two operators that cannot be connected without naming the ports.\<close>

definition op_two_outputs :: Operator where
  "op_two_outputs =
     (mk_op ''A'')\<lparr>outputs := [(''out1'', mk_output ''out1''), (''out2'', mk_output ''out2'')]\<rparr>"

definition op_one_input :: Operator where
  "op_one_input = (mk_op ''B'')\<lparr>inputs := [(''in'', mk_input ''in'' 1)]\<rparr>"

definition frag_two_ops :: Fragment where
  "frag_two_ops =
     add_operator op_one_input (add_operator op_two_outputs (empty_fragment ''f''))"

section \<open>Notions for the properties of the planner\<close>

text \<open>
  What the wiring steps leave as it is: the worklist, the indegrees, the
  visited nodes, the operators and the keys of the port maps; connections are
  only added.
\<close>

definition trav_eq :: "Planner \<Rightarrow> Planner \<Rightarrow> bool" where
  "trav_eq st' st \<longleftrightarrow>
     worklist st' = worklist st \<and> indegrees st' = indegrees st \<and>
     visited_nodes st' = visited_nodes st \<and> ops st' = ops st \<and>
     map fst (port_maps st') = map fst (port_maps st) \<and>
     prefix (connections st) (connections st')"

text \<open>The edge relation of the graph: the pairs of connected nodes.\<close>

definition graph_rel :: "OperatorGraph \<Rightarrow> (string \<times> string) set" where
  "graph_rel g = set (map fst (edges g))"

text \<open>
  \<open>visited_before xs u v\<close>: both nodes are in the list of the visits and \<open>u\<close> is
  visited before \<open>v\<close>.
\<close>

definition visited_before :: "string list \<Rightarrow> string \<Rightarrow> string \<Rightarrow> bool" where
  "visited_before xs u v \<longleftrightarrow>
     (\<exists>i j. i < j \<and> j < length xs \<and> xs ! i = u \<and> xs ! j = v)"

text \<open>The operators are stored under their names.\<close>

definition names_ok :: "(string \<times> Operator) list \<Rightarrow> bool" where
  "names_ok store \<longleftrightarrow> (\<forall>k op. map_of store k = Some op \<longrightarrow> op_name op = k)"

text \<open>The predecessors of a node that are not visited yet.\<close>

definition unvisited_preds :: "OperatorGraph \<Rightarrow> string list \<Rightarrow> string \<Rightarrow> string set" where
  "unvisited_preds g V v = {u \<in> set (get_previous_nodes g v). u \<notin> set V}"

text \<open>
  The invariant of the worklist loop on a graph without a cycle: no node is
  visited twice or waits on the worklist twice, the indegree of a node is the
  number of its predecessors not visited yet, the nodes with indegree zero are
  the visited ones and the ones on the worklist, every predecessor of a
  visited node was visited before it, and a visited operator is initialized.
\<close>

definition trav_inv :: "OperatorGraph \<Rightarrow> Planner \<Rightarrow> bool" where
  "trav_inv g st \<longleftrightarrow>
     distinct (visited_nodes st) \<and> set (visited_nodes st) \<subseteq> set (nodes g) \<and>
     distinct (worklist st) \<and> set (worklist st) \<subseteq> set (nodes g) \<and>
     set (worklist st) \<inter> set (visited_nodes st) = {} \<and>
     (\<forall>v \<in> set (nodes g).
        indegree st v = int (card (unvisited_preds g (visited_nodes st) v))) \<and>
     (\<forall>v \<in> set (nodes g).
        indegree st v = 0 \<longleftrightarrow> v \<in> set (worklist st) \<union> set (visited_nodes st)) \<and>
     (\<forall>v \<in> set (visited_nodes st). \<forall>u \<in> set (get_previous_nodes g v).
        visited_before (visited_nodes st) u v) \<and>
     (\<forall>v \<in> set (visited_nodes st).
        \<exists>op. map_of (ops st) v = Some op \<and>
             (operator_type op \<noteq> kVirtual \<longrightarrow> is_initialized op)) \<and>
     map fst (port_maps st) = map fst (edges g) \<and> names_ok (ops st)"

text \<open>An operator whose output is connected to the inputs of two operators.\<close>

definition frag_fan_out :: Fragment where
  "frag_fan_out =
     add_flow ''A'' ''C'' [(''out'', ''in'')]
       (add_flow ''A'' ''B'' [(''out'', ''in'')]
          (add_operator ((mk_op ''C'')\<lparr>inputs := [(''in'', mk_input ''in'' 1)]\<rparr>)
             (add_operator ((mk_op ''B'')\<lparr>inputs := [(''in'', mk_input ''in'' 1)]\<rparr>)
                (add_operator ((mk_op ''A'')\<lparr>outputs := [(''out'', mk_output ''out'')]\<rparr>)
                   (empty_fragment ''f'')))))"

text \<open>
  \<open>sources_ok P st' st\<close>: the source of every connection that \<open>st'\<close> has and
  \<open>st\<close> has not satisfies \<open>P\<close>.
\<close>

definition sources_ok :: "(cid \<Rightarrow> bool) \<Rightarrow> Planner \<Rightarrow> Planner \<Rightarrow> bool" where
  "sources_ok P st' st \<longleftrightarrow>
     (\<forall>c \<in> set (connections st'). c \<in> set (connections st) \<or> P (fst c))"

text \<open>
  The map of the downstream connections: a target port is collected for a
  source connector, and the connector type entered for a source connector of
  \<open>op\<close> is the connector type of that output.
\<close>

definition collected :: "cid \<Rightarrow> string \<times> string \<Rightarrow> target_connections \<Rightarrow> bool" where
  "collected source_cid target conns \<longleftrightarrow>
     (\<exists>info. map_of conns source_cid = Some info \<and> target \<in> set (snd (snd info)))"

definition conn_types :: "Operator \<Rightarrow> target_connections \<Rightarrow> bool" where
  "conn_types op conns \<longleftrightarrow>
     (\<forall>sp info. map_of conns (OperatorPort (op_name op) sp) = Some info \<longrightarrow>
        (\<exists>io. map_of (outputs op) sp = Some io \<and> fst (snd info) = connector_type io))"

text \<open>An operator with a flow to itself, and the planner's state at its visit.\<close>

definition frag_self :: Fragment where
  "frag_self = add_flow ''B'' ''B'' [] (add_operator (mk_op ''B'') (empty_fragment ''f''))"

definition st_self :: Planner where
  "st_self = (initial_planner frag_self)\<lparr>visited_nodes := [''B'']\<rparr>"




text \<open>
  The two ends of an edge from the output \<open>out\<close> of \<open>Op1\<close> in one fragment to
  the input \<open>in\<close> of \<open>Op2\<close> in another fragment: the fragments and their
  connection items.
\<close>

definition op_src :: Operator where
  "op_src = (mk_op ''Op1'')\<lparr>outputs := [(''out'', mk_output ''out'')]\<rparr>"

definition op_dst :: Operator where
  "op_dst = (mk_op ''Op2'')\<lparr>inputs := [(''in'', mk_input ''in'' 1)]\<rparr>"

definition frag_src :: Fragment where
  "frag_src = add_operator op_src (empty_fragment ''fragment1'')"

definition frag_dst :: Fragment where
  "frag_dst = add_operator op_dst (empty_fragment ''fragment2'')"

definition item_out :: ConnectionItem where
  "item_out = \<lparr>ci_name = ''Op1.out'', ci_io_type = kOutput,
                ci_args = [(''receiver_address'', ''10.0.0.2'')]\<rparr>"

definition item_in :: ConnectionItem where
  "item_in = \<lparr>ci_name = ''Op2.in'', ci_io_type = kInput,
               ci_args = [(''receiver_address'', ''10.0.0.2'')]\<rparr>"

text \<open>
  The connections of one edge to the input port \<open>rx\<close> of its target node:
  the pairs of the source node and a source port that has \<open>rx\<close> among its
  targets.
\<close>

definition entries_at :: "string \<Rightarrow> (string \<times> string) \<times> port_map \<Rightarrow> (string \<times> string) list" where
  "entries_at rx e = map (\<lambda>p. (fst (fst e), fst p)) (filter (\<lambda>p. rx \<in> set (snd p)) (snd e))"

(*DEFS_END*)

section \<open>Queue size of a PrecedingCount port\<close>

lemma count_in_port_map_eq:
  "count_in_port_map rx pm c = c + int (length (filter (\<lambda>e. rx \<in> set (snd e)) pm))"
  unfolding count_in_port_map_def
  by (induction pm arbitrary: c) auto

lemma connection_count_fold:
  assumes "distinct (map fst E)" "set es \<subseteq> set E"
  shows "foldl (\<lambda>c prev_node. case map_of E (prev_node, v) of None \<Rightarrow> c
                  | Some pm \<Rightarrow> count_in_port_map rx pm c)
           c0 (map (fst \<circ> fst) (filter (\<lambda>e. snd (fst e) = v) es))
         = c0 + int (length (concat (map (entries_at rx) (filter (\<lambda>e. snd (fst e) = v) es))))"
  using assms(2)
proof (induction es arbitrary: c0)
  case Nil
  then show ?case by simp
next
  case (Cons e es)
  show ?case
  proof (cases "snd (fst e) = v")
    case True
    have "e \<in> set E" using Cons.prems by simp
    then have "(fst e, snd e) \<in> set E" by simp
    then have "map_of E (fst e) = Some (snd e)"
      using assms(1) by (meson map_of_is_SomeI)
    moreover have "fst e = (fst (fst e), v)" using True by (metis prod.collapse)
    ultimately have m: "map_of E (fst (fst e), v) = Some (snd e)" by simp
    show ?thesis using Cons.IH[of "count_in_port_map rx (snd e) c0"] Cons.prems True m
      by (simp add: count_in_port_map_eq entries_at_def)
  next
    case False
    then show ?thesis using Cons.IH[of c0] Cons.prems by simp
  qed
qed

lemma entries_distinct:
  assumes "distinct (map fst es)" "list_all (\<lambda>e. wf_port_map (snd e)) es"
  shows "distinct (concat (map (entries_at rx) (filter (\<lambda>e. snd (fst e) = v) es)))"
  using assms
proof (induction es)
  case Nil
  then show ?case by simp
next
  case (Cons e es)
  have d: "distinct (entries_at rx e)"
  proof -
    have "distinct (map fst (snd e))" using Cons.prems(2) by (simp add: wf_port_map_def)
    then have "distinct (map fst (filter (\<lambda>p. rx \<in> set (snd p)) (snd e)))"
      by (rule distinct_map_filter)
    then show ?thesis unfolding entries_at_def
      by (simp add: distinct_map inj_on_def) (metis (mono_tags, lifting) distinct_map inj_on_def)
  qed
  have ih: "distinct (concat (map (entries_at rx) (filter (\<lambda>e. snd (fst e) = v) es)))"
    using Cons by simp
  show ?case
  proof (cases "snd (fst e) = v")
    case True
    have "set (entries_at rx e) \<inter> set (concat (map (entries_at rx) (filter (\<lambda>e. snd (fst e) = v) es))) = {}"
    proof (rule ccontr)
      assume "\<not> ?thesis"
      then obtain x where x0: "x \<in> set (entries_at rx e)"
          "x \<in> set (concat (map (entries_at rx) (filter (\<lambda>e. snd (fst e) = v) es)))" by blast
      from x0(2) obtain e' where x1: "e' \<in> set es" "snd (fst e') = v"
          "x \<in> set (entries_at rx e')" by auto
      note x = x0(1) x1
      then have "fst x = fst (fst e)" "fst x = fst (fst e')" by (auto simp: entries_at_def)
      then have "fst e = fst e'" using True x(3) by (metis prod.collapse)
      moreover have "fst e \<notin> set (map fst es)" using Cons.prems(1) by simp
      ultimately show False using x(2) by auto
    qed
    then show ?thesis using True d ih by simp
  next
    case False
    then show ?thesis using ih by simp
  qed
qed

lemma entries_set:
  "set (concat (map (entries_at rx) (filter (\<lambda>e. snd (fst e) = v) (edges g))))
     = fst ` {e \<in> edge_set g. snd e = (v, rx)}"
proof (rule set_eqI, rule iffI)
  fix x
  assume "x \<in> set (concat (map (entries_at rx) (filter (\<lambda>e. snd (fst e) = v) (edges g))))"
  then obtain e p where e: "e \<in> set (edges g)" "snd (fst e) = v" "p \<in> set (snd e)"
      "rx \<in> set (snd p)" "x = (fst (fst e), fst p)"
    by (auto simp: entries_at_def)
  have "((fst (fst e), v), snd e) \<in> set (edges g)" using e(1,2) by (metis prod.collapse)
  moreover have "(fst p, snd p) \<in> set (snd e)" using e(3) by simp
  ultimately have "((fst (fst e), fst p), (v, rx)) \<in> edge_set g"
    unfolding edge_set_def using e(4) by blast
  then show "x \<in> fst ` {e \<in> edge_set g. snd e = (v, rx)}" using e(5) by force
next
  fix x
  assume "x \<in> fst ` {e \<in> edge_set g. snd e = (v, rx)}"
  then obtain u out where x: "x = (u, out)" "((u, out), (v, rx)) \<in> edge_set g" by force
  then obtain pm ts where p: "((u, v), pm) \<in> set (edges g)" "(out, ts) \<in> set pm" "rx \<in> set ts"
    unfolding edge_set_def by blast
  have "(u, out) \<in> set (entries_at rx ((u, v), pm))"
    using p(2,3) by (force simp: entries_at_def)
  then show "x \<in> set (concat (map (entries_at rx) (filter (\<lambda>e. snd (fst e) = v) (edges g))))"
    using p(1) x(1) by force
qed

lemma connection_count_card:
  assumes "wf_graph g"
  shows "connection_count g v rx = int (card {e \<in> edge_set g. snd e = (v, rx)})"
proof -
  let ?L = "concat (map (entries_at rx) (filter (\<lambda>e. snd (fst e) = v) (edges g)))"
  have dk: "distinct (map fst (edges g))" using assms by (simp add: wf_graph_def)
  have wp: "list_all (\<lambda>e. wf_port_map (snd e)) (edges g)"
    using assms by (simp add: wf_graph_def list_all_iff)
  have "connection_count g v rx = 0 + int (length ?L)"
    unfolding connection_count_def get_previous_nodes_def get_port_map_def
    by (rule connection_count_fold[OF dk]) simp
  then have c1: "connection_count g v rx = int (length ?L)" by simp
  have "distinct ?L" by (rule entries_distinct[OF dk wp])
  then have c2: "card (set ?L) = length ?L" by (rule distinct_card)
  have "inj_on fst {e \<in> edge_set g. snd e = (v, rx)}"
    by (auto simp: inj_on_def prod_eq_iff)
  then have c3: "card (fst ` {e \<in> edge_set g. snd e = (v, rx)}) = card {e \<in> edge_set g. snd e = (v, rx)}"
    by (rule card_image)
  have c4: "card (set ?L) = card (fst ` {e \<in> edge_set g. snd e = (v, rx)})"
    by (simp only: entries_set)
  show ?thesis using c1 c2 c3 c4 by linarith
qed


lemma wf_g_fan_in: "wf_graph g_fan_in"
  by (simp add: wf_graph_def g_fan_in_def wf_port_map_def)

text \<open>
  C4: for an input port whose queue size is \<^verbatim>\<open>kPrecedingCount\<close>, the queue size
  that \<^verbatim>\<open>create_input_port\<close> resolves is the number of distinct edges of the
  graph that end at this port of the owning operator, counted over the port
  maps of all its predecessors. If the port is created, that number is at least
  one, the receiver that is created for a port with the default connector has
  it as its capacity, and the default condition of the port has it as its
  \<open>min_size\<close>; a port with the default connector and without conditions is
  created whenever the number is at least one.
\<close>

theorem preceding_count_resolution:
  assumes "wf_graph g" and "queue_size io_spec = kPrecedingCount"
    and "op_name op \<in> set (nodes g)"
  shows "resolved_queue_size g op io_spec =
           Inr (int (card {e \<in> edge_set g. snd e = (op_name op, io_name io_spec)})) \<and>
         (\<forall>io'. create_input_port g default_policy entity io_spec False op = Inr io' \<longrightarrow>
            1 \<le> card {e \<in> edge_set g. snd e = (op_name op, io_name io_spec)} \<and>
            (\<exists>rx. connector io' = Some rx \<and>
               ((\<forall>c. connector io_spec = Some c \<longrightarrow> \<not> has_gxf_cptr c) \<and>
                connector_type io_spec = kDefault \<longrightarrow>
                  conn_kind rx = kDoubleBuffer \<and>
                  capacity rx = card {e \<in> edge_set g. snd e = (op_name op, io_name io_spec)})) \<and>
            (conditions io_spec = [] \<and>
             \<not> (\<exists>info \<in> set (multi_port_conditions op). io_name io_spec \<in> set (snd info)) \<and>
             io_name io_spec \<notin> set (non_default_input_ports op) \<longrightarrow>
               conditions io' =
                 [(kMessageAvailable,
                   Some \<lparr>min_size = card {e \<in> edge_set g. snd e = (op_name op, io_name io_spec)}\<rparr>)])) \<and>
         (1 \<le> card {e \<in> edge_set g. snd e = (op_name op, io_name io_spec)} \<and>
          connector io_spec = None \<and> connector_type io_spec = kDefault \<and>
          conditions io_spec = [] \<longrightarrow>
            (\<exists>io'. create_input_port g default_policy entity io_spec False op = Inr io'))"
proof -
  let ?n = "card {e \<in> edge_set g. snd e = (op_name op, io_name io_spec)}"
  have r: "resolved_queue_size g op io_spec = Inr (int ?n)"
    using assms by (simp add: resolved_queue_size_def find_node_def connection_count_card)
  have na: "queue_size io_spec \<noteq> kAnySize"
    using assms(2) by (simp add: kPrecedingCount_def kAnySize_def)
  have a: "1 \<le> ?n \<and>
            (\<exists>rx. connector io' = Some rx \<and>
               ((\<forall>c. connector io_spec = Some c \<longrightarrow> \<not> has_gxf_cptr c) \<and>
                connector_type io_spec = kDefault \<longrightarrow>
                  conn_kind rx = kDoubleBuffer \<and> capacity rx = ?n)) \<and>
            (conditions io_spec = [] \<and>
             \<not> (\<exists>info \<in> set (multi_port_conditions op). io_name io_spec \<in> set (snd info)) \<and>
             io_name io_spec \<notin> set (non_default_input_ports op) \<longrightarrow>
               conditions io' = [(kMessageAvailable, Some \<lparr>min_size = ?n\<rparr>)])"
    if c: "create_input_port g default_policy entity io_spec False op = Inr io'" for io'
  proof -
    from c r na have n1: "1 \<le> ?n"
      by (auto simp: create_input_port_def Let_def split: if_splits)
    then have nn: "\<not> int ?n < 1" by simp
    from c r na nn obtain rx where
      rx: "(case connector io_spec of
              Some c \<Rightarrow> if has_gxf_cptr c then Inr c
                        else make_receiver io_spec (int ?n) default_policy
            | None \<Rightarrow> make_receiver io_spec (int ?n) default_policy) = Inr rx"
      and io': "io' = (if conditions io_spec = [] \<and>
                         \<not> (\<exists>info \<in> set (multi_port_conditions op).
                              io_name io_spec \<in> set (snd info)) \<and>
                         io_name io_spec \<notin> set (non_default_input_ports op)
                       then condition kMessageAvailable (Some \<lparr>min_size = ?n\<rparr>)
                              (io_spec\<lparr>connector := Some rx\<rparr>)
                       else io_spec\<lparr>connector := Some rx\<rparr>)"
      by (auto simp: create_input_port_def Let_def split: if_splits sum.splits)
    have 1: "connector io' = Some rx" using io' by (simp add: condition_def)
    have 2: "conn_kind rx = kDoubleBuffer \<and> capacity rx = ?n"
      if "\<forall>c. connector io_spec = Some c \<longrightarrow> \<not> has_gxf_cptr c"
        "connector_type io_spec = kDefault"
      using rx that by (auto simp: make_receiver_def split: option.splits)
    have 3: "conditions io' = [(kMessageAvailable, Some \<lparr>min_size = ?n\<rparr>)]"
      if "conditions io_spec = [] \<and>
          \<not> (\<exists>info \<in> set (multi_port_conditions op). io_name io_spec \<in> set (snd info)) \<and>
          io_name io_spec \<notin> set (non_default_input_ports op)"
      using io' that by (simp add: condition_def)
    from n1 1 2 3 show ?thesis by blast
  qed
  have b: "\<exists>io'. create_input_port g default_policy entity io_spec False op = Inr io'"
    if "1 \<le> ?n" "connector io_spec = None" "connector_type io_spec = kDefault"
      "conditions io_spec = []"
    using that r na
    by (simp add: create_input_port_def Let_def make_receiver_def condition_def
        input_condition_supported_def)
  from r a b show ?thesis by blast
qed

theorem preceding_count_resolution_witness:
  "wf_graph g_fan_in \<and> queue_size (mk_input ''in'' 0) = kPrecedingCount \<and>
   op_name (mk_op ''C'') \<in> set (nodes g_fan_in) \<and>
   card {e \<in> edge_set g_fan_in. snd e = (''C'', ''in'')} = 3 \<and>
   resolved_queue_size g_fan_in (mk_op ''C'') (mk_input ''in'' 0) = Inr 3 \<and>
   create_input_port g_fan_in 2 [] (mk_input ''in'' 0) False (mk_op ''C'') =
     Inr ((mk_input ''in'' 0)
            \<lparr>conditions := [(kMessageAvailable, Some \<lparr>min_size = 3\<rparr>)],
             connector := Some \<lparr>conn_kind = kDoubleBuffer, conn_name = ''in'', capacity = 3,
                                policy = 2, conn_args = [], has_gxf_cptr = True\<rparr>\<rparr>)"
proof -
  have a: "wf_graph g_fan_in" by (rule wf_g_fan_in)
  have b: "queue_size (mk_input ''in'' 0) = kPrecedingCount"
    by (simp add: mk_input_def kPrecedingCount_def)
  have c: "op_name (mk_op ''C'') \<in> set (nodes g_fan_in)"
    by (simp add: mk_op_def g_fan_in_def)
  have d: "resolved_queue_size g_fan_in (mk_op ''C'') (mk_input ''in'' 0) = Inr 3"
    by (simp add: resolved_queue_size_def mk_input_def mk_op_def kPrecedingCount_def find_node_def
        connection_count_def g_fan_in_def get_previous_nodes_def get_port_map_def
        count_in_port_map_def)
  note t = preceding_count_resolution[OF a b c, of 2 "[]"]
  from t d have e: "card {e \<in> edge_set g_fan_in. snd e = (''C'', ''in'')} = 3"
    by (simp add: mk_op_def mk_input_def)
  have f: "create_input_port g_fan_in 2 [] (mk_input ''in'' 0) False (mk_op ''C'') =
     Inr ((mk_input ''in'' 0)
            \<lparr>conditions := [(kMessageAvailable, Some \<lparr>min_size = 3\<rparr>)],
             connector := Some \<lparr>conn_kind = kDoubleBuffer, conn_name = ''in'', capacity = 3,
                                policy = 2, conn_args = [], has_gxf_cptr = True\<rparr>\<rparr>)"
    using d
    by (simp add: create_input_port_def Let_def make_receiver_def condition_def
        input_condition_supported_def mk_input_def mk_op_def kAnySize_def)
  show ?thesis using a b c d e f by simp
qed

section \<open>Port creation\<close>

lemma create_input_ports_fail:
  assumes "p \<in> set ports"
    and "isl (create_input_port g (default_queue_policy cfg)
             (case wrapped_entity cfg of Some en \<Rightarrow> en | None \<Rightarrow> [])
             (snd p) (wrapped_entity cfg \<noteq> None) op)"
  shows "isl (create_input_ports g cfg op ports)"
  using assms
proof (induction ports)
  case Nil
  then show ?case by simp
next
  case (Cons a ports)
  then show ?case by (auto split: sum.splits)
qed

lemma sublist_in_msg1: "sublist x (a @ x @ b)"
  by (rule sublist_appendI)

lemma invalid_queue_size_msg_names:
  "sublist opn (invalid_queue_size_msg q opn rx)" "sublist rx (invalid_queue_size_msg q opn rx)"
proof -
  have "invalid_queue_size_msg q opn rx =
      (''Invalid queue size: '' @ fmt_int q @ '' (op: '' @ quote) @ opn @
      (quote @ '', input port: '' @ quote @ rx @ quote @ '')'')"
    by (simp add: invalid_queue_size_msg_def)
  then show "sublist opn (invalid_queue_size_msg q opn rx)"
    by (metis sublist_appendI)
  have "invalid_queue_size_msg q opn rx =
      (''Invalid queue size: '' @ fmt_int q @ '' (op: '' @ quote @ opn @
      quote @ '', input port: '' @ quote) @ rx @ (quote @ '')'')"
    by (simp add: invalid_queue_size_msg_def)
  then show "sublist rx (invalid_queue_size_msg q opn rx)"
    by (metis sublist_appendI)
qed

text \<open>
  C5: when the resolved queue size of an input port is below 1, creating the
  port throws a runtime error whose message names the operator and the port,
  and the initialization of the owning operator fails with it.
\<close>

theorem invalid_queue_size_error:
  assumes "wrapped_entity cfg = None" and "\<not> is_initialized op"
    and "(n, io_spec) \<in> set (inputs op)" and "queue_size io_spec \<noteq> kAnySize"
    and "resolved_queue_size g op io_spec = Inr q" and "q < 1"
  shows "create_input_port g (default_queue_policy cfg) [] io_spec False op =
           Inl (RuntimeError (invalid_queue_size_msg q (op_name op) (io_name io_spec)))
         \<and> sublist (op_name op) (invalid_queue_size_msg q (op_name op) (io_name io_spec))
         \<and> sublist (io_name io_spec) (invalid_queue_size_msg q (op_name op) (io_name io_spec))
         \<and> isl (initialize_operator cfg g op)"
proof -
  let ?op1 = "op\<lparr>op_id := int (codelet_cid cfg),
                 metadata_policy := (if metadata_policy op = kDefaultPolicy
                          then fragment_metadata_policy cfg else metadata_policy op)\<rparr>"
  have "resolved_queue_size g ?op1 io_spec = resolved_queue_size g op io_spec"
    by (simp add: resolved_queue_size_def split: option.splits)
  then have r: "resolved_queue_size g ?op1 io_spec = Inr q"
    using assms(5) by simp
  have 1: "create_input_port g (default_queue_policy cfg) [] io_spec False op =
           Inl (RuntimeError (invalid_queue_size_msg q (op_name op) (io_name io_spec)))"
    using assms by (simp add: create_input_port_def)
  have "isl (create_input_port g (default_queue_policy cfg)
             (case wrapped_entity cfg of Some en \<Rightarrow> en | None \<Rightarrow> [])
             (snd (n, io_spec)) (wrapped_entity cfg \<noteq> None) ?op1)"
    using assms(1,4,6) r by (simp add: create_input_port_def)
  then have "isl (create_input_ports g cfg ?op1 (inputs op))"
    using assms(3) create_input_ports_fail by blast
  then obtain e where "create_input_ports g cfg ?op1 (inputs op) = Inl e"
    by (auto simp: isl_def)
  then have 2: "isl (initialize_operator cfg g op)"
    using assms(2) by (simp add: initialize_operator_def Let_def split del: if_split)
  show ?thesis using 1 2 invalid_queue_size_msg_names by simp
qed

theorem invalid_queue_size_error_witness:
  "wrapped_entity cfg0 = None \<and> \<not> is_initialized op_no_pred \<and>
   (''in'', mk_input ''in'' 0) \<in> set (inputs op_no_pred) \<and>
   queue_size (mk_input ''in'' 0) \<noteq> kAnySize \<and>
   resolved_queue_size g_fan_in op_no_pred (mk_input ''in'' 0) = Inr 0 \<and> (0::int) < 1 \<and>
   create_input_port g_fan_in 2 [] (mk_input ''in'' 0) False op_no_pred =
     Inl (RuntimeError ''Invalid queue size: 0 (op: 'A', input port: 'in')'') \<and>
   isl (initialize_operator cfg0 g_fan_in op_no_pred)"
proof -
  have a: "wrapped_entity cfg0 = None" by (simp add: cfg0_def)
  have b: "\<not> is_initialized op_no_pred" by (simp add: op_no_pred_def mk_op_def)
  have c: "(''in'', mk_input ''in'' 0) \<in> set (inputs op_no_pred)" by (simp add: op_no_pred_def)
  have d: "queue_size (mk_input ''in'' 0) \<noteq> kAnySize" by (simp add: mk_input_def kAnySize_def)
  have e: "resolved_queue_size g_fan_in op_no_pred (mk_input ''in'' 0) = Inr 0"
    by (simp add: resolved_queue_size_def mk_input_def op_no_pred_def mk_op_def
        kPrecedingCount_def find_node_def connection_count_def g_fan_in_def
        get_previous_nodes_def get_port_map_def count_in_port_map_def)
  have f: "(0::int) < 1" by simp
  have m: "invalid_queue_size_msg 0 ''A'' ''in'' = ''Invalid queue size: 0 (op: 'A', input port: 'in')''"
    by (simp add: invalid_queue_size_msg_def fmt_int_def fmt_nat.simps digit_char_def quote_def)
  have n: "op_name op_no_pred = ''A''" "io_name (mk_input ''in'' 0) = ''in''"
    "default_queue_policy cfg0 = 2"
    by (simp_all add: op_no_pred_def mk_op_def mk_input_def cfg0_def)
  show ?thesis
    using invalid_queue_size_error[OF a b c d e f] a b c d e
    by (simp only: m n) simp
qed

lemma receiver_available:
  "connector_type io_spec = kDefault \<or> connector io_spec \<noteq> None \<Longrightarrow>
   \<exists>rx. (case connector io_spec of
           Some c \<Rightarrow> if has_gxf_cptr c then Inr c else make_receiver io_spec q dp
         | None \<Rightarrow> make_receiver io_spec q dp) = Inr rx"
  by (auto simp: make_receiver_def split: option.splits ConnectorType.splits)

lemma transmitter_available:
  "connector_type io_spec = kDefault \<or> connector io_spec \<noteq> None \<Longrightarrow>
   \<exists>tx. (case connector io_spec of
           Some c \<Rightarrow> if has_gxf_cptr c then Inr c else make_transmitter io_spec dp
         | None \<Rightarrow> make_transmitter io_spec dp) = Inr tx"
  by (auto simp: make_transmitter_def split: option.splits ConnectorType.splits)

lemma default_input_condition:
  assumes "queue_size io_spec \<noteq> kAnySize"
    and "resolved_queue_size g op io_spec = Inr q" and "1 \<le> q"
    and "conditions io_spec = []"
    and "io_name io_spec \<notin> set (non_default_input_ports op)"
    and "\<forall>info \<in> set (multi_port_conditions op). io_name io_spec \<notin> set (snd info)"
    and "connector_type io_spec = kDefault \<or> connector io_spec \<noteq> None"
  shows "\<exists>io'. create_input_port g dp entity io_spec False op = Inr io' \<and>
           conditions io' = [(kMessageAvailable, Some \<lparr>min_size = nat q\<rparr>)]"
proof -
  obtain rx where rx: "(case connector io_spec of
                        Some c \<Rightarrow> if has_gxf_cptr c then Inr c
                                  else make_receiver io_spec q dp
                      | None \<Rightarrow> make_receiver io_spec q dp) = Inr rx"
    using receiver_available[OF assms(7)] by blast
  show ?thesis
    unfolding create_input_port_def Let_def
    using assms(1-6) rx
    by (simp add: condition_def input_condition_supported_def)
qed

lemma default_output_condition:
  assumes "conditions io_spec = []"
    and "connector_type io_spec \<noteq> kUCX"
    and "io_name io_spec \<notin> set (non_default_output_ports op)"
    and "connector_type io_spec = kDefault \<or> connector io_spec \<noteq> None"
  shows "\<exists>io'. create_output_port dp entity io_spec False op = Inr io' \<and>
           conditions io' = [(kDownstreamMessageAffordable, Some \<lparr>min_size = 1\<rparr>)]"
proof -
  obtain tx where tx: "(case connector io_spec of
                        Some c \<Rightarrow> if has_gxf_cptr c then Inr c
                                  else make_transmitter io_spec dp
                      | None \<Rightarrow> make_transmitter io_spec dp) = Inr tx"
    using transmitter_available[OF assms(4)] by blast
  show ?thesis
    unfolding create_output_port_def Let_def
    using assms(1-3) tx
    by (simp add: condition_def output_condition_supported_def)
qed

lemma ucx_output_no_condition:
  assumes "conditions io_spec = []"
    and "connector_type io_spec = kUCX"
    and "connector io_spec \<noteq> None"
  shows "\<exists>io'. create_output_port dp entity io_spec False op = Inr io' \<and> conditions io' = []"
proof -
  obtain tx where tx: "(case connector io_spec of
                        Some c \<Rightarrow> if has_gxf_cptr c then Inr c
                                  else make_transmitter io_spec dp
                      | None \<Rightarrow> make_transmitter io_spec dp) = Inr tx"
    using transmitter_available[of io_spec dp] assms(3) by blast
  show ?thesis
    unfolding create_output_port_def Let_def
    using assms(1-2) tx
    by simp
qed

text \<open>
  C6: port creation (not the binding of a wrapped codelet's ports) gives an
  input port without conditions of its own, which no user-supplied condition
  names and which is in no multi-port condition group, a message-available
  condition whose \<open>min_size\<close> is the resolved queue size; it gives an output
  port without conditions of its own, which no user-supplied condition names
  and whose connector type is not UCX, a downstream-affordable condition with
  \<open>min_size = 1\<close>; and it gives an output port with a UCX connector no
  default condition.
\<close>

theorem default_port_conditions:
  "(queue_size io_in \<noteq> kAnySize \<and> resolved_queue_size g op io_in = Inr q \<and> 1 \<le> q \<and>
    conditions io_in = [] \<and> io_name io_in \<notin> set (non_default_input_ports op) \<and>
    (\<forall>info \<in> set (multi_port_conditions op). io_name io_in \<notin> set (snd info)) \<and>
    (connector_type io_in = kDefault \<or> connector io_in \<noteq> None)
    \<longrightarrow> (\<exists>io'. create_input_port g dp entity io_in False op = Inr io' \<and>
           conditions io' = [(kMessageAvailable, Some \<lparr>min_size = nat q\<rparr>)]))
   \<and>
   (conditions io_out = [] \<and> connector_type io_out \<noteq> kUCX \<and>
    io_name io_out \<notin> set (non_default_output_ports op) \<and>
    (connector_type io_out = kDefault \<or> connector io_out \<noteq> None)
    \<longrightarrow> (\<exists>io'. create_output_port dp entity io_out False op = Inr io' \<and>
           conditions io' = [(kDownstreamMessageAffordable, Some \<lparr>min_size = 1\<rparr>)]))
   \<and>
   (conditions io_ucx = [] \<and> connector_type io_ucx = kUCX \<and> connector io_ucx \<noteq> None
    \<longrightarrow> (\<exists>io'. create_output_port dp entity io_ucx False op = Inr io' \<and> conditions io' = []))"
  using default_input_condition[of io_in g op q dp entity]
    default_output_condition[of io_out op dp entity]
    ucx_output_no_condition[of io_ucx dp entity op]
  by blast

theorem default_port_conditions_witness:
  "conditions (projr (create_input_port g_fan_in 2 [] (mk_input ''in'' 0) False (mk_op ''C'')))
     = [(kMessageAvailable, Some \<lparr>min_size = 3\<rparr>)] \<and>
   conditions (projr (create_output_port 2 [] (mk_output ''out'') False (mk_op ''C'')))
     = [(kDownstreamMessageAffordable, Some \<lparr>min_size = 1\<rparr>)] \<and>
   conditions (projr (create_output_port 2 [] (ucx_output ''out'') False (mk_op ''C''))) = []"
proof -
  have r: "resolved_queue_size g_fan_in (mk_op ''C'') (mk_input ''in'' 0) = Inr 3"
    by (simp add: resolved_queue_size_def mk_input_def mk_op_def kPrecedingCount_def find_node_def
        connection_count_def g_fan_in_def get_previous_nodes_def get_port_map_def
        count_in_port_map_def)
  have a: "queue_size (mk_input ''in'' 0) \<noteq> kAnySize \<and>
    resolved_queue_size g_fan_in (mk_op ''C'') (mk_input ''in'' 0) = Inr 3 \<and> (1::int) \<le> 3 \<and>
    conditions (mk_input ''in'' 0) = [] \<and>
    io_name (mk_input ''in'' 0) \<notin> set (non_default_input_ports (mk_op ''C'')) \<and>
    (\<forall>info \<in> set (multi_port_conditions (mk_op ''C'')). io_name (mk_input ''in'' 0) \<notin> set (snd info)) \<and>
    (connector_type (mk_input ''in'' 0) = kDefault \<or> connector (mk_input ''in'' 0) \<noteq> None)"
    using r by (simp add: mk_input_def mk_op_def kAnySize_def)
  have b: "conditions (mk_output ''out'') = [] \<and> connector_type (mk_output ''out'') \<noteq> kUCX \<and>
    io_name (mk_output ''out'') \<notin> set (non_default_output_ports (mk_op ''C'')) \<and>
    (connector_type (mk_output ''out'') = kDefault \<or> connector (mk_output ''out'') \<noteq> None)"
    by (simp add: mk_output_def mk_op_def)
  have c: "conditions (ucx_output ''out'') = [] \<and> connector_type (ucx_output ''out'') = kUCX \<and>
    connector (ucx_output ''out'') \<noteq> None"
    by (simp add: ucx_output_def mk_output_def)
  note t = default_port_conditions[of "mk_input ''in'' 0" g_fan_in "mk_op ''C''" 3 2 "[]"
      "mk_output ''out''" "ucx_output ''out''"]
  from t a obtain i1 where i1:
    "create_input_port g_fan_in 2 [] (mk_input ''in'' 0) False (mk_op ''C'') = Inr i1"
    "conditions i1 = [(kMessageAvailable, Some \<lparr>min_size = nat 3\<rparr>)]" by blast
  from t b obtain i2 where i2:
    "create_output_port 2 [] (mk_output ''out'') False (mk_op ''C'') = Inr i2"
    "conditions i2 = [(kDownstreamMessageAffordable, Some \<lparr>min_size = 1\<rparr>)]" by blast
  from t c obtain i3 where i3:
    "create_output_port 2 [] (ucx_output ''out'') False (mk_op ''C'') = Inr i3"
    "conditions i3 = []" by blast
  show ?thesis using i1 i2 i3 by simp
qed

section \<open>Thread pools\<close>

lemma check_pool_devices_ok:
  assumes "\<forall>opn \<in> set xs. \<exists>op. map_of opstore opn = Some op \<and> (\<forall>d. device_id op = Some d \<longrightarrow> 0 \<le> d)"
    and "gd = -1 \<or> 0 \<le> gd"
    and "check_pool_devices pool opstore gd xs = Inr r"
  shows "(gd \<noteq> -1 \<longrightarrow> r = gd) \<and>
         (\<forall>opn \<in> set xs. \<forall>op d. map_of opstore opn = Some op \<longrightarrow> device_id op = Some d \<longrightarrow> d = r)"
  using assms
proof (induction xs arbitrary: gd)
  case Nil
  then show ?case by simp
next
  case (Cons x xs)
  from Cons.prems(1) obtain op where op: "map_of opstore x = Some op"
    "\<forall>d. device_id op = Some d \<longrightarrow> 0 \<le> d" by auto
  have rest: "\<forall>opn \<in> set xs. \<exists>op. map_of opstore opn = Some op \<and> (\<forall>d. device_id op = Some d \<longrightarrow> 0 \<le> d)"
    using Cons.prems(1) by simp
  show ?case
  proof (cases "device_id op")
    case None
    then have "check_pool_devices pool opstore gd xs = Inr r"
      using Cons.prems(3) op(1) by simp
    from Cons.IH[OF rest Cons.prems(2) this] show ?thesis
      using op(1) None by auto
  next
    case (Some d)
    then have d0: "0 \<le> d" using op(2) by simp
    show ?thesis
    proof (cases "gd = -1")
      case True
      then have "check_pool_devices pool opstore d xs = Inr r"
        using Cons.prems(3) op(1) Some by simp
      from Cons.IH[OF rest _ this] d0 have "r = d \<and>
         (\<forall>opn \<in> set xs. \<forall>op d. map_of opstore opn = Some op \<longrightarrow> device_id op = Some d \<longrightarrow> d = r)"
        by auto
      then show ?thesis using True op(1) Some by auto
    next
      case False
      then have eq: "gd = d" and "check_pool_devices pool opstore gd xs = Inr r"
        using Cons.prems(3) op(1) Some by (auto split: if_splits)
      from Cons.IH[OF rest Cons.prems(2) this(2)] show ?thesis
        using False eq op(1) Some by auto
    qed
  qed
qed

lemma check_pool_devices_err:
  assumes "\<forall>opn \<in> set xs. map_of opstore opn \<noteq> None"
    and "check_pool_devices pool opstore gd xs = Inl e"
  shows "\<exists>opn cur prior op.
           e = RuntimeError (thread_pool_msg pool opn cur prior) \<and> opn \<in> set xs \<and>
           map_of opstore opn = Some op \<and> device_id op = Some cur \<and> cur \<noteq> prior \<and>
           ((prior = gd \<and> gd \<noteq> -1) \<or>
            (\<exists>p \<in> set xs. \<exists>opp. map_of opstore p = Some opp \<and> device_id opp = Some prior))"
  using assms
proof (induction xs arbitrary: gd)
  case Nil
  then show ?case by simp
next
  case (Cons x xs)
  from Cons.prems(1) obtain op where op: "map_of opstore x = Some op" by auto
  have rest: "\<forall>opn \<in> set xs. map_of opstore opn \<noteq> None" using Cons.prems(1) by simp
  show ?case
  proof (cases "device_id op")
    case None
    then have "check_pool_devices pool opstore gd xs = Inl e"
      using Cons.prems(2) op by simp
    from Cons.IH[OF rest this] show ?thesis by (simp, blast)
  next
    case (Some d)
    show ?thesis
    proof (cases "gd = -1")
      case True
      then have "check_pool_devices pool opstore d xs = Inl e"
        using Cons.prems(2) op Some by simp
      from Cons.IH[OF rest this] obtain opn cur prior op' where h:
        "e = RuntimeError (thread_pool_msg pool opn cur prior)" "opn \<in> set xs"
        "map_of opstore opn = Some op'" "device_id op' = Some cur" "cur \<noteq> prior"
        "(prior = d \<and> d \<noteq> -1) \<or>
           (\<exists>p \<in> set xs. \<exists>opp. map_of opstore p = Some opp \<and> device_id opp = Some prior)"
        by blast
      have "\<exists>p \<in> set (x # xs). \<exists>opp. map_of opstore p = Some opp \<and> device_id opp = Some prior"
        using h(6) op Some by auto
      then show ?thesis using h(1-5) by (simp, blast)
    next
      case False
      show ?thesis
      proof (cases "gd = d")
        case True
        then have "check_pool_devices pool opstore gd xs = Inl e"
          using Cons.prems(2) op Some False by simp
        from Cons.IH[OF rest this] show ?thesis by (simp, blast)
      next
        case ne: False
        then have "e = RuntimeError (thread_pool_msg pool x d gd)"
          using Cons.prems(2) op Some False by simp
        then show ?thesis using op Some ne False by auto
      qed
    qed
  qed
qed

lemma thread_pool_msg_names:
  "sublist pool (thread_pool_msg pool opn cur prior)"
  "sublist opn (thread_pool_msg pool opn cur prior)"
  "sublist (fmt_int cur) (thread_pool_msg pool opn cur prior)"
  "sublist (fmt_int prior) (thread_pool_msg pool opn cur prior)"
proof -
  have "thread_pool_msg pool opn cur prior =
     (''All operators in thread pool '' @ quote) @ pool @ (quote @
     '' must be using the same GPU device. Operator '' @ quote @ opn @ quote @
     '' has a component using a GPUDevice with CUDA device id '' @ fmt_int cur @
     '' but a prior operator in the pool was using a component with device id '' @
     fmt_int prior @
     ''. Please use separate thread pools for operators on different devices.'')"
    by (simp add: thread_pool_msg_def)
  then show "sublist pool (thread_pool_msg pool opn cur prior)"
    by (metis sublist_appendI)
  have "thread_pool_msg pool opn cur prior =
     (''All operators in thread pool '' @ quote @ pool @ quote @
     '' must be using the same GPU device. Operator '' @ quote) @ opn @ (quote @
     '' has a component using a GPUDevice with CUDA device id '' @ fmt_int cur @
     '' but a prior operator in the pool was using a component with device id '' @
     fmt_int prior @
     ''. Please use separate thread pools for operators on different devices.'')"
    by (simp add: thread_pool_msg_def)
  then show "sublist opn (thread_pool_msg pool opn cur prior)"
    by (metis sublist_appendI)
  have "thread_pool_msg pool opn cur prior =
     (''All operators in thread pool '' @ quote @ pool @ quote @
     '' must be using the same GPU device. Operator '' @ quote @ opn @ quote @
     '' has a component using a GPUDevice with CUDA device id '') @ fmt_int cur @
     ('' but a prior operator in the pool was using a component with device id '' @
     fmt_int prior @
     ''. Please use separate thread pools for operators on different devices.'')"
    by (simp add: thread_pool_msg_def)
  then show "sublist (fmt_int cur) (thread_pool_msg pool opn cur prior)"
    by (metis sublist_appendI)
  have "thread_pool_msg pool opn cur prior =
     (''All operators in thread pool '' @ quote @ pool @ quote @
     '' must be using the same GPU device. Operator '' @ quote @ opn @ quote @
     '' has a component using a GPUDevice with CUDA device id '' @ fmt_int cur @
     '' but a prior operator in the pool was using a component with device id '') @
     fmt_int prior @
     (''. Please use separate thread pools for operators on different devices.'')"
    by (simp add: thread_pool_msg_def)
  then show "sublist (fmt_int prior) (thread_pool_msg pool opn cur prior)"
    by (metis sublist_appendI)
qed

lemma finish_thread_pools_err:
  assumes "\<forall>p \<in> set pools. \<forall>opn \<in> set (pool_operators p). map_of opstore opn \<noteq> None"
    and "finish_thread_pools opstore pools = Inl e"
  shows "\<exists>p \<in> set pools. check_pool_devices (pool_name p) opstore (-1) (pool_operators p) = Inl e"
  using assms
proof (induction pools)
  case Nil
  then show ?case by simp
next
  case (Cons p pools)
  then show ?case by (auto split: sum.splits)
qed

lemma finish_thread_pools_ok:
  assumes "finish_thread_pools opstore pools = Inr u" and "p \<in> set pools"
  shows "\<exists>r. check_pool_devices (pool_name p) opstore (-1) (pool_operators p) = Inr r"
  using assms
proof (induction pools)
  case Nil
  then show ?case by simp
next
  case (Cons q pools)
  then show ?case by (auto split: sum.splits)
qed

text \<open>
  C9, as the code has it: when two operators of a declared thread pool have
  different GPU device ids (device ids are not negative), finishing the thread
  pools throws a runtime error. Its message names a thread pool, the operator of
  that pool at which the difference was found, that operator's device id and
  the differing device id of an earlier operator of the pool; the earlier
  operator is not named.
\<close>

theorem thread_pool_device_conflict:
  assumes "\<forall>p \<in> set pools. \<forall>opn \<in> set (pool_operators p).
             \<exists>op. map_of opstore opn = Some op \<and> (\<forall>d. device_id op = Some d \<longrightarrow> 0 \<le> d)"
    and "pool \<in> set pools"
    and "a \<in> set (pool_operators pool)" and "b \<in> set (pool_operators pool)"
    and "map_of opstore a = Some opa" and "map_of opstore b = Some opb"
    and "device_id opa = Some da" and "device_id opb = Some db" and "da \<noteq> db"
  shows "\<exists>p opn cur prior op opp prior_name.
           finish_thread_pools opstore pools =
             Inl (RuntimeError (thread_pool_msg (pool_name p) opn cur prior)) \<and>
           p \<in> set pools \<and> opn \<in> set (pool_operators p) \<and>
           map_of opstore opn = Some op \<and> device_id op = Some cur \<and> cur \<noteq> prior \<and>
           prior_name \<in> set (pool_operators p) \<and>
           map_of opstore prior_name = Some opp \<and> device_id opp = Some prior \<and>
           sublist (pool_name p) (thread_pool_msg (pool_name p) opn cur prior) \<and>
           sublist opn (thread_pool_msg (pool_name p) opn cur prior) \<and>
           sublist (fmt_int cur) (thread_pool_msg (pool_name p) opn cur prior) \<and>
           sublist (fmt_int prior) (thread_pool_msg (pool_name p) opn cur prior)"
proof -
  have ex: "\<forall>p \<in> set pools. \<forall>opn \<in> set (pool_operators p). map_of opstore opn \<noteq> None"
    using assms(1) by fastforce
  have "\<not> (\<exists>u. finish_thread_pools opstore pools = Inr u)"
  proof
    assume "\<exists>u. finish_thread_pools opstore pools = Inr u"
    then obtain u where "finish_thread_pools opstore pools = Inr u" by blast
    from finish_thread_pools_ok[OF this assms(2)] obtain r where
      r: "check_pool_devices (pool_name pool) opstore (-1) (pool_operators pool) = Inr r" by blast
    have h: "\<forall>opn \<in> set (pool_operators pool).
             \<exists>op. map_of opstore opn = Some op \<and> (\<forall>d. device_id op = Some d \<longrightarrow> 0 \<le> d)"
      using assms(1,2) by blast
    from check_pool_devices_ok[OF h _ r]
    have "\<forall>opn \<in> set (pool_operators pool). \<forall>op d.
            map_of opstore opn = Some op \<longrightarrow> device_id op = Some d \<longrightarrow> d = r" by simp
    then have "da = r" "db = r" using assms(3-8) by blast+
    then show False using assms(9) by simp
  qed
  then obtain e where e: "finish_thread_pools opstore pools = Inl e"
    by (cases "finish_thread_pools opstore pools") auto
  from finish_thread_pools_err[OF ex e] obtain p where
    p: "p \<in> set pools" "check_pool_devices (pool_name p) opstore (-1) (pool_operators p) = Inl e"
    by blast
  have exp: "\<forall>opn \<in> set (pool_operators p). map_of opstore opn \<noteq> None" using ex p(1) by blast
  from check_pool_devices_err[OF exp p(2)] obtain opn cur prior op where
    h: "e = RuntimeError (thread_pool_msg (pool_name p) opn cur prior)"
       "opn \<in> set (pool_operators p)" "map_of opstore opn = Some op" "device_id op = Some cur"
       "cur \<noteq> prior"
       "(prior = -1 \<and> (-1::int) \<noteq> -1) \<or>
        (\<exists>q \<in> set (pool_operators p). \<exists>opp. map_of opstore q = Some opp \<and> device_id opp = Some prior)"
    by blast
  then obtain q opp where q: "q \<in> set (pool_operators p)" "map_of opstore q = Some opp"
      "device_id opp = Some prior" using h(6) by auto
  have m: "finish_thread_pools opstore pools =
             Inl (RuntimeError (thread_pool_msg (pool_name p) opn cur prior))"
    using e h(1) by simp
  show ?thesis
    apply (rule exI[of _ p], rule exI[of _ opn], rule exI[of _ cur], rule exI[of _ prior])
    apply (rule exI[of _ op], rule exI[of _ opp], rule exI[of _ q])
    by (simp add: m p(1) h(2-5) q thread_pool_msg_names)
qed

theorem thread_pool_device_conflict_witness:
  "\<exists>p opn cur prior op opp prior_name.
           finish_thread_pools ops_two_devices [pool_q] =
             Inl (RuntimeError (thread_pool_msg (pool_name p) opn cur prior)) \<and>
           p \<in> set [pool_q] \<and> opn \<in> set (pool_operators p) \<and>
           map_of ops_two_devices opn = Some op \<and> device_id op = Some cur \<and> cur \<noteq> prior \<and>
           prior_name \<in> set (pool_operators p) \<and>
           map_of ops_two_devices prior_name = Some opp \<and> device_id opp = Some prior \<and>
           sublist (pool_name p) (thread_pool_msg (pool_name p) opn cur prior) \<and>
           sublist opn (thread_pool_msg (pool_name p) opn cur prior) \<and>
           sublist (fmt_int cur) (thread_pool_msg (pool_name p) opn cur prior) \<and>
           sublist (fmt_int prior) (thread_pool_msg (pool_name p) opn cur prior)"
proof -
  have 1: "\<forall>p \<in> set [pool_q]. \<forall>opn \<in> set (pool_operators p).
             \<exists>op. map_of ops_two_devices opn = Some op \<and> (\<forall>d. device_id op = Some d \<longrightarrow> 0 \<le> d)"
    by (simp add: pool_q_def ops_two_devices_def mk_op_def)
  have 2: "pool_q \<in> set [pool_q]" by simp
  have 3: "''Q1'' \<in> set (pool_operators pool_q)" "''Q2'' \<in> set (pool_operators pool_q)"
    by (simp_all add: pool_q_def)
  have 4: "map_of ops_two_devices ''Q1'' = Some ((mk_op ''Q1'')\<lparr>device_id := Some 0\<rparr>)"
    "map_of ops_two_devices ''Q2'' = Some ((mk_op ''Q2'')\<lparr>device_id := Some 1\<rparr>)"
    by (simp_all add: ops_two_devices_def)
  have 5: "device_id ((mk_op ''Q1'')\<lparr>device_id := Some 0\<rparr>) = Some 0"
    "device_id ((mk_op ''Q2'')\<lparr>device_id := Some 1\<rparr>) = Some 1" "(0::int) \<noteq> 1"
    by simp_all
  show ?thesis
    by (rule thread_pool_device_conflict[OF 1 2 3(1) 3(2) 4(1) 4(2) 5(1) 5(2) 5(3)])
qed

theorem thread_pool_message_counterexample:
  "finish_thread_pools ops_two_devices [pool_q] =
     Inl (RuntimeError (thread_pool_msg ''pool1'' ''Q2'' 1 0)) \<and>
   \<not> sublist ''Q1'' (thread_pool_msg ''pool1'' ''Q2'' 1 0)"
  by (simp add: ops_two_devices_def pool_q_def mk_op_def thread_pool_msg_def quote_def
      fmt_int_def fmt_nat.simps digit_char_def sublist_Cons_right)

section \<open>Ambiguous flows\<close>

lemma join_contains: "x \<in> set xs \<Longrightarrow> sublist x (join sep xs)"
proof (induction sep xs rule: join.induct)
  case (1 sep)
  then show ?case by simp
next
  case (2 sep y)
  then show ?case by simp
next
  case (3 sep y z zs)
  show ?case
  proof (cases "x = y")
    case True
    have "sublist y ([] @ y @ (sep @ join sep (z # zs)))" by (rule sublist_appendI)
    then show ?thesis using True by simp
  next
    case False
    then have "sublist x (join sep (z # zs))" using 3 by simp
    moreover have "sublist (join sep (z # zs)) ((y @ sep) @ join sep (z # zs))"
      by (rule sublist_append_leftI)
    ultimately have "sublist x ((y @ sep) @ join sep (z # zs))"
      by (rule sublist_order.order_trans)
    then show ?thesis by simp
  qed
qed

lemma join_in_msg:
  assumes "x \<in> set xs"
  shows "sublist x (a @ join sep xs @ b)"
proof -
  have "sublist x (join sep xs)" using assms by (rule join_contains)
  moreover have "sublist (join sep xs) (a @ join sep xs @ b)" by (rule sublist_appendI)
  ultimately show ?thesis by (rule sublist_order.order_trans)
qed

text \<open>
  C8, as the code has it: when a flow is declared with empty port pairs, the
  downstream operator has an input port and no input execution port, and the
  upstream operator has more than one output port or the downstream operator
  more than one input port, then \<^verbatim>\<open>add_flow\<close> writes one line to the error log
  that names the candidate ports (the output ports of the upstream operator
  if it has more than one, else the input ports of the downstream operator),
  and returns to its caller with the fragment otherwise unchanged: no edge is
  added and composition goes on.
\<close>

theorem ambiguous_flow_is_logged:
  assumes "map_of (operators frag) u = Some up" and "map_of (operators frag) d = Some down"
    and "inputs down \<noteq> []" and "input_exec_spec down = None"
    and "1 < length (outputs up) \<or> 1 < length (inputs down)"
  shows "\<exists>msg. add_flow u d [] frag = frag\<lparr>log := log frag @ [msg]\<rparr> \<and>
           (\<forall>p \<in> set (map fst (if 1 < length (outputs up) then outputs up else inputs down)).
              sublist p msg)"
proof (cases "1 < length (outputs up)")
  case True
  let ?msg = "''The upstream operator has more than one output port ('' @
               join '', '' (map fst (outputs up)) @
               '') so mapping should be specified explicitly!''"
  have "add_flow u d [] frag = frag\<lparr>log := log frag @ [?msg]\<rparr>"
    using assms(1-4) True by (simp add: add_flow_def log_error_def)
  moreover have "\<forall>p \<in> set (map fst (outputs up)). sublist p ?msg"
    using join_in_msg by blast
  ultimately show ?thesis using True by auto
next
  case False
  then have len: "1 < length (inputs down)" using assms(5) by simp
  let ?msg = "''The downstream operator has more than one input port ('' @
               join '', '' (map fst (inputs down)) @
               '') so mapping should be specified explicitly!''"
  have "add_flow u d [] frag = frag\<lparr>log := log frag @ [?msg]\<rparr>"
    using assms(1-4) False len by (simp add: add_flow_def log_error_def)
  moreover have "\<forall>p \<in> set (map fst (inputs down)). sublist p ?msg"
    using join_in_msg by blast
  ultimately show ?thesis using False by auto
qed

theorem ambiguous_flow_is_logged_witness:
  "\<exists>msg. add_flow ''A'' ''B'' [] frag_two_ops = frag_two_ops\<lparr>log := log frag_two_ops @ [msg]\<rparr> \<and>
         sublist ''out1'' msg \<and> sublist ''out2'' msg"
proof -
  have 1: "map_of (operators frag_two_ops) ''A'' = Some op_two_outputs"
    by (simp add: frag_two_ops_def add_operator_def set_operator_def empty_fragment_def
        op_two_outputs_def op_one_input_def mk_op_def)
  have 2: "map_of (operators frag_two_ops) ''B'' = Some op_one_input"
    by (simp add: frag_two_ops_def add_operator_def set_operator_def empty_fragment_def
        op_two_outputs_def op_one_input_def mk_op_def)
  have 3: "inputs op_one_input \<noteq> []" by (simp add: op_one_input_def)
  have 4: "input_exec_spec op_one_input = None" by (simp add: op_one_input_def mk_op_def)
  have 5: "1 < length (outputs op_two_outputs) \<or> 1 < length (inputs op_one_input)"
    by (simp add: op_two_outputs_def)
  from ambiguous_flow_is_logged[OF 1 2 3 4 5] obtain msg where
    m: "add_flow ''A'' ''B'' [] frag_two_ops = frag_two_ops\<lparr>log := log frag_two_ops @ [msg]\<rparr>"
       "\<forall>p \<in> set (map fst (if 1 < length (outputs op_two_outputs)
                              then outputs op_two_outputs else inputs op_one_input)).
              sublist p msg"
    by blast
  from m(2) have "sublist ''out1'' msg" "sublist ''out2'' msg"
    by (simp_all add: op_two_outputs_def)
  with m(1) show ?thesis by blast
qed

theorem ambiguous_flow_counterexample:
  "graph (add_flow ''A'' ''B'' [] frag_two_ops) = graph frag_two_ops \<and>
   log (add_flow ''A'' ''B'' [] frag_two_ops) =
     [''The upstream operator has more than one output port (out1, out2) so mapping should be specified explicitly!''] \<and>
   map_option (map_sum id visited_nodes)
     (initialize_fragment cfg0 None [] 3 (add_flow ''A'' ''B'' [] frag_two_ops)) =
     Some (Inr [''A'', ''B''])"
  by code_simp

section \<open>The traversal part of the planner's state\<close>

lemma trav_eq_refl: "trav_eq st st"
  by (simp add: trav_eq_def)

lemma trav_eq_trans: "trav_eq st2 st1 \<Longrightarrow> trav_eq st1 st \<Longrightarrow> trav_eq st2 st"
  unfolding trav_eq_def by (metis prefix_order.order_trans)

lemma map_fst_map_entry: "map fst (AList.map_entry k f xs) = map fst xs"
  by (induction xs) auto

lemma trav_add_connection: "trav_eq (add_connection a b st) st"
  by (simp add: trav_eq_def add_connection_def)

lemma trav_add_transmitter_to_entity: "trav_eq (add_transmitter_to_entity e tx st) st"
  by (simp add: trav_eq_def add_transmitter_to_entity_def)

lemma trav_add_broadcast_transmitter:
  "add_broadcast_transmitter dp op prev_op port_name entity target_port st = Inr st'
     \<Longrightarrow> trav_eq st' st"
  by (auto simp: add_broadcast_transmitter_def Let_def trav_eq_def add_connection_def
      add_transmitter_to_entity_def
      split: option.splits if_splits)

lemma trav_add_broadcast_transmitters:
  "add_broadcast_transmitters dp op prev_op port_name entity tps st = Inr st'
     \<Longrightarrow> trav_eq st' st"
proof (induction tps arbitrary: st)
  case Nil
  then show ?case by (simp add: trav_eq_refl)
next
  case (Cons t tps)
  from Cons.prems obtain st1 where
    1: "add_broadcast_transmitter dp op prev_op port_name entity t st = Inr st1"
    and 2: "add_broadcast_transmitters dp op prev_op port_name entity tps st1 = Inr st'"
    by (auto split: sum.splits)
  show ?case
    using trav_eq_trans[OF Cons.IH[OF 2] trav_add_broadcast_transmitter[OF 1]] .
qed

lemma trav_connect_broadcast_ports:
  "connect_broadcast_ports dp op prev_op bs st = Inr st' \<Longrightarrow> trav_eq st' st"
proof (induction bs arbitrary: st)
  case Nil
  then show ?case by (simp add: trav_eq_refl)
next
  case (Cons b bs)
  let ?key = "(op_name prev_op, op_name op)"
  let ?pm = "(case map_of (port_maps st) ?key of Some pm \<Rightarrow> pm | None \<Rightarrow> [])"
  show ?case
  proof (cases "map_of ?pm (fst b)")
    case None
    then have "connect_broadcast_ports dp op prev_op bs st = Inr st'"
      using Cons.prems by (simp add: Let_def)
    then show ?thesis by (rule Cons.IH)
  next
    case (Some tps)
    then obtain st1 where
      1: "add_broadcast_transmitters dp op prev_op (fst b) (snd b) tps st = Inr st1"
      and 2: "connect_broadcast_ports dp op prev_op bs
                (st1\<lparr>port_maps := AList.map_entry ?key (AList.delete (fst b)) (port_maps st1)\<rparr>)
              = Inr st'"
      using Cons.prems by (auto simp: Let_def split: sum.splits)
    have "trav_eq (st1\<lparr>port_maps := AList.map_entry ?key (AList.delete (fst b)) (port_maps st1)\<rparr>) st1"
      by (simp add: trav_eq_def map_fst_map_entry)
    then show ?thesis
      using Cons.IH[OF 2] trav_add_broadcast_transmitters[OF 1] trav_eq_trans by blast
  qed
qed

lemma trav_connect_broadcast_to_previous_op:
  "connect_broadcast_to_previous_op dp opn prev_opn st = Inr st' \<Longrightarrow> trav_eq st' st"
  by (auto simp: connect_broadcast_to_previous_op_def
      split: option.splits dest: trav_connect_broadcast_ports)

lemma trav_create_broadcast_component:
  "create_broadcast_component cfg op c st = Inr st' \<Longrightarrow> trav_eq st' st"
  by (auto simp: create_broadcast_component_def Let_def trav_eq_def add_connection_def
      split: option.splits if_splits)

lemma trav_create_broadcast_components:
  "create_broadcast_components cfg op cs st = Inr st' \<Longrightarrow> trav_eq st' st"
proof (induction cs arbitrary: st)
  case Nil
  then show ?case by (simp add: trav_eq_refl)
next
  case (Cons c cs)
  from Cons.prems obtain st1 where
    1: "create_broadcast_component cfg op c st = Inr st1"
    and 2: "create_broadcast_components cfg op cs st1 = Inr st'"
    by (auto split: sum.splits)
  show ?case
    using trav_eq_trans[OF Cons.IH[OF 2] trav_create_broadcast_component[OF 1]] .
qed

lemma trav_connect_targets:
  "connect_targets prev_op op sp tps st = Inr st' \<Longrightarrow> trav_eq st' st"
proof (induction tps arbitrary: st)
  case Nil
  then show ?case by (simp add: trav_eq_refl)
next
  case (Cons t tps)
  show ?case
  proof (cases "op_id prev_op \<noteq> -1")
    case True
    then have "connect_targets prev_op op sp tps
                 (add_connection (OperatorPort (op_name prev_op) sp)
                    (OperatorPort (op_name op) t) st) = Inr st'"
      using Cons.prems by (auto split: option.splits if_splits)
    from Cons.IH[OF this] show ?thesis
      using trav_add_connection trav_eq_trans by blast
  next
    case False
    then have "connect_targets prev_op op sp tps st = Inr st'"
      using Cons.prems by (auto split: option.splits if_splits)
    then show ?thesis by (rule Cons.IH)
  qed
qed

lemma trav_connect_port:
  "connect_port prev_op op entry st = Inr st' \<Longrightarrow> trav_eq st' st"
  by (auto simp: connect_port_def trav_eq_refl split: option.splits if_splits
      dest: trav_connect_targets)

lemma trav_connect_ports:
  "connect_ports prev_op op pm st = Inr st' \<Longrightarrow> trav_eq st' st"
proof (induction pm arbitrary: st)
  case Nil
  then show ?case by (simp add: trav_eq_refl)
next
  case (Cons e pm)
  from Cons.prems obtain st1 where
    1: "connect_port prev_op op e st = Inr st1"
    and 2: "connect_ports prev_op op pm st1 = Inr st'"
    by (auto split: sum.splits)
  show ?case
    using trav_eq_trans[OF Cons.IH[OF 2] trav_connect_port[OF 1]] .
qed

lemma trav_connect_previous_operator:
  assumes "connect_previous_operator cfg opn prev_opn st = Inr st'"
  shows "trav_eq st' st"
proof (cases "prev_opn = opn")
  case True
  then show ?thesis using assms by (simp add: connect_previous_operator_def trav_eq_refl)
next
  case False
  from assms False obtain st1 where
    1: "(if map_of (broadcast_entities st) prev_opn \<noteq> None
         then connect_broadcast_to_previous_op (default_queue_policy cfg) opn prev_opn st
         else Inr st) = Inr st1"
    and 2: "(case (map_of (port_maps st1) (prev_opn, opn),
                   map_of (ops st1) prev_opn, map_of (ops st1) opn) of
               (Some port_map_val, Some prev_op, Some op) \<Rightarrow>
                 if port_map_val = [] then Inr st1
                 else if operator_type prev_op = kVirtual \<or> operator_type op = kVirtual
                 then Inr st1
                 else connect_ports prev_op op port_map_val st1
             | _ \<Rightarrow> Inl NullDereference) = Inr st'"
    by (auto simp: connect_previous_operator_def split: option.splits sum.splits)
  have a: "trav_eq st1 st"
    using 1 by (auto simp: trav_eq_refl split: if_splits dest: trav_connect_broadcast_to_previous_op)
  have b: "trav_eq st' st1"
    using 2 by (auto simp: trav_eq_refl split: option.splits if_splits dest: trav_connect_ports)
  show ?thesis using trav_eq_trans[OF b a] .
qed

lemma trav_connect_previous_operators:
  "connect_previous_operators cfg opn prevs st = Inr st' \<Longrightarrow> trav_eq st' st"
proof (induction prevs arbitrary: st)
  case Nil
  then show ?case by (simp add: trav_eq_refl)
next
  case (Cons p prevs)
  from Cons.prems obtain st1 where
    1: "connect_previous_operator cfg opn p st = Inr st1"
    and 2: "connect_previous_operators cfg opn prevs st1 = Inr st'"
    by (auto split: sum.splits)
  show ?case
    using trav_eq_trans[OF Cons.IH[OF 2] trav_connect_previous_operator[OF 1]] .
qed

lemma trav_connect_initialized_targets:
  "connect_initialized_targets cid ts st = Inr st' \<Longrightarrow> trav_eq st' st"
proof (induction ts arbitrary: st)
  case Nil
  then show ?case by (simp add: trav_eq_refl)
next
  case (Cons t ts)
  from Cons.prems obtain nop where nop: "map_of (ops st) (fst t) = Some nop"
    by (auto split: option.splits)
  show ?case
  proof (cases "op_id nop \<noteq> -1")
    case True
    then have "connect_initialized_targets cid ts
                 (add_connection cid (OperatorPort (fst t) (snd t)) st) = Inr st'"
      using Cons.prems nop by (auto split: option.splits if_splits)
    from Cons.IH[OF this] show ?thesis
      using trav_add_connection trav_eq_trans by blast
  next
    case False
    then have "connect_initialized_targets cid ts st = Inr st'"
      using Cons.prems nop by (auto split: option.splits if_splits)
    then show ?thesis by (rule Cons.IH)
  qed
qed

lemma trav_connect_downstream:
  "connect_downstream cs r = Inr r' \<Longrightarrow> trav_eq (snd r') (snd r)"
proof (induction cs arbitrary: r)
  case Nil
  then show ?case by (simp add: trav_eq_refl)
next
  case (Cons c cs)
  show ?case
  proof (cases "fst (snd (snd c)) = kUCX")
    case True
    then have "connect_downstream cs (True, snd r) = Inr r'" using Cons.prems by simp
    from Cons.IH[OF this] show ?thesis by simp
  next
    case False
    then obtain st1 where
      1: "connect_initialized_targets (fst c) (snd (snd (snd c))) (snd r) = Inr st1"
      and 2: "connect_downstream cs (fst r, st1) = Inr r'"
      using Cons.prems by (auto split: sum.splits)
    from Cons.IH[OF 2] trav_connect_initialized_targets[OF 1] show ?thesis
      using trav_eq_trans by fastforce
  qed
qed

lemma trav_connect_broadcast_to_next_operators:
  "connect_broadcast_to_next_operators cfg opn nexts st = Inr st' \<Longrightarrow> trav_eq st' st"
proof (induction nexts arbitrary: st)
  case Nil
  then show ?case by (simp add: trav_eq_refl)
next
  case (Cons n nexts)
  from Cons.prems obtain nop where nop: "map_of (ops st) n = Some nop"
    by (auto split: option.splits)
  show ?case
  proof (cases "op_id nop \<noteq> -1 \<and> operator_type nop \<noteq> kVirtual")
    case True
    then obtain st1 where
      1: "(if map_of (broadcast_entities st) opn \<noteq> None
           then connect_broadcast_to_previous_op (default_queue_policy cfg) n opn st
           else Inr st) = Inr st1"
      and 2: "connect_broadcast_to_next_operators cfg opn nexts st1 = Inr st'"
      using Cons.prems nop by (auto split: option.splits sum.splits if_splits)
    have "trav_eq st1 st"
      using 1 by (auto simp: trav_eq_refl split: if_splits
          dest: trav_connect_broadcast_to_previous_op)
    then show ?thesis using Cons.IH[OF 2] trav_eq_trans by blast
  next
    case False
    then have "connect_broadcast_to_next_operators cfg opn nexts st = Inr st'"
      using Cons.prems nop by (auto split: if_splits)
    then show ?thesis by (rule Cons.IH)
  qed
qed

lemma trav_broadcast_stage:
  assumes "broadcast_stage cfg g op conns has_ucx st = Inr st'"
  shows "trav_eq st' st"
proof -
  let ?t = "has_ucx \<or> list_ex (\<lambda>n. case map_of (ops st) n of
                             Some next_op \<Rightarrow> operator_type next_op = kVirtual
                           | None \<Rightarrow> False) (get_next_nodes g (op_name op))"
  show ?thesis
  proof (cases ?t)
    case True
    then obtain st1 where 1: "create_broadcast_components cfg op conns st = Inr st1"
      and 2: "(if operator_type op \<noteq> kVirtual
               then connect_broadcast_to_next_operators cfg (op_name op)
                      (get_next_nodes g (op_name op)) st1
               else Inr st1) = Inr st'"
      using assms by (auto simp: broadcast_stage_def Let_def split: sum.splits if_splits)
    have "trav_eq st' st1"
      using 2 by (auto simp: trav_eq_refl split: if_splits
          dest: trav_connect_broadcast_to_next_operators)
    then show ?thesis using trav_create_broadcast_components[OF 1] trav_eq_trans by blast
  next
    case False
    then have "st' = st" using assms by (auto simp: broadcast_stage_def Let_def)
    then show ?thesis by (simp add: trav_eq_refl)
  qed
qed

lemma indegree_update:
  "indegree (st\<lparr>indegrees := AList.update k d (indegrees st)\<rparr>) v =
     (if v = k then d else indegree st v)"
  by (simp add: indegree_def update_conv')

lemma indegree_worklist [simp]: "indegree (st\<lparr>worklist := w\<rparr>) v = indegree st v"
  by (simp add: indegree_def)

lemma trav_eq_indegree: "trav_eq st' st \<Longrightarrow> indegree st' v = indegree st v"
  by (simp add: trav_eq_def indegree_def)

lemma process_next_operators_trav:
  assumes "process_next_operators op xs sc = Inr sc'"
    and "distinct xs"
    and "\<forall>x \<in> set xs. map_of (port_maps (fst sc)) (op_name op, x) \<noteq> None"
  shows "visited_nodes (fst sc') = visited_nodes (fst sc) \<and>
         port_maps (fst sc') = port_maps (fst sc) \<and> ops (fst sc') = ops (fst sc) \<and>
         (\<forall>v. indegree (fst sc') v = indegree (fst sc) v - (if v \<in> set xs then 1 else 0)) \<and>
         worklist (fst sc') = worklist (fst sc) @ filter (\<lambda>v. indegree (fst sc) v = 1) xs"
  using assms
proof (induction xs arbitrary: sc)
  case Nil
  then show ?case by simp
next
  case (Cons x xs)
  from Cons.prems(3) obtain pm where pm: "map_of (port_maps (fst sc)) (op_name op, x) = Some pm"
    by auto
  let ?st = "fst sc"
  let ?d = "indegree ?st x - 1"
  let ?st1 = "?st\<lparr>indegrees := AList.update x ?d (indegrees ?st)\<rparr>"
  let ?st2 = "if ?d = 0 then ?st1\<lparr>worklist := worklist ?st1 @ [x]\<rparr> else ?st1"
  from Cons.prems(1) pm obtain conns where
    rec: "process_next_operators op xs (?st2, conns) = Inr sc'"
    by (auto simp: Let_def split: sum.splits)
  have pms: "port_maps ?st2 = port_maps ?st" by simp
  have d: "distinct xs" and nx: "x \<notin> set xs" using Cons.prems(2) by simp_all
  have h: "\<forall>y \<in> set xs. map_of (port_maps (fst (?st2, conns))) (op_name op, y) \<noteq> None"
    using Cons.prems(3) by simp
  note ih = Cons.IH[OF rec d h]
  have ind2: "\<And>v. indegree ?st2 v = (if v = x then ?d else indegree ?st v)"
    by (simp add: indegree_update)
  have a: "visited_nodes (fst sc') = visited_nodes ?st" using ih by simp
  have b: "port_maps (fst sc') = port_maps ?st" using ih by simp
  have b': "ops (fst sc') = ops ?st" using ih by simp
  have c: "\<forall>v. indegree (fst sc') v = indegree ?st v - (if v \<in> set (x # xs) then 1 else 0)"
  proof
    fix v
    have "indegree (fst sc') v = indegree ?st2 v - (if v \<in> set xs then 1 else 0)"
      using ih by simp
    then show "indegree (fst sc') v = indegree ?st v - (if v \<in> set (x # xs) then 1 else 0)"
      using nx by (auto simp: indegree_update)
  qed
  have f: "filter (\<lambda>v. indegree ?st2 v = 1) xs = filter (\<lambda>v. indegree ?st v = 1) xs"
    using nx by (intro filter_cong) (auto simp: indegree_update)
  have w2: "worklist ?st2 = worklist ?st @ (if indegree ?st x = 1 then [x] else [])"
    by simp
  have "worklist (fst sc') = worklist ?st2 @ filter (\<lambda>v. indegree ?st2 v = 1) xs"
    using ih by simp
  then have e: "worklist (fst sc') = worklist ?st @ filter (\<lambda>v. indegree ?st v = 1) (x # xs)"
    by (simp only: f w2) simp
  show ?case using a b b' c e by blast
qed

lemma distinct_next_nodes:
  assumes "distinct (map fst (edges g))"
  shows "distinct (get_next_nodes g u)"
proof -
  have "distinct (map fst (filter (\<lambda>e. fst (fst e) = u) (edges g)))"
    using assms by (rule distinct_map_filter)
  then have "distinct (map snd (map fst (filter (\<lambda>e. fst (fst e) = u) (edges g))))"
    by (auto simp: distinct_map inj_on_def prod_eq_iff)
  then show ?thesis by (simp add: get_next_nodes_def)
qed

lemma distinct_previous_nodes:
  assumes "distinct (map fst (edges g))"
  shows "distinct (get_previous_nodes g v)"
proof -
  have "distinct (map fst (filter (\<lambda>e. snd (fst e) = v) (edges g)))"
    using assms by (rule distinct_map_filter)
  then have "distinct (map fst (map fst (filter (\<lambda>e. snd (fst e) = v) (edges g))))"
    by (auto simp: distinct_map inj_on_def prod_eq_iff)
  then show ?thesis by (simp add: get_previous_nodes_def)
qed

lemma next_nodes_iff: "v \<in> set (get_next_nodes g u) \<longleftrightarrow> (u, v) \<in> graph_rel g"
  by (force simp: get_next_nodes_def graph_rel_def)

lemma previous_nodes_iff: "u \<in> set (get_previous_nodes g v) \<longleftrightarrow> (u, v) \<in> graph_rel g"
  by (force simp: get_previous_nodes_def graph_rel_def)

lemma map_of_keys_cong:
  assumes "map fst xs = map fst ys"
  shows "(map_of xs k \<noteq> None) = (map_of ys k \<noteq> None)"
proof -
  have "k \<in> fst ` set xs \<longleftrightarrow> k \<in> fst ` set ys"
    using assms by (metis set_map)
  then show ?thesis by (simp add: map_of_eq_None_iff)
qed

lemma mitigate_cycle_name:
  "mitigate_cycle prevs visited op = Inr op' \<Longrightarrow> op_name op' = op_name op"
  by (auto simp: mitigate_cycle_def Let_def split: option.splits if_splits)

lemma initialize_operator_name:
  "initialize_operator cfg g op = Inr op' \<Longrightarrow> op_name op' = op_name op"
  by (auto simp: initialize_operator_def Let_def split: sum.splits if_splits)

lemma op_initialize_name:
  "op_initialize cfg g op = Inr op' \<Longrightarrow> op_name op' = op_name op"
  by (auto simp: op_initialize_def split: if_splits dest: initialize_operator_name)

lemma initialize_operator_initialized:
  "initialize_operator cfg g op = Inr op' \<Longrightarrow> is_initialized op'"
  by (auto simp: initialize_operator_def Let_def split: sum.splits if_splits)

lemma op_initialize_initialized:
  "op_initialize cfg g op = Inr op' \<Longrightarrow> operator_type op' \<noteq> kVirtual \<Longrightarrow> is_initialized op'"
  by (auto simp: op_initialize_def split: if_splits dest: initialize_operator_initialized)

lemma names_ok_update:
  "names_ok store \<Longrightarrow> op_name op = k \<Longrightarrow> names_ok (AList.update k op store)"
  by (simp add: names_ok_def update_conv')

lemma visit_operator_trav:
  assumes v: "visit_operator cfg g opn st = Inr st'"
    and keys: "map fst (port_maps st) = map fst (edges g)"
    and dist: "distinct (map fst (edges g))"
    and names: "names_ok (ops st)"
  shows "visited_nodes st' = visited_nodes st \<and>
         map fst (port_maps st') = map fst (edges g) \<and> names_ok (ops st') \<and>
         (\<exists>op. ops st' = AList.update opn op (ops st) \<and>
               (operator_type op \<noteq> kVirtual \<longrightarrow> is_initialized op)) \<and>
         (\<forall>v. indegree st' v =
                indegree st v - (if v \<in> set (get_next_nodes g opn) then 1 else 0)) \<and>
         worklist st' = worklist st @ filter (\<lambda>v. indegree st v = 1) (get_next_nodes g opn)"
proof -
  from v obtain op0 where op0: "map_of (ops st) opn = Some op0"
    by (auto simp: visit_operator_def split: option.splits)
  from v op0 obtain op1 where
    op1: "mitigate_cycle (get_previous_nodes g opn) (visited_nodes st) op0 = Inr op1"
    by (auto simp: visit_operator_def Let_def split: sum.splits)
  from v op0 op1 obtain op where
    op: "op_initialize cfg \<lparr>nodes = nodes g, edges = port_maps st\<rparr> op1 = Inr op"
    by (auto simp: visit_operator_def Let_def split: sum.splits)
  let ?st0 = "st\<lparr>ops := AList.update opn op (ops st)\<rparr>"
  from v op0 op1 op obtain st1 where
    st1: "connect_previous_operators cfg opn (get_previous_nodes g opn) ?st0 = Inr st1"
    by (auto simp: visit_operator_def Let_def split: sum.splits)
  from v op0 op1 op st1 obtain sc where
    sc: "process_next_operators op (get_next_nodes g opn) (st1, []) = Inr sc"
    by (auto simp: visit_operator_def Let_def split: sum.splits)
  from v op0 op1 op st1 sc obtain r where
    r: "connect_downstream (snd sc) (False, fst sc) = Inr r"
    by (auto simp: visit_operator_def Let_def split: sum.splits)
  from v op0 op1 op st1 sc r have
    bs: "broadcast_stage cfg g op (snd sc) (fst r) (snd r) = Inr st'"
    by (auto simp: visit_operator_def Let_def split: sum.splits)
  have name: "op_name op = opn"
    using op0 names mitigate_cycle_name[OF op1] op_initialize_name[OF op]
    by (simp add: names_ok_def)
  have t1: "trav_eq st1 ?st0" using st1 by (rule trav_connect_previous_operators)
  have k1: "map fst (port_maps st1) = map fst (edges g)"
    using t1 keys by (simp add: trav_eq_def)
  have "\<forall>x \<in> set (get_next_nodes g opn). map_of (edges g) (opn, x) \<noteq> None"
    by (auto simp: map_of_eq_None_iff dest: next_nodes_iff[THEN iffD1] simp: graph_rel_def)
  then have pm: "\<forall>x \<in> set (get_next_nodes g opn). map_of (port_maps (fst (st1, []))) (op_name op, x) \<noteq> None"
    using map_of_keys_cong[OF k1] name by simp
  note p = process_next_operators_trav[OF sc distinct_next_nodes[OF dist] pm]
  have t2: "trav_eq (snd r) (fst sc)" using trav_connect_downstream[OF r] by simp
  have t3: "trav_eq st' (snd r)" using bs by (rule trav_broadcast_stage)
  have t4: "trav_eq st' (fst sc)" using trav_eq_trans[OF t3 t2] .
  have a: "visited_nodes st' = visited_nodes st"
    using t4 p t1 by (simp add: trav_eq_def)
  have b: "map fst (port_maps st') = map fst (edges g)"
    using t4 p k1 by (simp add: trav_eq_def)
  have c: "names_ok (ops st')"
    using t4 p t1 names_ok_update[OF names name] by (simp add: trav_eq_def)
  have i1: "\<And>v. indegree st1 v = indegree st v"
    using trav_eq_indegree[OF t1] by (simp add: indegree_def)
  have d: "\<forall>v. indegree st' v =
                indegree st v - (if v \<in> set (get_next_nodes g opn) then 1 else 0)"
    using trav_eq_indegree[OF t4] p i1 by simp
  have w1: "worklist st1 = worklist st" using t1 by (simp add: trav_eq_def)
  have e: "worklist st' = worklist st @ filter (\<lambda>v. indegree st v = 1) (get_next_nodes g opn)"
    using t4 p w1 i1 by (simp add: trav_eq_def)
  have "ops st' = AList.update opn op (ops st)"
    using t4 p t1 by (simp add: trav_eq_def)
  then have f: "\<exists>op. ops st' = AList.update opn op (ops st) \<and>
               (operator_type op \<noteq> kVirtual \<longrightarrow> is_initialized op)"
    using op_initialize_initialized[OF op] by blast
  show ?thesis using a b c d e f by blast
qed

section \<open>The worklist loop on a graph without a cycle\<close>

lemma wf_graph_endpoints:
  assumes "wf_graph g" and "(u, v) \<in> graph_rel g"
  shows "u \<in> set (nodes g)" and "v \<in> set (nodes g)"
proof -
  from assms(2) obtain pm where "((u, v), pm) \<in> set (edges g)"
    by (auto simp: graph_rel_def)
  then have "u \<in> set (nodes g) \<and> v \<in> set (nodes g)"
    using assms(1) by (auto simp: wf_graph_def list_all_iff)
  then show "u \<in> set (nodes g)" and "v \<in> set (nodes g)" by simp_all
qed

lemma finite_unvisited_preds: "finite (unvisited_preds g V v)"
  by (simp add: unvisited_preds_def)

lemma unvisited_preds_snoc:
  "unvisited_preds g (V @ [x]) v = unvisited_preds g V v - {x}"
  by (auto simp: unvisited_preds_def)

lemma visited_before_snoc_old:
  assumes "visited_before V u v"
  shows "visited_before (V @ [x]) u v"
proof -
  from assms obtain i j where "i < j" "j < length V" "V ! i = u" "V ! j = v"
    unfolding visited_before_def by blast
  then have "i < j \<and> j < length (V @ [x]) \<and> (V @ [x]) ! i = u \<and> (V @ [x]) ! j = v"
    by (simp add: nth_append)
  then show ?thesis unfolding visited_before_def by blast
qed

lemma trav_invD:
  assumes "trav_inv g st"
  shows "distinct (visited_nodes st)" and "set (visited_nodes st) \<subseteq> set (nodes g)"
    and "distinct (worklist st)" and "set (worklist st) \<subseteq> set (nodes g)"
    and "set (worklist st) \<inter> set (visited_nodes st) = {}"
    and "\<forall>v \<in> set (nodes g).
           indegree st v = int (card (unvisited_preds g (visited_nodes st) v))"
    and "\<forall>v \<in> set (nodes g).
           indegree st v = 0 \<longleftrightarrow> v \<in> set (worklist st) \<union> set (visited_nodes st)"
    and "\<forall>v \<in> set (visited_nodes st). \<forall>u \<in> set (get_previous_nodes g v).
           visited_before (visited_nodes st) u v"
    and "map fst (port_maps st) = map fst (edges g)" and "names_ok (ops st)"
    and "\<forall>v \<in> set (visited_nodes st).
           \<exists>op. map_of (ops st) v = Some op \<and>
                (operator_type op \<noteq> kVirtual \<longrightarrow> is_initialized op)"
  using assms unfolding trav_inv_def by blast+

lemma visited_before_snoc_new:
  assumes "u \<in> set V"
  shows "visited_before (V @ [x]) u x"
proof -
  from assms obtain i where "i < length V" "V ! i = u" by (auto simp: in_set_conv_nth)
  then have "i < length V \<and> length V < length (V @ [x]) \<and> (V @ [x]) ! i = u \<and>
             (V @ [x]) ! length V = x"
    by (simp add: nth_append)
  then show ?thesis unfolding visited_before_def by blast
qed

lemma trav_inv_initial:
  assumes wf: "wf_graph (graph frag)" and names: "names_ok (operators frag)"
  shows "trav_inv (graph frag) (initial_planner frag)"
proof -
  let ?g = "graph frag"
  let ?st = "initial_planner frag"
  have dn: "distinct (nodes ?g)" and de: "distinct (map fst (edges ?g))"
    using wf by (simp_all add: wf_graph_def)
  have ind: "\<And>v. v \<in> set (nodes ?g) \<Longrightarrow>
               indegree ?st v = int (length (get_previous_nodes ?g v))"
    by (simp add: initial_planner_def indegree_def Let_def get_nodes_def map_of_map_restrict)
  have card: "\<And>v. card (unvisited_preds ?g [] v) = length (get_previous_nodes ?g v)"
    using distinct_previous_nodes[OF de] by (simp add: unvisited_preds_def distinct_card)
  have v: "visited_nodes ?st = []" and w: "worklist ?st =
      filter (\<lambda>n. get_previous_nodes ?g n = []) (nodes ?g)"
    and p: "port_maps ?st = edges ?g" and o: "ops ?st = operators frag"
    by (simp_all add: initial_planner_def Let_def get_nodes_def)
  show ?thesis
    unfolding trav_inv_def v w p o
    using dn names ind card by (auto simp: v)
qed

lemma trav_inv_step:
  assumes wf: "wf_graph g" and inv: "trav_inv g st" and w: "worklist st = opn # rest"
    and v: "visit_operator cfg g opn
              (st\<lparr>worklist := rest, visited_nodes := visited_nodes st @ [opn]\<rparr>) = Inr st2"
  shows "trav_inv g st2 \<and> visited_nodes st2 = visited_nodes st @ [opn]"
proof -
  let ?V = "visited_nodes st"
  let ?nexts = "get_next_nodes g opn"
  let ?sti = "st\<lparr>worklist := rest, visited_nodes := ?V @ [opn]\<rparr>"
  have de: "distinct (map fst (edges g))" using wf by (simp add: wf_graph_def)
  have dV: "distinct ?V" and sV: "set ?V \<subseteq> set (nodes g)"
    and dW: "distinct (opn # rest)" and sW: "set (opn # rest) \<subseteq> set (nodes g)"
    and WV: "set (opn # rest) \<inter> set ?V = {}"
    and c: "\<forall>v \<in> set (nodes g). indegree st v = int (card (unvisited_preds g ?V v))"
    and d: "\<forall>v \<in> set (nodes g). indegree st v = 0 \<longleftrightarrow> v \<in> set (opn # rest) \<union> set ?V"
    and e: "\<forall>v \<in> set ?V. \<forall>u \<in> set (get_previous_nodes g v). visited_before ?V u v"
    and k: "map fst (port_maps st) = map fst (edges g)" and n: "names_ok (ops st)"
    and h: "\<forall>v \<in> set ?V.
           \<exists>op. map_of (ops st) v = Some op \<and>
                (operator_type op \<noteq> kVirtual \<longrightarrow> is_initialized op)"
    using trav_invD[OF inv] unfolding w by blast+
  have opn_node: "opn \<in> set (nodes g)" using sW by simp
  have opn_nV: "opn \<notin> set ?V" using WV by auto
  have opn_nrest: "opn \<notin> set rest" using dW by simp
  have "indegree st opn = 0" using d opn_node by simp
  then have "card (unvisited_preds g ?V opn) = 0" using c opn_node by simp
  then have "unvisited_preds g ?V opn = {}" using finite_unvisited_preds by simp
  then have preds_visited: "set (get_previous_nodes g opn) \<subseteq> set ?V"
    by (auto simp: unvisited_preds_def)
  have ki: "map fst (port_maps ?sti) = map fst (edges g)" using k by simp
  have ni: "names_ok (ops ?sti)" using n by simp
  from visit_operator_trav[OF v ki de ni] have
    r1: "visited_nodes st2 = ?V @ [opn]"
    and r2: "map fst (port_maps st2) = map fst (edges g)"
    and r3: "names_ok (ops st2)"
    and r4: "\<And>x. indegree st2 x = indegree st x - (if x \<in> set ?nexts then 1 else 0)"
    and r5: "worklist st2 = rest @ filter (\<lambda>x. indegree st x = 1) ?nexts"
    and r6: "\<exists>op. ops st2 = AList.update opn op (ops st) \<and>
               (operator_type op \<noteq> kVirtual \<longrightarrow> is_initialized op)"
    by (simp_all add: indegree_def)
  have next_node: "\<And>x. x \<in> set ?nexts \<Longrightarrow> x \<in> set (nodes g)"
    using wf_graph_endpoints(2)[OF wf] by (simp add: next_nodes_iff)
  have next_pred: "\<And>x. x \<in> set ?nexts \<longleftrightarrow> opn \<in> set (get_previous_nodes g x)"
    by (simp add: next_nodes_iff previous_nodes_iff)
  have next_unv: "\<And>x. x \<in> set ?nexts \<Longrightarrow> opn \<in> unvisited_preds g ?V x"
    using next_pred opn_nV by (simp add: unvisited_preds_def)
  have next_pos: "\<And>x. x \<in> set ?nexts \<Longrightarrow> 1 \<le> card (unvisited_preds g ?V x)"
  proof -
    fix x assume "x \<in> set ?nexts"
    then have "opn \<in> unvisited_preds g ?V x" by (rule next_unv)
    then have "card (unvisited_preds g ?V x) \<noteq> 0"
      using finite_unvisited_preds by auto
    then show "1 \<le> card (unvisited_preds g ?V x)" by simp
  qed
  have next_fresh: "\<And>x. x \<in> set ?nexts \<Longrightarrow> x \<notin> set (opn # rest) \<union> set ?V"
  proof -
    fix x assume x: "x \<in> set ?nexts"
    then have "indegree st x \<noteq> 0" using next_pos[OF x] c next_node[OF x] by simp
    then show "x \<notin> set (opn # rest) \<union> set ?V" using d next_node[OF x] by blast
  qed
  have c2: "\<forall>x \<in> set (nodes g). indegree st2 x = int (card (unvisited_preds g (?V @ [opn]) x))"
  proof
    fix x assume xn: "x \<in> set (nodes g)"
    show "indegree st2 x = int (card (unvisited_preds g (?V @ [opn]) x))"
    proof (cases "x \<in> set ?nexts")
      case True
      have "card (unvisited_preds g ?V x - {opn}) = card (unvisited_preds g ?V x) - 1"
        using next_unv[OF True] by (simp add: finite_unvisited_preds)
      then show ?thesis
        using True r4[of x] c xn next_pos[OF True] by (simp add: unvisited_preds_snoc)
    next
      case False
      then have "opn \<notin> unvisited_preds g ?V x"
        using next_pred by (simp add: unvisited_preds_def)
      then have "unvisited_preds g ?V x - {opn} = unvisited_preds g ?V x" by simp
      then show ?thesis using False r4[of x] c xn by (simp add: unvisited_preds_snoc)
    qed
  qed
  have d2: "\<forall>x \<in> set (nodes g).
              indegree st2 x = 0 \<longleftrightarrow> x \<in> set (worklist st2) \<union> set (?V @ [opn])"
  proof
    fix x assume xn: "x \<in> set (nodes g)"
    show "indegree st2 x = 0 \<longleftrightarrow> x \<in> set (worklist st2) \<union> set (?V @ [opn])"
    proof (cases "x \<in> set ?nexts")
      case True
      have "x \<notin> set rest" "x \<notin> set ?V" "x \<noteq> opn" using next_fresh[OF True] by auto
      then show ?thesis using True r4[of x] r5 by auto
    next
      case False
      then have "x \<notin> set (filter (\<lambda>x. indegree st x = 1) ?nexts)" by simp
      then show ?thesis using False r4[of x] r5 d xn by auto
    qed
  qed
  have dW2: "distinct (worklist st2)"
  proof -
    have "distinct (filter (\<lambda>x. indegree st x = 1) ?nexts)"
      using distinct_next_nodes[OF de] by simp
    moreover have "set rest \<inter> set (filter (\<lambda>x. indegree st x = 1) ?nexts) = {}"
      using next_fresh by auto
    ultimately show ?thesis using dW r5 by simp
  qed
  have sW2: "set (worklist st2) \<subseteq> set (nodes g)"
    using sW next_node r5 by auto
  have WV2: "set (worklist st2) \<inter> set (?V @ [opn]) = {}"
    using WV opn_nrest next_fresh r5 by auto
  have e2: "\<forall>x \<in> set (?V @ [opn]). \<forall>u \<in> set (get_previous_nodes g x).
              visited_before (?V @ [opn]) u x"
  proof (intro ballI)
    fix x u assume x: "x \<in> set (?V @ [opn])" and u: "u \<in> set (get_previous_nodes g x)"
    show "visited_before (?V @ [opn]) u x"
    proof (cases "x \<in> set ?V")
      case True
      then show ?thesis using e u visited_before_snoc_old by blast
    next
      case False
      then have "x = opn" using x by simp
      then show ?thesis using u preds_visited visited_before_snoc_new by blast
    qed
  qed
  have h2: "\<forall>x \<in> set (?V @ [opn]).
           \<exists>op. map_of (ops st2) x = Some op \<and>
                (operator_type op \<noteq> kVirtual \<longrightarrow> is_initialized op)"
  proof
    fix x assume x: "x \<in> set (?V @ [opn])"
    from r6 obtain op where op: "ops st2 = AList.update opn op (ops st)"
      "operator_type op \<noteq> kVirtual \<longrightarrow> is_initialized op" by blast
    show "\<exists>op. map_of (ops st2) x = Some op \<and>
                (operator_type op \<noteq> kVirtual \<longrightarrow> is_initialized op)"
    proof (cases "x = opn")
      case True
      then show ?thesis using op by (simp add: update_conv')
    next
      case False
      then have "x \<in> set ?V" using x by simp
      then show ?thesis using h op(1) False by (simp add: update_conv')
    qed
  qed
  have "trav_inv g st2"
    unfolding trav_inv_def r1
    using dV opn_nV sV opn_node dW2 sW2 WV2 c2 d2 e2 h2[unfolded r1] r2 r3 by simp
  then show ?thesis using r1 by simp
qed

lemma trav_inv_empty_worklist:
  assumes wf: "wf_graph g" and ac: "acyclic (graph_rel g)"
    and inv: "trav_inv g st" and w: "worklist st = []"
  shows "length (visited_nodes st) = length (nodes g)"
proof (rule ccontr)
  assume ne: "length (visited_nodes st) \<noteq> length (nodes g)"
  let ?V = "visited_nodes st"
  let ?U = "set (nodes g) - set ?V"
  have dn: "distinct (nodes g)" using wf by (simp add: wf_graph_def)
  have dV: "distinct ?V" and sV: "set ?V \<subseteq> set (nodes g)"
    and c: "\<forall>v \<in> set (nodes g). indegree st v = int (card (unvisited_preds g ?V v))"
    and d0: "\<forall>v \<in> set (nodes g). indegree st v = 0 \<longleftrightarrow> v \<in> set (worklist st) \<union> set ?V"
    using trav_invD[OF inv] by blast+
  have d: "\<forall>v \<in> set (nodes g). indegree st v = 0 \<longleftrightarrow> v \<in> set ?V"
    using d0 w by simp
  have "set ?V \<noteq> set (nodes g)"
  proof
    assume "set ?V = set (nodes g)"
    then have "card (set ?V) = card (set (nodes g))" by simp
    then show False using ne dn dV by (simp add: distinct_card)
  qed
  then obtain x where x: "x \<in> ?U" using sV by blast
  have "finite (graph_rel g)" by (simp add: graph_rel_def)
  then have "wf (graph_rel g)" using ac by (rule finite_acyclic_wf)
  from wfE_min[OF this x] obtain z where
    z: "z \<in> ?U" and zmin: "\<And>y. (y, z) \<in> graph_rel g \<Longrightarrow> y \<notin> ?U"
    by blast
  have "indegree st z \<noteq> 0" using d z by blast
  then have "card (unvisited_preds g ?V z) \<noteq> 0" using c z by simp
  then have "unvisited_preds g ?V z \<noteq> {}" by auto
  then obtain u where u: "u \<in> set (get_previous_nodes g z)" "u \<notin> set ?V"
    by (auto simp: unvisited_preds_def)
  then have rel: "(u, z) \<in> graph_rel g" by (simp add: previous_nodes_iff)
  then have "u \<in> set (nodes g)" using wf_graph_endpoints(1)[OF wf] by blast
  then have "u \<in> ?U" using u(2) by simp
  then show False using zmin[OF rel] by simp
qed

lemma planner_loop_acyclic:
  assumes wf: "wf_graph g" and ac: "acyclic (graph_rel g)"
  shows "trav_inv g st \<Longrightarrow> length (nodes g) - length (visited_nodes st) < fuel \<Longrightarrow>
         \<exists>r. planner_loop cfg g fuel st = Some r \<and>
              (\<forall>st'. r = Inr st' \<longrightarrow>
                 trav_inv g st' \<and> worklist st' = [] \<and>
                 length (visited_nodes st') = length (nodes g))"
proof (induction fuel arbitrary: st)
  case 0
  then show ?case by simp
next
  case (Suc fuel)
  show ?case
  proof (cases "worklist st")
    case Nil
    then have len: "length (visited_nodes st) = length (nodes g)"
      using trav_inv_empty_worklist[OF wf ac Suc.prems(1)] by simp
    then have "planner_loop cfg g (Suc fuel) st = Some (Inr st)"
      using Nil by (simp add: get_nodes_def)
    then show ?thesis using Suc.prems(1) Nil len by simp
  next
    case (Cons opn rest)
    have WV: "set (worklist st) \<inter> set (visited_nodes st) = {}"
      using trav_invD(5)[OF Suc.prems(1)] .
    then have nv: "opn \<notin> set (visited_nodes st)" using Cons by auto
    let ?sti = "st\<lparr>worklist := rest, visited_nodes := visited_nodes st @ [opn]\<rparr>"
    have loop: "planner_loop cfg g (Suc fuel) st =
                  (case visit_operator cfg g opn ?sti of
                     Inl e \<Rightarrow> Some (Inl e)
                   | Inr st2 \<Rightarrow> planner_loop cfg g fuel st2)"
      using Cons nv by simp
    show ?thesis
    proof (cases "visit_operator cfg g opn ?sti")
      case (Inl e)
      then show ?thesis using loop by simp
    next
      case (Inr st2)
      from trav_inv_step[OF wf Suc.prems(1) Cons Inr] have
        inv2: "trav_inv g st2" and v2: "visited_nodes st2 = visited_nodes st @ [opn]"
        by simp_all
      have "distinct (visited_nodes st2)" "set (visited_nodes st2) \<subseteq> set (nodes g)"
        using trav_invD(1,2)[OF inv2] by blast+
      then have "card (set (visited_nodes st2)) \<le> card (set (nodes g))"
        by (simp add: card_mono)
      moreover have "card (set (visited_nodes st2)) = length (visited_nodes st2)"
        using \<open>distinct (visited_nodes st2)\<close> by (rule distinct_card)
      moreover have "card (set (nodes g)) \<le> length (nodes g)" by (rule card_length)
      ultimately have "length (visited_nodes st2) \<le> length (nodes g)" by linarith
      then have "length (nodes g) - length (visited_nodes st2) < fuel"
        using Suc.prems(2) v2 by simp
      from Suc.IH[OF inv2 this] show ?thesis using loop Inr by simp
    qed
  qed
qed


text \<open>
  C3: on a graph without a cycle the worklist loop ends, and unless the
  initialization or the wiring of an operator ends the composition with an
  error, every node of the (lowered) graph is visited exactly once, every
  operator that is not virtual is initialized, and for every edge the source
  node is visited before the destination node.
\<close>

theorem acyclic_materialization:
  assumes "lower_fragment (default_queue_policy cfg) source_address connection_items frag
             = Inr frag1"
    and "wf_graph (graph frag1)" and "names_ok (operators frag1)"
    and "acyclic (graph_rel (graph frag1))"
    and "length (nodes (graph frag1)) < fuel"
  shows "\<exists>r. initialize_fragment cfg source_address connection_items fuel frag = Some r \<and>
           (\<forall>st. r = Inr st \<longrightarrow>
              distinct (visited_nodes st) \<and>
              set (visited_nodes st) = set (nodes (graph frag1)) \<and>
              (\<forall>v \<in> set (nodes (graph frag1)).
                 \<exists>op. map_of (ops st) v = Some op \<and>
                      (operator_type op \<noteq> kVirtual \<longrightarrow> is_initialized op)) \<and>
              (\<forall>e \<in> graph_rel (graph frag1).
                 visited_before (visited_nodes st) (fst e) (snd e)))"
proof -
  let ?g = "graph frag1"
  have inv0: "trav_inv ?g (initial_planner frag1)"
    using assms(2,3) by (rule trav_inv_initial)
  have "length (nodes ?g) - length (visited_nodes (initial_planner frag1)) < fuel"
    using assms(5) by simp
  from planner_loop_acyclic[OF assms(2) assms(4) inv0 this, of cfg]
  obtain r where r: "planner_loop cfg ?g fuel (initial_planner frag1) = Some r"
    and fin: "\<And>st'. r = Inr st' \<Longrightarrow> trav_inv ?g st' \<and> worklist st' = [] \<and>
                 length (visited_nodes st') = length (nodes ?g)"
    by blast
  have good: "distinct (visited_nodes st) \<and>
              set (visited_nodes st) = set (nodes ?g) \<and>
              (\<forall>v \<in> set (nodes ?g).
                 \<exists>op. map_of (ops st) v = Some op \<and>
                      (operator_type op \<noteq> kVirtual \<longrightarrow> is_initialized op)) \<and>
              (\<forall>e \<in> graph_rel ?g. visited_before (visited_nodes st) (fst e) (snd e))"
    if st: "r = Inr st" for st
  proof -
    from fin[OF st] have inv: "trav_inv ?g st"
      and len: "length (visited_nodes st) = length (nodes ?g)" by simp_all
    have dn: "distinct (nodes ?g)" using assms(2) by (simp add: wf_graph_def)
    have dV: "distinct (visited_nodes st)" using trav_invD(1)[OF inv] .
    have sub: "set (visited_nodes st) \<subseteq> set (nodes ?g)" using trav_invD(2)[OF inv] .
    have "card (set (visited_nodes st)) = card (set (nodes ?g))"
      using dV dn len by (simp add: distinct_card)
    then have eq: "set (visited_nodes st) = set (nodes ?g)"
      using sub by (simp add: card_subset_eq)
    have init: "\<forall>v \<in> set (nodes ?g).
                 \<exists>op. map_of (ops st) v = Some op \<and>
                      (operator_type op \<noteq> kVirtual \<longrightarrow> is_initialized op)"
      using trav_invD(11)[OF inv] eq by simp
    have ord: "\<forall>e \<in> graph_rel ?g. visited_before (visited_nodes st) (fst e) (snd e)"
    proof
      fix e assume e: "e \<in> graph_rel ?g"
      then have e': "(fst e, snd e) \<in> graph_rel ?g" by simp
      then have "snd e \<in> set (visited_nodes st)"
        using wf_graph_endpoints(2)[OF assms(2)] eq by blast
      moreover have "fst e \<in> set (get_previous_nodes ?g (snd e))"
        using e' by (simp add: previous_nodes_iff)
      ultimately show "visited_before (visited_nodes st) (fst e) (snd e)"
        using trav_invD(8)[OF inv] by blast
    qed
    show ?thesis using dV eq init ord by blast
  qed
  show ?thesis
  proof (cases r)
    case (Inl e)
    then have "initialize_fragment cfg source_address connection_items fuel frag = Some (Inl e)"
      using r assms(1) by (simp add: initialize_fragment_def)
    then show ?thesis by simp
  next
    case (Inr st)
    show ?thesis
    proof (cases "finish_thread_pools (ops st) (thread_pools frag1)")
      case (Inl e)
      then have "initialize_fragment cfg source_address connection_items fuel frag = Some (Inl e)"
        using r assms(1) Inr by (simp add: initialize_fragment_def)
      then show ?thesis by simp
    next
      case ok: (Inr u)
      then have "initialize_fragment cfg source_address connection_items fuel frag = Some (Inr st)"
        using r assms(1) Inr by (simp add: initialize_fragment_def)
      then show ?thesis using good[OF Inr] by simp
    qed
  qed
qed

lemma acyclic_fan_out: "acyclic (graph_rel (graph frag_fan_out))"
proof -
  have "graph_rel (graph frag_fan_out) = {(''A'', ''B''), (''A'', ''C'')}"
    by code_simp
  moreover have "acyclic ({} :: (string \<times> string) set)"
    by (simp add: acyclic_def)
  ultimately show ?thesis by (simp add: rtrancl_insert)
qed

theorem acyclic_materialization_witness:
  "wf_graph (graph frag_fan_out) \<and> acyclic (graph_rel (graph frag_fan_out)) \<and>
   (\<exists>st. initialize_fragment cfg0 None [] 4 frag_fan_out = Some (Inr st) \<and>
         visited_nodes st = [''A'', ''B'', ''C''] \<and>
         visited_before (visited_nodes st) ''A'' ''B'' \<and>
         visited_before (visited_nodes st) ''A'' ''C'')"
proof -
  have l: "lower_fragment (default_queue_policy cfg0) None [] frag_fan_out = Inr frag_fan_out"
    by (simp add: lower_fragment_def generate_connection_map_def
        create_virtual_operators_and_connections_def)
  have wf: "wf_graph (graph frag_fan_out)" by code_simp
  have nm: "names_ok (operators frag_fan_out)"
  proof -
    have "operators frag_fan_out =
        [(''A'', (mk_op ''A'')\<lparr>outputs := [(''out'', mk_output ''out'')]\<rparr>),
         (''B'', (mk_op ''B'')\<lparr>inputs := [(''in'', mk_input ''in'' 1)]\<rparr>),
         (''C'', (mk_op ''C'')\<lparr>inputs := [(''in'', mk_input ''in'' 1)]\<rparr>)]"
      by code_simp
    then show ?thesis by (simp add: names_ok_def mk_op_def)
  qed
  have len: "length (nodes (graph frag_fan_out)) < 4" by code_simp
  have ev: "map_option (map_sum id visited_nodes)
              (initialize_fragment cfg0 None [] 4 frag_fan_out) = Some (Inr [''A'', ''B'', ''C''])"
    by code_simp
  then obtain st where st: "initialize_fragment cfg0 None [] 4 frag_fan_out = Some (Inr st)"
    "visited_nodes st = [''A'', ''B'', ''C'']"
    by (cases "initialize_fragment cfg0 None [] 4 frag_fan_out")
       (auto simp: map_sum_def split: sum.splits)
  from acyclic_materialization[OF l wf nm acyclic_fan_out len] st(1)
  have ord: "\<forall>e \<in> graph_rel (graph frag_fan_out).
               visited_before (visited_nodes st) (fst e) (snd e)"
    by simp
  have "(''A'', ''B'') \<in> graph_rel (graph frag_fan_out)"
    "(''A'', ''C'') \<in> graph_rel (graph frag_fan_out)" by code_simp+
  with ord have "visited_before (visited_nodes st) ''A'' ''B''"
    "visited_before (visited_nodes st) ''A'' ''C''" by force+
  then show ?thesis using wf acyclic_fan_out st by blast
qed

section \<open>Broadcast components\<close>

lemma create_broadcast_component_entities:
  assumes "create_broadcast_component cfg op c st = Inr st'"
  shows "implicit_broadcast_entities st' = implicit_broadcast_entities st @
           map (\<lambda>c. \<lparr>be_name = entity_prefix cfg @ ''_broadcast_'' @ op_name op @ ''_'' @ fst (snd c),
                     be_codelet = entity_prefix cfg @ ''_broadcast_component_'' @ op_name op @ ''_'' @
                                  fst (snd c),
                     be_capacity =
                       (case connector (the (map_of (outputs op) (fst (snd c)))) of
                          Some k \<Rightarrow> if conn_kind k = kDoubleBuffer then capacity k else 1
                        | None \<Rightarrow> 1),
                     be_policy =
                       (case connector (the (map_of (outputs op) (fst (snd c)))) of
                          Some k \<Rightarrow> if conn_kind k = kDoubleBuffer then policy k
                                    else default_queue_policy cfg
                        | None \<Rightarrow> default_queue_policy cfg),
                     be_min_size =
                       (case downstream_min_size (the (map_of (outputs op) (fst (snd c)))) of
                          Some m \<Rightarrow> m | None \<Rightarrow> 1),
                     be_transmitters = []\<rparr>)
             (filter (\<lambda>c. 2 \<le> length (snd (snd (snd c)))) [c])"
    and "connections st' = connections st @
           map (\<lambda>c. (fst c, BroadcastPort
                               (entity_prefix cfg @ ''_broadcast_'' @ op_name op @ ''_'' @ fst (snd c))
                               ''source''))
             (filter (\<lambda>c. 2 \<le> length (snd (snd (snd c)))) [c])"
proof -
  let ?n = "length (snd (snd (snd c)))"
  have both: "implicit_broadcast_entities st' = implicit_broadcast_entities st @
           map (\<lambda>c. \<lparr>be_name = entity_prefix cfg @ ''_broadcast_'' @ op_name op @ ''_'' @ fst (snd c),
                     be_codelet = entity_prefix cfg @ ''_broadcast_component_'' @ op_name op @ ''_'' @
                                  fst (snd c),
                     be_capacity =
                       (case connector (the (map_of (outputs op) (fst (snd c)))) of
                          Some k \<Rightarrow> if conn_kind k = kDoubleBuffer then capacity k else 1
                        | None \<Rightarrow> 1),
                     be_policy =
                       (case connector (the (map_of (outputs op) (fst (snd c)))) of
                          Some k \<Rightarrow> if conn_kind k = kDoubleBuffer then policy k
                                    else default_queue_policy cfg
                        | None \<Rightarrow> default_queue_policy cfg),
                     be_min_size =
                       (case downstream_min_size (the (map_of (outputs op) (fst (snd c)))) of
                          Some m \<Rightarrow> m | None \<Rightarrow> 1),
                     be_transmitters = []\<rparr>)
             (filter (\<lambda>c. 2 \<le> length (snd (snd (snd c)))) [c]) \<and>
         connections st' = connections st @
           map (\<lambda>c. (fst c, BroadcastPort
                               (entity_prefix cfg @ ''_broadcast_'' @ op_name op @ ''_'' @ fst (snd c))
                               ''source''))
             (filter (\<lambda>c. 2 \<le> length (snd (snd (snd c)))) [c])"
  proof (cases "2 \<le> ?n")
    case False
    then have "?n = 0 \<or> ?n = 1" by arith
    with assms have "st' = st" by (simp add: create_broadcast_component_def Let_def)
    with False show ?thesis by simp
  next
    case True
    then have n: "\<not> (?n = 0 \<or> ?n = 1)" by arith
    with assms obtain io where io: "map_of (outputs op) (fst (snd c)) = Some io"
      by (auto simp add: create_broadcast_component_def Let_def split: option.splits)
    from assms n io True show ?thesis
      by (auto simp add: create_broadcast_component_def Let_def add_connection_def
            split: option.splits)
  qed
  from both show "implicit_broadcast_entities st' = implicit_broadcast_entities st @
           map (\<lambda>c. \<lparr>be_name = entity_prefix cfg @ ''_broadcast_'' @ op_name op @ ''_'' @ fst (snd c),
                     be_codelet = entity_prefix cfg @ ''_broadcast_component_'' @ op_name op @ ''_'' @
                                  fst (snd c),
                     be_capacity =
                       (case connector (the (map_of (outputs op) (fst (snd c)))) of
                          Some k \<Rightarrow> if conn_kind k = kDoubleBuffer then capacity k else 1
                        | None \<Rightarrow> 1),
                     be_policy =
                       (case connector (the (map_of (outputs op) (fst (snd c)))) of
                          Some k \<Rightarrow> if conn_kind k = kDoubleBuffer then policy k
                                    else default_queue_policy cfg
                        | None \<Rightarrow> default_queue_policy cfg),
                     be_min_size =
                       (case downstream_min_size (the (map_of (outputs op) (fst (snd c)))) of
                          Some m \<Rightarrow> m | None \<Rightarrow> 1),
                     be_transmitters = []\<rparr>)
             (filter (\<lambda>c. 2 \<le> length (snd (snd (snd c)))) [c])"
    by blast
  from both show "connections st' = connections st @
           map (\<lambda>c. (fst c, BroadcastPort
                               (entity_prefix cfg @ ''_broadcast_'' @ op_name op @ ''_'' @ fst (snd c))
                               ''source''))
             (filter (\<lambda>c. 2 \<le> length (snd (snd (snd c)))) [c])"
    by blast
qed

lemma create_broadcast_components_entities:
  "create_broadcast_components cfg op conns st = Inr st' \<Longrightarrow>
     implicit_broadcast_entities st' = implicit_broadcast_entities st @
       map (\<lambda>c. \<lparr>be_name = entity_prefix cfg @ ''_broadcast_'' @ op_name op @ ''_'' @ fst (snd c),
                 be_codelet = entity_prefix cfg @ ''_broadcast_component_'' @ op_name op @ ''_'' @
                              fst (snd c),
                 be_capacity =
                   (case connector (the (map_of (outputs op) (fst (snd c)))) of
                      Some k \<Rightarrow> if conn_kind k = kDoubleBuffer then capacity k else 1
                    | None \<Rightarrow> 1),
                 be_policy =
                   (case connector (the (map_of (outputs op) (fst (snd c)))) of
                      Some k \<Rightarrow> if conn_kind k = kDoubleBuffer then policy k
                                else default_queue_policy cfg
                    | None \<Rightarrow> default_queue_policy cfg),
                 be_min_size =
                   (case downstream_min_size (the (map_of (outputs op) (fst (snd c)))) of
                      Some m \<Rightarrow> m | None \<Rightarrow> 1),
                 be_transmitters = []\<rparr>)
         (filter (\<lambda>c. 2 \<le> length (snd (snd (snd c)))) conns) \<and>
     connections st' = connections st @
       map (\<lambda>c. (fst c, BroadcastPort
                           (entity_prefix cfg @ ''_broadcast_'' @ op_name op @ ''_'' @ fst (snd c))
                           ''source''))
         (filter (\<lambda>c. 2 \<le> length (snd (snd (snd c)))) conns)"
proof (induction conns arbitrary: st)
  case Nil
  then show ?case by simp
next
  case (Cons c cs)
  from Cons.prems obtain st1 where
    c: "create_broadcast_component cfg op c st = Inr st1" and
    cs: "create_broadcast_components cfg op cs st1 = Inr st'"
    by (auto split: sum.splits)
  note h = create_broadcast_component_entities[OF c]
  note ih = Cons.IH[OF cs]
  show ?case
  proof (cases "2 \<le> length (snd (snd (snd c)))")
    case True
    with h ih show ?thesis by simp
  next
    case False
    with h ih show ?thesis by simp
  qed
qed

lemma add_broadcast_transmitter_min_size:
  assumes "add_broadcast_transmitter dp op prev_op port_name entity target_port st = Inr st'"
  shows "\<exists>io tx. map_of (outputs prev_op) port_name = Some io \<and>
           implicit_broadcast_entities st' =
             map (\<lambda>e. if be_name e = entity
                       then e\<lparr>be_transmitters := be_transmitters e @ [tx]\<rparr> else e)
               (implicit_broadcast_entities st) \<and>
           (btx_kind tx = kDoubleBuffer \<and> btx_min_size tx = downstream_min_size io \<and>
            connections st' = connections st @
              [(BroadcastPort entity (btx_name tx), OperatorPort (op_name op) target_port)]
            \<or> btx_kind tx = kUCX \<and> btx_min_size tx = None \<and> connections st' = connections st)"
proof -
  from assms obtain io where io: "map_of (outputs prev_op) port_name = Some io"
    by (auto simp add: add_broadcast_transmitter_def split: option.splits)
  define pct where "pct = (if connector_type io = kDefault
                           then (if operator_type op = kVirtual then kUCX else kDoubleBuffer)
                           else connector_type io)"
  show ?thesis
  proof (cases "pct = kDoubleBuffer")
    case True
    define cp where "cp = (case connector io of
                             Some c \<Rightarrow> if conn_kind c = kDoubleBuffer
                                       then (capacity c, policy c) else (1, dp)
                           | None \<Rightarrow> (1, dp))"
    define tx where "tx = \<lparr>btx_name = ''btx_'' @ fmt_nat (btx_count st),
                           btx_kind = kDoubleBuffer, btx_capacity = fst cp, btx_policy = snd cp,
                           btx_min_size = downstream_min_size io, btx_args = []\<rparr>"
    from True have "connector_type io = kDefault \<and> operator_type op \<noteq> kVirtual \<or>
                    connector_type io = kDoubleBuffer"
      by (auto simp add: pct_def split: if_splits)
    with assms io
    have "st' = add_connection (BroadcastPort entity (btx_name tx))
                  (OperatorPort (op_name op) target_port)
                  ((add_transmitter_to_entity entity tx st)
                     \<lparr>btx_count := (btx_count st + 1) mod 2 ^ 32\<rparr>)"
      by (auto simp add: add_broadcast_transmitter_def Let_def cp_def tx_def
            split: option.splits if_splits)
    then have "implicit_broadcast_entities st' =
                 map (\<lambda>e. if be_name e = entity
                           then e\<lparr>be_transmitters := be_transmitters e @ [tx]\<rparr> else e)
                   (implicit_broadcast_entities st) \<and>
               btx_kind tx = kDoubleBuffer \<and> btx_min_size tx = downstream_min_size io \<and>
               connections st' = connections st @
                 [(BroadcastPort entity (btx_name tx), OperatorPort (op_name op) target_port)]"
      by (simp add: tx_def add_connection_def add_transmitter_to_entity_def)
    with io show ?thesis by blast
  next
    case False
    from False have "connector_type io = kDefault \<and> operator_type op = kVirtual \<or>
                     connector_type io = kUCX"
      by (cases "connector_type io") (auto simp add: pct_def split: if_splits)
    with assms io
    have "\<exists>tx. st' = add_transmitter_to_entity entity tx st \<and> btx_kind tx = kUCX \<and>
               btx_min_size tx = None"
      by (auto simp add: add_broadcast_transmitter_def Let_def split: option.splits if_splits)
    then obtain tx where "st' = add_transmitter_to_entity entity tx st"
      and "btx_kind tx = kUCX" and "btx_min_size tx = None"
      by blast
    then have "implicit_broadcast_entities st' =
                 map (\<lambda>e. if be_name e = entity
                           then e\<lparr>be_transmitters := be_transmitters e @ [tx]\<rparr> else e)
                   (implicit_broadcast_entities st) \<and>
               btx_kind tx = kUCX \<and> btx_min_size tx = None \<and> connections st' = connections st"
      by (simp add: add_transmitter_to_entity_def)
    with io show ?thesis by blast
  qed
qed

text \<open>
  The transmitters that are added to the broadcast entities later change
  nothing else of them.
\<close>

lemma entities_add_transmitter_to_entity:
  "map (\<lambda>e. e\<lparr>be_transmitters := []\<rparr>)
     (implicit_broadcast_entities (add_transmitter_to_entity entity tx st)) =
   map (\<lambda>e. e\<lparr>be_transmitters := []\<rparr>) (implicit_broadcast_entities st)"
  by (simp add: add_transmitter_to_entity_def comp_def if_distrib cong: if_cong)

lemma entities_add_broadcast_transmitter:
  assumes "add_broadcast_transmitter dp op prev_op port_name entity target_port st = Inr st'"
  shows "map (\<lambda>e. e\<lparr>be_transmitters := []\<rparr>) (implicit_broadcast_entities st') =
         map (\<lambda>e. e\<lparr>be_transmitters := []\<rparr>) (implicit_broadcast_entities st)"
proof -
  from add_broadcast_transmitter_min_size[OF assms] obtain tx where
    "implicit_broadcast_entities st' =
       implicit_broadcast_entities (add_transmitter_to_entity entity tx st)"
    by (auto simp add: add_transmitter_to_entity_def)
  then show ?thesis by (simp only: entities_add_transmitter_to_entity)
qed

lemma entities_add_broadcast_transmitters:
  "add_broadcast_transmitters dp op prev_op port_name entity tps st = Inr st' \<Longrightarrow>
     map (\<lambda>e. e\<lparr>be_transmitters := []\<rparr>) (implicit_broadcast_entities st') =
     map (\<lambda>e. e\<lparr>be_transmitters := []\<rparr>) (implicit_broadcast_entities st)"
proof (induction tps arbitrary: st)
  case Nil
  then show ?case by simp
next
  case (Cons t tps)
  from Cons.prems obtain st1 where
    a: "add_broadcast_transmitter dp op prev_op port_name entity t st = Inr st1" and
    b: "add_broadcast_transmitters dp op prev_op port_name entity tps st1 = Inr st'"
    by (auto split: sum.splits)
  from Cons.IH[OF b] entities_add_broadcast_transmitter[OF a] show ?case by simp
qed

lemma entities_connect_broadcast_ports:
  "connect_broadcast_ports dp op prev_op bs st = Inr st' \<Longrightarrow>
     map (\<lambda>e. e\<lparr>be_transmitters := []\<rparr>) (implicit_broadcast_entities st') =
     map (\<lambda>e. e\<lparr>be_transmitters := []\<rparr>) (implicit_broadcast_entities st)"
proof (induction bs arbitrary: st)
  case Nil
  then show ?case by simp
next
  case (Cons b bs)
  let ?pm = "case map_of (port_maps st) (op_name prev_op, op_name op) of
               Some pm \<Rightarrow> pm | None \<Rightarrow> []"
  show ?case
  proof (cases "map_of ?pm (fst b)")
    case None
    with Cons.prems have "connect_broadcast_ports dp op prev_op bs st = Inr st'"
      by (simp add: Let_def)
    then show ?thesis by (rule Cons.IH)
  next
    case (Some tps)
    with Cons.prems obtain st1 where
      a: "add_broadcast_transmitters dp op prev_op (fst b) (snd b) tps st = Inr st1" and
      b: "connect_broadcast_ports dp op prev_op bs
            (st1\<lparr>port_maps := AList.map_entry (op_name prev_op, op_name op)
                                 (AList.delete (fst b)) (port_maps st1)\<rparr>) = Inr st'"
      by (auto simp add: Let_def split: sum.splits)
    from Cons.IH[OF b] entities_add_broadcast_transmitters[OF a] show ?thesis by simp
  qed
qed

lemma entities_connect_broadcast_to_previous_op:
  "connect_broadcast_to_previous_op dp opn prev_opn st = Inr st' \<Longrightarrow>
     map (\<lambda>e. e\<lparr>be_transmitters := []\<rparr>) (implicit_broadcast_entities st') =
     map (\<lambda>e. e\<lparr>be_transmitters := []\<rparr>) (implicit_broadcast_entities st)"
  by (auto simp add: connect_broadcast_to_previous_op_def
        split: option.splits dest: entities_connect_broadcast_ports)

lemma entities_connect_broadcast_to_next_operators:
  "connect_broadcast_to_next_operators cfg opn nexts st = Inr st' \<Longrightarrow>
     map (\<lambda>e. e\<lparr>be_transmitters := []\<rparr>) (implicit_broadcast_entities st') =
     map (\<lambda>e. e\<lparr>be_transmitters := []\<rparr>) (implicit_broadcast_entities st)"
proof (induction nexts arbitrary: st)
  case Nil
  then show ?case by simp
next
  case (Cons n nexts)
  from Cons.prems obtain next_op where n: "map_of (ops st) n = Some next_op"
    by (auto split: option.splits)
  show ?case
  proof (cases "op_id next_op \<noteq> -1 \<and> operator_type next_op \<noteq> kVirtual")
    case False
    with Cons.prems n have "connect_broadcast_to_next_operators cfg opn nexts st = Inr st'"
      by auto
    then show ?thesis by (rule Cons.IH)
  next
    case True
    with Cons.prems n obtain st1 where
      a: "(if map_of (broadcast_entities st) opn \<noteq> None
           then connect_broadcast_to_previous_op (default_queue_policy cfg) n opn st
           else Inr st) = Inr st1" and
      b: "connect_broadcast_to_next_operators cfg opn nexts st1 = Inr st'"
      by (auto split: option.splits sum.splits if_splits)
    from a have "map (\<lambda>e. e\<lparr>be_transmitters := []\<rparr>) (implicit_broadcast_entities st1) =
                 map (\<lambda>e. e\<lparr>be_transmitters := []\<rparr>) (implicit_broadcast_entities st)"
      by (auto split: if_splits dest: entities_connect_broadcast_to_previous_op)
    with Cons.IH[OF b] show ?thesis by simp
  qed
qed

lemma broadcast_stage_entities:
  assumes r: "broadcast_stage cfg g op conns has_ucx st = Inr st'"
  shows "if has_ucx \<or> (\<exists>n \<in> set (get_next_nodes g (op_name op)).
             \<exists>next_op. map_of (ops st) n = Some next_op \<and> operator_type next_op = kVirtual)
        then map (\<lambda>e. e\<lparr>be_transmitters := []\<rparr>) (implicit_broadcast_entities st') =
              map (\<lambda>e. e\<lparr>be_transmitters := []\<rparr>) (implicit_broadcast_entities st) @
              map (\<lambda>c. \<lparr>be_name = entity_prefix cfg @ ''_broadcast_'' @ op_name op @ ''_'' @
                                  fst (snd c),
                        be_codelet = entity_prefix cfg @ ''_broadcast_component_'' @ op_name op @
                                     ''_'' @ fst (snd c),
                        be_capacity =
                          (case connector (the (map_of (outputs op) (fst (snd c)))) of
                             Some k \<Rightarrow> if conn_kind k = kDoubleBuffer then capacity k else 1
                           | None \<Rightarrow> 1),
                        be_policy =
                          (case connector (the (map_of (outputs op) (fst (snd c)))) of
                             Some k \<Rightarrow> if conn_kind k = kDoubleBuffer then policy k
                                       else default_queue_policy cfg
                           | None \<Rightarrow> default_queue_policy cfg),
                        be_min_size =
                          (case downstream_min_size (the (map_of (outputs op) (fst (snd c)))) of
                             Some m \<Rightarrow> m | None \<Rightarrow> 1),
                        be_transmitters = []\<rparr>)
                (filter (\<lambda>c. 2 \<le> length (snd (snd (snd c)))) conns) \<and>
            (\<forall>c \<in> set conns. 2 \<le> length (snd (snd (snd c))) \<longrightarrow>
               (fst c, BroadcastPort
                         (entity_prefix cfg @ ''_broadcast_'' @ op_name op @ ''_'' @ fst (snd c))
                         ''source'') \<in> set (connections st'))
        else st' = st"
proof -
  let ?virt = "\<exists>n \<in> set (get_next_nodes g (op_name op)).
                 \<exists>next_op. map_of (ops st) n = Some next_op \<and> operator_type next_op = kVirtual"
  have ex: "list_ex (\<lambda>n. case map_of (ops st) n of
                            Some next_op \<Rightarrow> operator_type next_op = kVirtual
                          | None \<Rightarrow> False) (get_next_nodes g (op_name op)) \<longleftrightarrow> ?virt"
    by (auto simp add: list_ex_iff split: option.splits)
  show ?thesis
  proof (cases "has_ucx \<or> ?virt")
    case False
    with r ex have "st' = st" by (simp add: broadcast_stage_def Let_def)
    then show ?thesis unfolding if_not_P[OF False] .
  next
    case True
    with r ex obtain st1 where
      c: "create_broadcast_components cfg op conns st = Inr st1" and
      n: "(if operator_type op \<noteq> kVirtual
           then connect_broadcast_to_next_operators cfg (op_name op)
                  (get_next_nodes g (op_name op)) st1
           else Inr st1) = Inr st'"
      by (auto simp add: broadcast_stage_def Let_def split: sum.splits)
    from n have e: "map (\<lambda>e. e\<lparr>be_transmitters := []\<rparr>) (implicit_broadcast_entities st') =
                    map (\<lambda>e. e\<lparr>be_transmitters := []\<rparr>) (implicit_broadcast_entities st1)"
      by (auto split: if_splits dest: entities_connect_broadcast_to_next_operators)
    from n have "trav_eq st' st1"
      by (auto split: if_splits intro: trav_connect_broadcast_to_next_operators trav_eq_refl)
    then have p: "set (connections st1) \<subseteq> set (connections st')"
      by (auto simp add: trav_eq_def dest: set_mono_prefix)
    note h = create_broadcast_components_entities[OF c]
    from h e p show ?thesis unfolding if_P[OF True] by auto
  qed
qed

section \<open>The steps of a visit\<close>

lemma visit_operator_steps:
  assumes "visit_operator cfg g opn st = Inr st'"
  obtains op0 op1 op st1 sc r where
    "map_of (ops st) opn = Some op0"
    "mitigate_cycle (get_previous_nodes g opn) (visited_nodes st) op0 = Inr op1"
    "op_initialize cfg \<lparr>nodes = nodes g, edges = port_maps st\<rparr> op1 = Inr op"
    "connect_previous_operators cfg opn (get_previous_nodes g opn)
       (st\<lparr>ops := AList.update opn op (ops st)\<rparr>) = Inr st1"
    "process_next_operators op (get_next_nodes g opn) (st1, []) = Inr sc"
    "connect_downstream (snd sc) (False, fst sc) = Inr r"
    "broadcast_stage cfg g op (snd sc) (fst r) (snd r) = Inr st'"
proof -
  note v = assms
  from v obtain op0 where op0: "map_of (ops st) opn = Some op0"
    by (auto simp: visit_operator_def split: option.splits)
  from v op0 obtain op1 where
    op1: "mitigate_cycle (get_previous_nodes g opn) (visited_nodes st) op0 = Inr op1"
    by (auto simp: visit_operator_def Let_def split: sum.splits)
  from v op0 op1 obtain op where
    op: "op_initialize cfg \<lparr>nodes = nodes g, edges = port_maps st\<rparr> op1 = Inr op"
    by (auto simp: visit_operator_def Let_def split: sum.splits)
  from v op0 op1 op obtain st1 where
    st1: "connect_previous_operators cfg opn (get_previous_nodes g opn)
            (st\<lparr>ops := AList.update opn op (ops st)\<rparr>) = Inr st1"
    by (auto simp: visit_operator_def Let_def split: sum.splits)
  from v op0 op1 op st1 obtain sc where
    sc: "process_next_operators op (get_next_nodes g opn) (st1, []) = Inr sc"
    by (auto simp: visit_operator_def Let_def split: sum.splits)
  from v op0 op1 op st1 sc obtain r where
    r: "connect_downstream (snd sc) (False, fst sc) = Inr r"
    by (auto simp: visit_operator_def Let_def split: sum.splits)
  from v op0 op1 op st1 sc r have
    bs: "broadcast_stage cfg g op (snd sc) (fst r) (snd r) = Inr st'"
    by (auto simp: visit_operator_def Let_def split: sum.splits)
  from op0 op1 op st1 sc r bs show ?thesis by (rule that)
qed

lemma process_next_operators_frame:
  "process_next_operators op xs sc = Inr sc' \<Longrightarrow>
     ops (fst sc') = ops (fst sc) \<and> port_maps (fst sc') = port_maps (fst sc) \<and>
     visited_nodes (fst sc') = visited_nodes (fst sc) \<and>
     connections (fst sc') = connections (fst sc) \<and>
     implicit_broadcast_entities (fst sc') = implicit_broadcast_entities (fst sc)"
proof (induction xs arbitrary: sc)
  case Nil
  then show ?case by simp
next
  case (Cons x xs)
  show ?case
  proof (cases "map_of (port_maps (fst sc)) (op_name op, x)")
    case None
    with Cons.prems have "process_next_operators op xs sc = Inr sc'" by simp
    then show ?thesis by (rule Cons.IH)
  next
    case (Some pm)
    let ?st = "fst sc"
    let ?d = "indegree ?st x - 1"
    let ?st1 = "?st\<lparr>indegrees := AList.update x ?d (indegrees ?st)\<rparr>"
    let ?st2 = "if ?d = 0 then ?st1\<lparr>worklist := worklist ?st1 @ [x]\<rparr> else ?st1"
    from Cons.prems Some obtain conns where
      rec: "process_next_operators op xs (?st2, conns) = Inr sc'"
      by (auto simp: Let_def split: sum.splits)
    from Cons.IH[OF rec] show ?thesis by (simp split: if_splits)
  qed
qed

section \<open>The connection of an operator to itself\<close>

lemma sources_ok_refl: "sources_ok P st st"
  by (simp add: sources_ok_def)

lemma sources_ok_trans: "sources_ok P st2 st1 \<Longrightarrow> sources_ok P st1 st \<Longrightarrow> sources_ok P st2 st"
  unfolding sources_ok_def by blast

lemma sources_ok_add_connection: "P a \<Longrightarrow> sources_ok P (add_connection a b st) st"
  by (simp add: sources_ok_def add_connection_def)

lemma sources_ok_add_broadcast_transmitter:
  assumes "add_broadcast_transmitter dp op prev_op port_name entity target_port st = Inr st'"
  shows "sources_ok (\<lambda>c. \<forall>sp. c \<noteq> OperatorPort n sp) st' st"
  using add_broadcast_transmitter_min_size[OF assms]
  by (auto simp add: sources_ok_def)

lemma sources_ok_add_broadcast_transmitters:
  "add_broadcast_transmitters dp op prev_op port_name entity tps st = Inr st' \<Longrightarrow>
     sources_ok (\<lambda>c. \<forall>sp. c \<noteq> OperatorPort n sp) st' st"
proof (induction tps arbitrary: st)
  case Nil
  then show ?case by (simp add: sources_ok_refl)
next
  case (Cons t tps)
  from Cons.prems obtain st1 where
    1: "add_broadcast_transmitter dp op prev_op port_name entity t st = Inr st1"
    and 2: "add_broadcast_transmitters dp op prev_op port_name entity tps st1 = Inr st'"
    by (auto split: sum.splits)
  show ?case
    using sources_ok_trans[OF Cons.IH[OF 2] sources_ok_add_broadcast_transmitter[OF 1]] .
qed

lemma sources_ok_connect_broadcast_ports:
  "connect_broadcast_ports dp op prev_op bs st = Inr st' \<Longrightarrow>
     sources_ok (\<lambda>c. \<forall>sp. c \<noteq> OperatorPort n sp) st' st"
proof (induction bs arbitrary: st)
  case Nil
  then show ?case by (simp add: sources_ok_refl)
next
  case (Cons b bs)
  let ?key = "(op_name prev_op, op_name op)"
  let ?pm = "(case map_of (port_maps st) ?key of Some pm \<Rightarrow> pm | None \<Rightarrow> [])"
  show ?case
  proof (cases "map_of ?pm (fst b)")
    case None
    then have "connect_broadcast_ports dp op prev_op bs st = Inr st'"
      using Cons.prems by (simp add: Let_def)
    then show ?thesis by (rule Cons.IH)
  next
    case (Some tps)
    then obtain st1 where
      1: "add_broadcast_transmitters dp op prev_op (fst b) (snd b) tps st = Inr st1"
      and 2: "connect_broadcast_ports dp op prev_op bs
                (st1\<lparr>port_maps := AList.map_entry ?key (AList.delete (fst b)) (port_maps st1)\<rparr>)
              = Inr st'"
      using Cons.prems by (auto simp: Let_def split: sum.splits)
    have "sources_ok (\<lambda>c. \<forall>sp. c \<noteq> OperatorPort n sp)
            (st1\<lparr>port_maps := AList.map_entry ?key (AList.delete (fst b)) (port_maps st1)\<rparr>) st1"
      by (simp add: sources_ok_def)
    then show ?thesis
      using Cons.IH[OF 2] sources_ok_add_broadcast_transmitters[OF 1] sources_ok_trans by blast
  qed
qed

lemma sources_ok_connect_broadcast_to_previous_op:
  "connect_broadcast_to_previous_op dp opn prev_opn st = Inr st' \<Longrightarrow>
     sources_ok (\<lambda>c. \<forall>sp. c \<noteq> OperatorPort n sp) st' st"
  by (auto simp: connect_broadcast_to_previous_op_def
      split: option.splits dest: sources_ok_connect_broadcast_ports)

lemma sources_ok_connect_targets:
  "connect_targets prev_op op sp tps st = Inr st' \<Longrightarrow> op_name prev_op \<noteq> n \<Longrightarrow>
     sources_ok (\<lambda>c. \<forall>sp. c \<noteq> OperatorPort n sp) st' st"
proof (induction tps arbitrary: st)
  case Nil
  then show ?case by (simp add: sources_ok_refl)
next
  case (Cons t tps)
  show ?case
  proof (cases "op_id prev_op \<noteq> -1")
    case True
    then have "connect_targets prev_op op sp tps
                 (add_connection (OperatorPort (op_name prev_op) sp)
                    (OperatorPort (op_name op) t) st) = Inr st'"
      using Cons.prems by (auto split: option.splits if_splits)
    from Cons.IH[OF this Cons.prems(2)] show ?thesis
      using sources_ok_add_connection[of "\<lambda>c. \<forall>sp. c \<noteq> OperatorPort n sp"
          "OperatorPort (op_name prev_op) sp" "OperatorPort (op_name op) t" st]
        Cons.prems(2) sources_ok_trans by blast
  next
    case False
    then have "connect_targets prev_op op sp tps st = Inr st'"
      using Cons.prems by (auto split: option.splits if_splits)
    then show ?thesis using Cons.prems(2) by (rule Cons.IH)
  qed
qed

lemma sources_ok_connect_port:
  "connect_port prev_op op entry st = Inr st' \<Longrightarrow> op_name prev_op \<noteq> n \<Longrightarrow>
     sources_ok (\<lambda>c. \<forall>sp. c \<noteq> OperatorPort n sp) st' st"
  by (auto simp: connect_port_def sources_ok_refl split: option.splits if_splits
      dest: sources_ok_connect_targets)

lemma sources_ok_connect_ports:
  "connect_ports prev_op op pm st = Inr st' \<Longrightarrow> op_name prev_op \<noteq> n \<Longrightarrow>
     sources_ok (\<lambda>c. \<forall>sp. c \<noteq> OperatorPort n sp) st' st"
proof (induction pm arbitrary: st)
  case Nil
  then show ?case by (simp add: sources_ok_refl)
next
  case (Cons e pm)
  from Cons.prems obtain st1 where
    1: "connect_port prev_op op e st = Inr st1"
    and 2: "connect_ports prev_op op pm st1 = Inr st'"
    by (auto split: sum.splits)
  show ?case
    using sources_ok_trans[OF Cons.IH[OF 2 Cons.prems(2)]
        sources_ok_connect_port[OF 1 Cons.prems(2)]] .
qed

lemma sources_ok_connect_previous_operator:
  assumes "connect_previous_operator cfg opn prev_opn st = Inr st'"
    and "names_ok (ops st)"
  shows "sources_ok (\<lambda>c. \<forall>sp. c \<noteq> OperatorPort opn sp) st' st"
proof (cases "prev_opn = opn")
  case True
  then show ?thesis using assms by (simp add: connect_previous_operator_def sources_ok_refl)
next
  case False
  from assms False obtain st1 where
    1: "(if map_of (broadcast_entities st) prev_opn \<noteq> None
         then connect_broadcast_to_previous_op (default_queue_policy cfg) opn prev_opn st
         else Inr st) = Inr st1"
    and 2: "(case (map_of (port_maps st1) (prev_opn, opn),
                   map_of (ops st1) prev_opn, map_of (ops st1) opn) of
               (Some port_map_val, Some prev_op, Some op) \<Rightarrow>
                 if port_map_val = [] then Inr st1
                 else if operator_type prev_op = kVirtual \<or> operator_type op = kVirtual
                 then Inr st1
                 else connect_ports prev_op op port_map_val st1
             | _ \<Rightarrow> Inl NullDereference) = Inr st'"
    by (auto simp: connect_previous_operator_def split: option.splits sum.splits)
  have a: "sources_ok (\<lambda>c. \<forall>sp. c \<noteq> OperatorPort opn sp) st1 st"
    using 1 by (auto simp: sources_ok_refl split: if_splits
        dest: sources_ok_connect_broadcast_to_previous_op)
  have "trav_eq st1 st"
    using 1 by (auto simp: trav_eq_refl split: if_splits dest: trav_connect_broadcast_to_previous_op)
  with assms(2) have n: "names_ok (ops st1)" by (simp add: trav_eq_def)
  have b: "sources_ok (\<lambda>c. \<forall>sp. c \<noteq> OperatorPort opn sp) st' st1"
  proof -
    from 2 obtain pmv prev_op op where
      p: "map_of (ops st1) prev_opn = Some prev_op" and
      c: "(if pmv = [] then Inr st1
           else if operator_type prev_op = kVirtual \<or> operator_type op = kVirtual
           then Inr st1
           else connect_ports prev_op op pmv st1) = Inr st'"
      by (auto split: option.splits)
    from n p have "op_name prev_op = prev_opn" by (simp add: names_ok_def)
    with False have "op_name prev_op \<noteq> opn" by simp
    with c show ?thesis
      by (auto simp: sources_ok_refl split: if_splits dest: sources_ok_connect_ports)
  qed
  show ?thesis using sources_ok_trans[OF b a] .
qed

lemma sources_ok_connect_previous_operators:
  "connect_previous_operators cfg opn prevs st = Inr st' \<Longrightarrow> names_ok (ops st) \<Longrightarrow>
     sources_ok (\<lambda>c. \<forall>sp. c \<noteq> OperatorPort opn sp) st' st"
proof (induction prevs arbitrary: st)
  case Nil
  then show ?case by (simp add: sources_ok_refl)
next
  case (Cons p prevs)
  from Cons.prems obtain st1 where
    1: "connect_previous_operator cfg opn p st = Inr st1"
    and 2: "connect_previous_operators cfg opn prevs st1 = Inr st'"
    by (auto split: sum.splits)
  from trav_connect_previous_operator[OF 1] Cons.prems(2) have "names_ok (ops st1)"
    by (simp add: trav_eq_def)
  from sources_ok_trans[OF Cons.IH[OF 2 this]
      sources_ok_connect_previous_operator[OF 1 Cons.prems(2)]]
  show ?case .
qed

text \<open>The port maps of the edges that leave the visited operator are not touched
  by the connections to its previous operators.\<close>

lemma pm_add_broadcast_transmitter:
  "add_broadcast_transmitter dp op prev_op port_name entity target_port st = Inr st'
     \<Longrightarrow> port_maps st' = port_maps st"
  by (auto simp: add_broadcast_transmitter_def Let_def add_connection_def
      add_transmitter_to_entity_def split: option.splits if_splits)

lemma pm_add_broadcast_transmitters:
  "add_broadcast_transmitters dp op prev_op port_name entity tps st = Inr st'
     \<Longrightarrow> port_maps st' = port_maps st"
proof (induction tps arbitrary: st)
  case Nil
  then show ?case by simp
next
  case (Cons t tps)
  from Cons.prems obtain st1 where
    1: "add_broadcast_transmitter dp op prev_op port_name entity t st = Inr st1"
    and 2: "add_broadcast_transmitters dp op prev_op port_name entity tps st1 = Inr st'"
    by (auto split: sum.splits)
  from Cons.IH[OF 2] pm_add_broadcast_transmitter[OF 1] show ?case by simp
qed

lemma pm_connect_broadcast_ports:
  "connect_broadcast_ports dp op prev_op bs st = Inr st' \<Longrightarrow>
   k \<noteq> (op_name prev_op, op_name op) \<Longrightarrow>
     map_of (port_maps st') k = map_of (port_maps st) k"
proof (induction bs arbitrary: st)
  case Nil
  then show ?case by simp
next
  case (Cons b bs)
  let ?key = "(op_name prev_op, op_name op)"
  let ?pm = "(case map_of (port_maps st) ?key of Some pm \<Rightarrow> pm | None \<Rightarrow> [])"
  show ?case
  proof (cases "map_of ?pm (fst b)")
    case None
    then have "connect_broadcast_ports dp op prev_op bs st = Inr st'"
      using Cons.prems by (simp add: Let_def)
    then show ?thesis using Cons.prems(2) by (rule Cons.IH)
  next
    case (Some tps)
    then obtain st1 where
      1: "add_broadcast_transmitters dp op prev_op (fst b) (snd b) tps st = Inr st1"
      and 2: "connect_broadcast_ports dp op prev_op bs
                (st1\<lparr>port_maps := AList.map_entry ?key (AList.delete (fst b)) (port_maps st1)\<rparr>)
              = Inr st'"
      using Cons.prems by (auto simp: Let_def split: sum.splits)
    from Cons.IH[OF 2 Cons.prems(2)] pm_add_broadcast_transmitters[OF 1] Cons.prems(2)
    show ?thesis by (simp add: map_of_map_entry)
  qed
qed

lemma pm_connect_broadcast_to_previous_op:
  assumes "connect_broadcast_to_previous_op dp opn prev_opn st = Inr st'"
    and "names_ok (ops st)" and "k \<noteq> (prev_opn, opn)"
  shows "map_of (port_maps st') k = map_of (port_maps st) k"
proof -
  from assms(1) obtain op prev_op bs where
    o: "map_of (ops st) opn = Some op" and p: "map_of (ops st) prev_opn = Some prev_op" and
    c: "connect_broadcast_ports dp op prev_op bs st = Inr st'"
    by (auto simp: connect_broadcast_to_previous_op_def split: option.splits)
  from assms(2) o p have "op_name op = opn" "op_name prev_op = prev_opn"
    by (simp_all add: names_ok_def)
  with assms(3) have "k \<noteq> (op_name prev_op, op_name op)" by simp
  with c show ?thesis by (rule pm_connect_broadcast_ports)
qed

lemma pm_connect_targets:
  "connect_targets prev_op op sp tps st = Inr st' \<Longrightarrow> port_maps st' = port_maps st"
proof (induction tps arbitrary: st)
  case Nil
  then show ?case by simp
next
  case (Cons t tps)
  show ?case
  proof (cases "op_id prev_op \<noteq> -1")
    case True
    then have "connect_targets prev_op op sp tps
                 (add_connection (OperatorPort (op_name prev_op) sp)
                    (OperatorPort (op_name op) t) st) = Inr st'"
      using Cons.prems by (auto split: option.splits if_splits)
    from Cons.IH[OF this] show ?thesis by (simp add: add_connection_def)
  next
    case False
    then have "connect_targets prev_op op sp tps st = Inr st'"
      using Cons.prems by (auto split: option.splits if_splits)
    then show ?thesis by (rule Cons.IH)
  qed
qed

lemma pm_connect_port:
  "connect_port prev_op op entry st = Inr st' \<Longrightarrow> port_maps st' = port_maps st"
  by (auto simp: connect_port_def split: option.splits if_splits dest: pm_connect_targets)

lemma pm_connect_ports:
  "connect_ports prev_op op pm st = Inr st' \<Longrightarrow> port_maps st' = port_maps st"
proof (induction pm arbitrary: st)
  case Nil
  then show ?case by simp
next
  case (Cons e pm)
  from Cons.prems obtain st1 where
    1: "connect_port prev_op op e st = Inr st1"
    and 2: "connect_ports prev_op op pm st1 = Inr st'"
    by (auto split: sum.splits)
  from Cons.IH[OF 2] pm_connect_port[OF 1] show ?case by simp
qed

lemma pm_connect_previous_operator:
  assumes "connect_previous_operator cfg opn prev_opn st = Inr st'"
    and "names_ok (ops st)" and "fst k = opn"
  shows "map_of (port_maps st') k = map_of (port_maps st) k"
proof (cases "prev_opn = opn")
  case True
  then show ?thesis using assms by (simp add: connect_previous_operator_def)
next
  case False
  from assms False obtain st1 where
    1: "(if map_of (broadcast_entities st) prev_opn \<noteq> None
         then connect_broadcast_to_previous_op (default_queue_policy cfg) opn prev_opn st
         else Inr st) = Inr st1"
    and 2: "(case (map_of (port_maps st1) (prev_opn, opn),
                   map_of (ops st1) prev_opn, map_of (ops st1) opn) of
               (Some port_map_val, Some prev_op, Some op) \<Rightarrow>
                 if port_map_val = [] then Inr st1
                 else if operator_type prev_op = kVirtual \<or> operator_type op = kVirtual
                 then Inr st1
                 else connect_ports prev_op op port_map_val st1
             | _ \<Rightarrow> Inl NullDereference) = Inr st'"
    by (auto simp: connect_previous_operator_def split: option.splits sum.splits)
  from False assms(3) have "k \<noteq> (prev_opn, opn)" by (cases k) auto
  with 1 assms(2) have a: "map_of (port_maps st1) k = map_of (port_maps st) k"
    by (auto split: if_splits dest: pm_connect_broadcast_to_previous_op)
  from 2 have "port_maps st' = port_maps st1"
    by (auto split: option.splits if_splits dest: pm_connect_ports)
  with a show ?thesis by simp
qed

lemma pm_connect_previous_operators:
  "connect_previous_operators cfg opn prevs st = Inr st' \<Longrightarrow> names_ok (ops st) \<Longrightarrow>
   fst k = opn \<Longrightarrow> map_of (port_maps st') k = map_of (port_maps st) k"
proof (induction prevs arbitrary: st)
  case Nil
  then show ?case by simp
next
  case (Cons p prevs)
  from Cons.prems obtain st1 where
    1: "connect_previous_operator cfg opn p st = Inr st1"
    and 2: "connect_previous_operators cfg opn prevs st1 = Inr st'"
    by (auto split: sum.splits)
  from trav_connect_previous_operator[OF 1] Cons.prems(2) have "names_ok (ops st1)"
    by (simp add: trav_eq_def)
  from Cons.IH[OF 2 this Cons.prems(3)]
    pm_connect_previous_operator[OF 1 Cons.prems(2) Cons.prems(3)]
  show ?case by simp
qed

text \<open>The map of the downstream connections.\<close>

lemma map_of_insert_connection:
  "map_of (insert_connection cid cname ty t conns) k =
     (if k = cid
      then Some (case map_of conns cid of
                   None \<Rightarrow> (cname, ty, [t])
                 | Some info \<Rightarrow> (fst info, fst (snd info),
                     if t \<in> set (snd (snd info)) then snd (snd info)
                     else snd (snd info) @ [t]))
      else map_of conns k)"
  by (auto simp: insert_connection_def update_conv' map_add_def split: option.splits)

lemma collected_insert_connection_new:
  "collected cid t (insert_connection cid cname ty t conns)"
  by (auto simp: collected_def map_of_insert_connection split: option.splits)

lemma collected_insert_connection_old:
  "collected c x conns \<Longrightarrow> collected c x (insert_connection cid cname ty t conns)"
  by (auto simp: collected_def map_of_insert_connection split: option.splits)

lemma conn_types_insert_connection:
  "conn_types op conns \<Longrightarrow> map_of (outputs op) sp = Some io \<Longrightarrow>
     conn_types op (insert_connection (OperatorPort (op_name op) sp) cname
                      (connector_type io) t conns)"
  unfolding conn_types_def
proof (intro allI impI)
  fix sp' info
  assume ct: "\<forall>sp info. map_of conns (OperatorPort (op_name op) sp) = Some info \<longrightarrow>
                (\<exists>io. map_of (outputs op) sp = Some io \<and> fst (snd info) = connector_type io)"
    and io: "map_of (outputs op) sp = Some io"
    and m: "map_of (insert_connection (OperatorPort (op_name op) sp) cname
                      (connector_type io) t conns) (OperatorPort (op_name op) sp') = Some info"
  show "\<exists>io. map_of (outputs op) sp' = Some io \<and> fst (snd info) = connector_type io"
  proof (cases "sp' = sp")
    case False
    with m have "map_of conns (OperatorPort (op_name op) sp') = Some info"
      by (simp add: map_of_insert_connection)
    with ct show ?thesis by blast
  next
    case True
    show ?thesis
    proof (cases "map_of conns (OperatorPort (op_name op) sp)")
      case None
      with m True io show ?thesis by (auto simp: map_of_insert_connection)
    next
      case (Some old)
      with ct obtain io' where "map_of (outputs op) sp = Some io'"
        "fst (snd old) = connector_type io'" by blast
      with m True Some show ?thesis by (auto simp: map_of_insert_connection)
    qed
  qed
qed

lemma collect_targets_collected:
  "collect_targets op next_opn sp tps conns = Inr conns' \<Longrightarrow> conn_types op conns \<Longrightarrow>
     conn_types op conns' \<and>
     (\<forall>c x. collected c x conns \<longrightarrow> collected c x conns') \<and>
     (operator_type op \<noteq> kVirtual \<longrightarrow>
        (\<forall>t \<in> set tps. collected (OperatorPort (op_name op) sp) (next_opn, t) conns'))"
proof (induction tps arbitrary: conns)
  case Nil
  then show ?case by simp
next
  case (Cons t tps)
  show ?case
  proof (cases "operator_type op \<noteq> kVirtual")
    case False
    with Cons.prems have "collect_targets op next_opn sp tps conns = Inr conns'" by simp
    from Cons.IH[OF this Cons.prems(2)] False show ?thesis by simp
  next
    case True
    with Cons.prems obtain io c where
      io: "map_of (outputs op) sp = Some io" and c: "connector io = Some c" and
      rec: "collect_targets op next_opn sp tps
              (insert_connection (OperatorPort (op_name op) sp) (conn_name c)
                 (connector_type io) (next_opn, t) conns) = Inr conns'"
      by (auto split: option.splits)
    let ?conns1 = "insert_connection (OperatorPort (op_name op) sp) (conn_name c)
                     (connector_type io) (next_opn, t) conns"
    have ct: "conn_types op ?conns1"
      using Cons.prems(2) io by (rule conn_types_insert_connection)
    note ih = Cons.IH[OF rec ct]
    have "collected (OperatorPort (op_name op) sp) (next_opn, t) ?conns1"
      by (rule collected_insert_connection_new)
    with ih have new: "collected (OperatorPort (op_name op) sp) (next_opn, t) conns'"
      by blast
    have old: "\<forall>c x. collected c x conns \<longrightarrow> collected c x conns'"
      using ih collected_insert_connection_old by blast
    from ih new old show ?thesis by simp
  qed
qed

lemma collect_port_map_collected:
  "collect_port_map op next_opn pm conns = Inr conns' \<Longrightarrow> conn_types op conns \<Longrightarrow>
     conn_types op conns' \<and>
     (\<forall>c x. collected c x conns \<longrightarrow> collected c x conns') \<and>
     (operator_type op \<noteq> kVirtual \<longrightarrow>
        (\<forall>e \<in> set pm. \<forall>t \<in> set (snd e).
           collected (OperatorPort (op_name op) (fst e)) (next_opn, t) conns'))"
proof (induction pm arbitrary: conns)
  case Nil
  then show ?case by simp
next
  case (Cons e pm)
  from Cons.prems obtain conns1 where
    1: "collect_targets op next_opn (fst e) (snd e) conns = Inr conns1" and
    2: "collect_port_map op next_opn pm conns1 = Inr conns'"
    by (auto split: sum.splits)
  note a = collect_targets_collected[OF 1 Cons.prems(2)]
  from a have ct: "conn_types op conns1" by simp
  note ih = Cons.IH[OF 2 ct]
  from a ih show ?case by (simp add: ball_Un)
qed

lemma process_next_operators_collected:
  "process_next_operators op nexts sc = Inr sc' \<Longrightarrow> conn_types op (snd sc) \<Longrightarrow>
     conn_types op (snd sc') \<and>
     (\<forall>c x. collected c x (snd sc) \<longrightarrow> collected c x (snd sc')) \<and>
     (operator_type op \<noteq> kVirtual \<longrightarrow>
        (\<forall>n \<in> set nexts. \<forall>pm. map_of (port_maps (fst sc)) (op_name op, n) = Some pm \<longrightarrow>
           (\<forall>e \<in> set pm. \<forall>t \<in> set (snd e).
              collected (OperatorPort (op_name op) (fst e)) (n, t) (snd sc'))))"
proof (induction nexts arbitrary: sc)
  case Nil
  then show ?case by simp
next
  case (Cons x xs)
  show ?case
  proof (cases "map_of (port_maps (fst sc)) (op_name op, x)")
    case None
    with Cons.prems have "process_next_operators op xs sc = Inr sc'" by simp
    from Cons.IH[OF this Cons.prems(2)] None show ?thesis by simp
  next
    case (Some pm)
    let ?st = "fst sc"
    let ?d = "indegree ?st x - 1"
    let ?st1 = "?st\<lparr>indegrees := AList.update x ?d (indegrees ?st)\<rparr>"
    let ?st2 = "if ?d = 0 then ?st1\<lparr>worklist := worklist ?st1 @ [x]\<rparr> else ?st1"
    from Cons.prems Some obtain conns where
      col: "collect_port_map op x pm (snd sc) = Inr conns" and
      rec: "process_next_operators op xs (?st2, conns) = Inr sc'"
      by (auto simp: Let_def split: sum.splits)
    note a = collect_port_map_collected[OF col Cons.prems(2)]
    from a have ct: "conn_types op (snd (?st2, conns))" by simp
    note ih = Cons.IH[OF rec ct]
    have pm2: "port_maps (fst (?st2, conns)) = port_maps (fst sc)" by simp
    from a ih Some show ?thesis unfolding pm2 by (simp add: ball_Un)
  qed
qed

text \<open>The direct connections to the next operators that are initialized.\<close>

lemma connect_initialized_targets_connects:
  "connect_initialized_targets cid ts st = Inr st' \<Longrightarrow> t \<in> set ts \<Longrightarrow>
   map_of (ops st) (fst t) = Some target_op \<Longrightarrow> op_id target_op \<noteq> -1 \<Longrightarrow>
     (cid, OperatorPort (fst t) (snd t)) \<in> set (connections st')"
proof (induction ts arbitrary: st)
  case Nil
  then show ?case by simp
next
  case (Cons u ts)
  from Cons.prems(1) obtain nop where nop: "map_of (ops st) (fst u) = Some nop"
    by (auto split: option.splits)
  let ?st1 = "add_connection cid (OperatorPort (fst u) (snd u)) st"
  have rec: "connect_initialized_targets cid ts (if op_id nop \<noteq> -1 then ?st1 else st) = Inr st'"
    using Cons.prems(1) nop by (auto split: option.splits if_splits)
  have o: "map_of (ops (if op_id nop \<noteq> -1 then ?st1 else st)) (fst t) = Some target_op"
    using Cons.prems(3) by (simp add: add_connection_def)
  show ?case
  proof (cases "t = u")
    case True
    with nop Cons.prems(3,4) have "op_id nop \<noteq> -1" by simp
    with rec have "connect_initialized_targets cid ts ?st1 = Inr st'" by simp
    from trav_connect_initialized_targets[OF this]
    have "set (connections ?st1) \<subseteq> set (connections st')"
      by (auto simp: trav_eq_def dest: set_mono_prefix)
    with True show ?thesis by (auto simp: add_connection_def)
  next
    case False
    with Cons.prems(2) have "t \<in> set ts" by simp
    from Cons.IH[OF rec this o Cons.prems(4)] show ?thesis .
  qed
qed

lemma connect_downstream_connects:
  "connect_downstream cs r = Inr r' \<Longrightarrow> c \<in> set cs \<Longrightarrow> fst (snd (snd c)) \<noteq> kUCX \<Longrightarrow>
   t \<in> set (snd (snd (snd c))) \<Longrightarrow> map_of (ops (snd r)) (fst t) = Some target_op \<Longrightarrow>
   op_id target_op \<noteq> -1 \<Longrightarrow>
     (fst c, OperatorPort (fst t) (snd t)) \<in> set (connections (snd r'))"
proof (induction cs arbitrary: r)
  case Nil
  then show ?case by simp
next
  case (Cons d cs)
  show ?case
  proof (cases "fst (snd (snd d)) = kUCX")
    case True
    with Cons.prems(1) have rec: "connect_downstream cs (True, snd r) = Inr r'" by simp
    from True Cons.prems(2,3) have "c \<in> set cs" by auto
    from Cons.IH[OF rec this Cons.prems(3,4)] Cons.prems(5,6) show ?thesis by simp
  next
    case False
    with Cons.prems(1) obtain st1 where
      1: "connect_initialized_targets (fst d) (snd (snd (snd d))) (snd r) = Inr st1" and
      2: "connect_downstream cs (fst r, st1) = Inr r'"
      by (auto split: sum.splits)
    note t1 = trav_connect_initialized_targets[OF 1]
    show ?thesis
    proof (cases "c = d")
      case True
      from connect_initialized_targets_connects[OF 1] True Cons.prems(4,5,6)
      have "(fst c, OperatorPort (fst t) (snd t)) \<in> set (connections st1)" by blast
      moreover from trav_connect_downstream[OF 2]
      have "set (connections st1) \<subseteq> set (connections (snd r'))"
        by (auto simp: trav_eq_def dest: set_mono_prefix)
      ultimately show ?thesis by blast
    next
      case False
      with Cons.prems(2) have "c \<in> set cs" by simp
      moreover from t1 Cons.prems(5) have "map_of (ops (snd (fst r, st1))) (fst t) = Some target_op"
        by (simp add: trav_eq_def)
      ultimately show ?thesis using Cons.IH[OF 2] Cons.prems(3,4,6) by blast
    qed
  qed
qed

lemma visit_connects_self_edge:
  assumes v: "visit_operator cfg g opn st = Inr st'"
    and names: "names_ok (ops st)"
    and self: "opn \<in> set (get_next_nodes g opn)"
    and pm: "map_of (port_maps st) (opn, opn) = Some pm"
    and e: "(sp, tps) \<in> set pm" and t: "tp \<in> set tps"
    and op: "map_of (ops st') opn = Some op"
    and nv: "operator_type op \<noteq> kVirtual" and id: "op_id op \<noteq> -1"
    and io: "map_of (outputs op) sp = Some io" and ty: "connector_type io \<noteq> kUCX"
  shows "(OperatorPort opn sp, OperatorPort opn tp) \<in> set (connections st')"
proof -
  from v obtain op0 op1 op' st1 sc r where
    op0: "map_of (ops st) opn = Some op0" and
    op1: "mitigate_cycle (get_previous_nodes g opn) (visited_nodes st) op0 = Inr op1" and
    op': "op_initialize cfg \<lparr>nodes = nodes g, edges = port_maps st\<rparr> op1 = Inr op'" and
    st1: "connect_previous_operators cfg opn (get_previous_nodes g opn)
            (st\<lparr>ops := AList.update opn op' (ops st)\<rparr>) = Inr st1" and
    sc: "process_next_operators op' (get_next_nodes g opn) (st1, []) = Inr sc" and
    r: "connect_downstream (snd sc) (False, fst sc) = Inr r" and
    bs: "broadcast_stage cfg g op' (snd sc) (fst r) (snd r) = Inr st'"
    by (rule visit_operator_steps)
  let ?st0 = "st\<lparr>ops := AList.update opn op' (ops st)\<rparr>"
  have name: "op_name op' = opn"
    using op0 names mitigate_cycle_name[OF op1] op_initialize_name[OF op']
    by (simp add: names_ok_def)
  have names0: "names_ok (ops ?st0)"
    using names_ok_update[OF names name] by simp
  have t1: "trav_eq st1 ?st0" using st1 by (rule trav_connect_previous_operators)
  have pm1: "map_of (port_maps st1) (opn, opn) = Some pm"
    using pm_connect_previous_operators[OF st1 names0, of "(opn, opn)"] pm by simp
  note f = process_next_operators_frame[OF sc]
  have t2: "trav_eq (snd r) (fst sc)" using trav_connect_downstream[OF r] by simp
  have t3: "trav_eq st' (snd r)" using bs by (rule trav_broadcast_stage)
  have ops1: "ops st1 = AList.update opn op' (ops st)" using t1 by (simp add: trav_eq_def)
  have ops_sc: "ops (fst sc) = AList.update opn op' (ops st)" using f ops1 by simp
  have "ops st' = AList.update opn op' (ops st)"
    using t3 t2 ops_sc by (simp add: trav_eq_def)
  with op have eq: "op = op'" by (simp add: update_conv')
  have "conn_types op' (snd (st1, []))" by (simp add: conn_types_def)
  from process_next_operators_collected[OF sc this] nv eq self pm1 e t name
  have col: "collected (OperatorPort opn sp) (opn, tp) (snd sc)"
    and ct: "conn_types op' (snd sc)"
    by force+
  from col obtain info where
    info: "map_of (snd sc) (OperatorPort opn sp) = Some info" and
    mem: "(opn, tp) \<in> set (snd (snd info))"
    by (auto simp: collected_def)
  from ct info name obtain io' where
    "map_of (outputs op') sp = Some io'" "fst (snd info) = connector_type io'"
    unfolding conn_types_def by blast
  with io eq have "fst (snd info) = connector_type io" by simp
  with ty have nu: "fst (snd (snd (OperatorPort opn sp, info))) \<noteq> kUCX" by simp
  from info have c: "(OperatorPort opn sp, info) \<in> set (snd sc)" by (rule map_of_SomeD)
  have tm: "(opn, tp) \<in> set (snd (snd (snd (OperatorPort opn sp, info))))" using mem by simp
  have o: "map_of (ops (snd (False, fst sc))) (fst (opn, tp)) = Some op"
    using ops_sc eq by (simp add: update_conv')
  from connect_downstream_connects[OF r c nu tm o id]
  have "(OperatorPort opn sp, OperatorPort opn tp) \<in> set (connections (snd r))" by simp
  moreover from t3 have "set (connections (snd r)) \<subseteq> set (connections st')"
    by (auto simp: trav_eq_def dest: set_mono_prefix)
  ultimately show ?thesis by blast
qed

text \<open>
  C10 (as the code has it). The connections to the previous operators of the
  visited operator \<open>opn\<close> add no connection that leaves a port of \<open>opn\<close>, so
  they add no connection of \<open>opn\<close> to itself. The connection of a flow from
  \<open>opn\<close> to itself is added later in the same visit, with the connections to
  the next operators that are initialized already: if the initialized operator
  is not virtual and its source port has no UCX connector, then the plan has
  the connection from that port to the target port of the same operator after
  the visit.
\<close>

theorem self_edge_connection:
  "(connect_previous_operators cfg opn prevs st0 = Inr st1 \<and> names_ok (ops st0) \<longrightarrow>
      (\<forall>c \<in> set (connections st1).
         c \<in> set (connections st0) \<or> (\<forall>sp. fst c \<noteq> OperatorPort opn sp))) \<and>
   (visit_operator cfg g opn st = Inr st' \<and> names_ok (ops st) \<and>
    opn \<in> set (get_next_nodes g opn) \<and> map_of (port_maps st) (opn, opn) = Some pm \<and>
    (sp, tps) \<in> set pm \<and> tp \<in> set tps \<and>
    map_of (ops st') opn = Some op \<and> operator_type op \<noteq> kVirtual \<and> op_id op \<noteq> -1 \<and>
    map_of (outputs op) sp = Some io \<and> connector_type io \<noteq> kUCX \<longrightarrow>
      (OperatorPort opn sp, OperatorPort opn tp) \<in> set (connections st'))"
proof (intro conjI impI)
  assume "connect_previous_operators cfg opn prevs st0 = Inr st1 \<and> names_ok (ops st0)"
  then have "sources_ok (\<lambda>c. \<forall>sp. c \<noteq> OperatorPort opn sp) st1 st0"
    using sources_ok_connect_previous_operators by blast
  then show "\<forall>c \<in> set (connections st1).
               c \<in> set (connections st0) \<or> (\<forall>sp. fst c \<noteq> OperatorPort opn sp)"
    by (simp add: sources_ok_def)
next
  assume "visit_operator cfg g opn st = Inr st' \<and> names_ok (ops st) \<and>
    opn \<in> set (get_next_nodes g opn) \<and> map_of (port_maps st) (opn, opn) = Some pm \<and>
    (sp, tps) \<in> set pm \<and> tp \<in> set tps \<and>
    map_of (ops st') opn = Some op \<and> operator_type op \<noteq> kVirtual \<and> op_id op \<noteq> -1 \<and>
    map_of (outputs op) sp = Some io \<and> connector_type io \<noteq> kUCX"
  then show "(OperatorPort opn sp, OperatorPort opn tp) \<in> set (connections st')"
    using visit_connects_self_edge by blast
qed

theorem self_edge_connection_witness:
  "\<exists>st'. visit_operator cfg0 (graph frag_self) ''B'' st_self = Inr st' \<and>
         connect_previous_operators cfg0 ''B'' [''B''] st_self = Inr st_self \<and>
         ''B'' \<in> set (get_next_nodes (graph frag_self) ''B'') \<and>
         map_of (port_maps st_self) (''B'', ''B'') =
           Some [(''__output_exec__'', [''__input_exec__''])] \<and>
         (OperatorPort ''B'' ''__output_exec__'', OperatorPort ''B'' ''__input_exec__'')
           \<in> set (connections st') \<and>
         connections st_self = []"
proof -
  have ev: "case visit_operator cfg0 (graph frag_self) ''B'' st_self of
              Inr s \<Rightarrow> (case map_of (ops s) ''B'' of
                          Some op \<Rightarrow> operator_type op \<noteq> kVirtual \<and> op_id op \<noteq> -1 \<and>
                            (case map_of (outputs op) ''__output_exec__'' of
                               Some io \<Rightarrow> connector_type io \<noteq> kUCX
                             | None \<Rightarrow> False)
                        | None \<Rightarrow> False)
            | Inl _ \<Rightarrow> False"
    by code_simp
  then obtain st' op io where
    v: "visit_operator cfg0 (graph frag_self) ''B'' st_self = Inr st'" and
    op: "map_of (ops st') ''B'' = Some op" "operator_type op \<noteq> kVirtual" "op_id op \<noteq> -1" and
    io: "map_of (outputs op) ''__output_exec__'' = Some io" "connector_type io \<noteq> kUCX"
    by (auto split: sum.splits option.splits)
  have o: "ops st_self = [(''B'', the (map_of (ops st_self) ''B''))]"
    by code_simp
  have "op_name (the (map_of (ops st_self) ''B'')) = ''B''" by code_simp
  with o have names: "names_ok (ops st_self)"
    by (metis (no_types, lifting) names_ok_def map_of_Cons_code(1,2) option.inject
        option.distinct(1))
  have self: "''B'' \<in> set (get_next_nodes (graph frag_self) ''B'')" by code_simp
  have pm: "map_of (port_maps st_self) (''B'', ''B'') =
              Some [(''__output_exec__'', [''__input_exec__''])]"
    by code_simp
  have c0: "connections st_self = []" by code_simp
  have p: "connect_previous_operators cfg0 ''B'' [''B''] st_self = Inr st_self"
    by (simp add: connect_previous_operator_def)
  from self_edge_connection[where cfg = cfg0 and g = "graph frag_self" and opn = "''B''"
      and st = st_self and st' = st' and pm = "[(''__output_exec__'', [''__input_exec__''])]"
      and sp = "''__output_exec__''" and tps = "[''__input_exec__'']"
      and tp = "''__input_exec__''" and op = op and io = io
      and prevs = "[''B'']" and ?st0.0 = st_self and ?st1.0 = st_self]
    v names self pm op io p
  have "(OperatorPort ''B'' ''__output_exec__'', OperatorPort ''B'' ''__input_exec__'')
          \<in> set (connections st')"
    by simp
  with v p self pm c0 show ?thesis by (intro exI[of _ st'] conjI)
qed

theorem self_edge_connection_counterexample:
  "edges (graph frag_self) = [((''B'', ''B''), [(''__output_exec__'', [''__input_exec__''])])] \<and>
   map_option (map_sum id connections) (initialize_fragment cfg0 None [] 3 frag_self) =
     Some (Inr [(OperatorPort ''B'' ''__output_exec__'', OperatorPort ''B'' ''__input_exec__'')])"
  by code_simp

section \<open>Cycle mitigation\<close>



















section \<open>The lowering of a single connection item\<close>

lemma parse_port_name_dot:
  "CHR ''.'' \<notin> set opn \<Longrightarrow> parse_port_name (opn @ CHR ''.'' # p) = (opn, p)"
  by (induction opn) (auto simp: parse_port_name_def)

lemma fmt_nat_0: "fmt_nat 0 = ''0''"
  by (simp add: fmt_nat.simps digit_char_def)

lemma add_flow_single:
  assumes up: "map_of (operators frag) u = Some up"
    and down: "map_of (operators frag) d = Some down" and name: "op_name down = d"
    and out: "map_of (outputs up) p = Some oio"
    and inp: "map_of (inputs down) q = Some iio" and nq: "queue_size iio \<noteq> kAnySize"
  shows "add_flow u d [(p, q)] frag =
           frag\<lparr>graph := graph_add_flow u d [(p, [q])] (graph frag)\<rparr>"
proof -
  have pm: "pairs_to_port_map [(p, q)] = [(p, [q])]"
    by (simp add: pairs_to_port_map_def insert_target_def)
  have chk: "check_output_labels up [(p, [q])] = Inr [(p, [q])]"
    using out by (simp add: check_output_labels_def)
  have ril: "resolve_input_labels down 1 [q] [] = Inr (down, [q])"
    using inp nq by (simp add: Let_def)
  have rol: "resolve_output_labels down [(p, [q])] [p] = Inr (down, [(p, [q])])"
    using ril by (simp add: Let_def)
  have so: "set_operator down frag = frag"
    using down name by (simp add: set_operator_def update_triv)
  show ?thesis
    using up down pm chk rol so by (simp add: add_flow_def Let_def)
qed

lemma graph_add_flow_new_edge:
  "map_of (edges g) (u, d) = None \<Longrightarrow>
     graph_add_flow u d pm g =
       \<lparr>nodes = nodes (graph_add_node d (graph_add_node u g)),
        edges = edges g @ [((u, d), pm)]\<rparr>"
  by (simp add: graph_add_flow_def Let_def graph_add_node_def)

lemma no_edge_to:
  "\<forall>e \<in> set es. snd (fst e) \<noteq> v \<Longrightarrow> map_of es (u, v) = None"
  by (induction es) auto

lemma no_edge_from:
  "\<forall>e \<in> set es. fst (fst e) \<noteq> u \<Longrightarrow> map_of es (u, v) = None"
  by (induction es) auto

lemma port_count_unconnected:
  "\<forall>n \<in> set ns. \<forall>pm. map_of es (u, n) = Some pm \<longrightarrow> map_of pm p = None \<Longrightarrow>
     foldl (\<lambda>c opn. case map_of es (u, opn) of
                       None \<Rightarrow> c
                     | Some pm \<Rightarrow> c + (if map_of pm p \<noteq> None then 1 else 0)) c ns = (c :: int)"
  by (induction ns arbitrary: c) (auto split: option.splits)

lemma port_connection_count_new_edge:
  assumes single: "\<forall>n pm. map_of es (u, n) = Some pm \<longrightarrow> map_of pm p = None"
    and fresh: "\<forall>e \<in> set es. snd (fst e) \<noteq> v"
  shows "port_connection_count \<lparr>nodes = ns, edges = es @ [((u, v), [(p, ts)])]\<rparr> u p = 1"
proof -
  let ?es = "es @ [((u, v), [(p, ts)])]"
  have old: "map_of ?es (u, n) = map_of es (u, n)" if "n \<noteq> v" for n
    using that by (simp add: map_add_def split: option.splits)
  have next_old: "\<forall>n \<in> set (map (snd \<circ> fst) (filter (\<lambda>e. fst (fst e) = u) es)). n \<noteq> v"
    using fresh by auto
  have 1: "\<forall>n \<in> set (map (snd \<circ> fst) (filter (\<lambda>e. fst (fst e) = u) es)).
             \<forall>pm. map_of ?es (u, n) = Some pm \<longrightarrow> map_of pm p = None"
    using single old next_old by (metis)
  have new: "map_of ?es (u, v) = Some [(p, ts)]"
    using no_edge_to[OF fresh, of u] by (simp add: map_add_def)
  show ?thesis
    unfolding port_connection_count_def get_next_nodes_def get_port_map_def
    using port_count_unconnected[OF 1, of 0] new by simp
qed

lemma op_name_virtual_ops [simp]:
  "op_name (VirtualTransmitterOp n p ty args) = n"
  "op_name (VirtualReceiverOp n p ty args) = n"
  "op_name (ForwardOp n) = n"
  by (simp_all add: VirtualTransmitterOp_def VirtualReceiverOp_def ForwardOp_def
      basic_operator_def spec_input_def spec_output_def)

lemma lower_output_item:
  assumes v: "vname = ''virtual_'' @ opn @ ''_'' @ p @ ''_'' @ fmt_nat 0"
    and ip: "ip = (case source_address of
                     None \<Rightarrow> ''0.0.0.0''
                   | Some a \<Rightarrow> if a = [] then ''0.0.0.0'' else parse_address_ip a ''0.0.0.0'')"
    and op: "map_of (operators frag) opn = Some op"
    and node: "opn \<in> set (nodes (graph frag))"
    and port: "map_of (outputs op) p = Some io"
    and item: "ci_name item = opn @ ''.'' @ p" "CHR ''.'' \<notin> set opn" "ci_io_type item = kOutput"
    and fresh: "vname \<notin> set (nodes (graph frag))"
      "\<forall>e \<in> set (edges (graph frag)). snd (fst e) \<noteq> vname"
    and single: "\<forall>n pm. map_of (edges (graph frag)) (opn, n) = Some pm \<longrightarrow> map_of pm p = None"
  shows "lower_fragment dp source_address [item] frag =
           Inr (set_operator
                  (op\<lparr>outputs :=
                        AList.map_entry p
                          (set_connector kUCX (ci_args item @ [(''local_address'', ip)]) dp)
                          (outputs op)\<rparr>)
                  ((set_operator
                      (VirtualTransmitterOp vname p kUCX
                         (ci_args item @ [(''local_address'', ip)])) frag)
                     \<lparr>graph := \<lparr>nodes = nodes (graph frag) @ [vname],
                                 edges = edges (graph frag) @ [((opn, vname), [(p, [p])])]\<rparr>\<rparr>))"
proof -
  let ?args = "ci_args item @ [(''local_address'', ip)]"
  let ?vop = "VirtualTransmitterOp vname p kUCX ?args"
  let ?fragv = "set_operator ?vop frag"
  let ?g1 = "\<lparr>nodes = nodes (graph frag) @ [vname],
               edges = edges (graph frag) @ [((opn, vname), [(p, [p])])]\<rparr>"
  let ?frag1 = "?fragv\<lparr>graph := ?g1\<rparr>"
  have gen: "generate_connection_map (graph frag) [item] = Inr [(opn, [(p, [item])])]"
    using item node
    by (simp add: generate_connection_map_def get_nodes_def parse_port_name_dot
        add_connection_item_def Let_def)
  from node fresh(1) have ne: "vname \<noteq> opn" by auto
  have o1: "map_of (operators ?fragv) opn = Some op"
    using op ne by (simp add: set_operator_def update_conv')
  have o2: "map_of (operators ?fragv) vname = Some ?vop"
    by (simp add: set_operator_def update_conv')
  have inp: "map_of (inputs ?vop) p = Some (new_port p kInput kSizeOne)"
    by (simp add: VirtualTransmitterOp_def spec_input_def basic_operator_def)
  have nq: "queue_size (new_port p kInput kSizeOne) \<noteq> kAnySize"
    by (simp add: new_port_def kSizeOne_def kAnySize_def)
  have nm: "op_name ?vop = vname" by simp
  have af: "add_flow opn vname [(p, p)] ?fragv =
              ?fragv\<lparr>graph := graph_add_flow opn vname [(p, [p])] (graph ?fragv)\<rparr>"
    using o1 o2 nm port inp nq by (rule add_flow_single)
  have gf: "graph_add_flow opn vname [(p, [p])] (graph ?fragv) = ?g1"
    using graph_add_flow_new_edge[OF no_edge_to[OF fresh(2)], of opn "[(p, [p])]"] node fresh(1)
    by (simp add: graph_add_node_def set_operator_def)
  have cv: "create_virtual_operators_and_connections dp source_address frag
              [(opn, [(p, [item])])] = Inr (?frag1, [vname])"
    using item(3) af gf unfolding v ip
    by (simp add: create_virtual_operators_and_connections_def create_virtual_operator_def
        Let_def)
  have p1: "get_previous_nodes ?g1 vname = [opn]"
    using fresh(2) by (simp add: get_previous_nodes_def filter_empty_conv)
  have p2: "port_connection_count ?g1 opn p = 1"
    using single fresh(2) by (rule port_connection_count_new_edge)
  have vi: "virtual_info ?vop = Some \<lparr>v_port_name = p, v_connector_type = kUCX,
                                       v_arg_list = ?args, v_io_type = kOutput\<rparr>"
    by (simp add: VirtualTransmitterOp_def)
  have o1': "map_of (operators ?frag1) opn = Some op" using o1 by simp
  have o2': "map_of (operators ?frag1) vname = Some ?vop" using o2 by simp
  have cu: "connect_ucx_transmitter dp vname ?frag1 =
              Inr (set_operator
                     (op\<lparr>outputs := AList.map_entry p (set_connector kUCX ?args dp) (outputs op)\<rparr>)
                     ?frag1)"
    unfolding connect_ucx_transmitter_def
    using o1' o2' vi p1 p2 port by simp
  show ?thesis using gen cv cu by (simp add: lower_fragment_def)
qed

lemma lower_input_item:
  assumes v: "vname = ''virtual_'' @ opn @ ''_'' @ p @ ''_'' @ fmt_nat 0"
    and f: "fname = ''forward_'' @ opn @ ''_'' @ p"
    and op: "map_of (operators frag) opn = Some op" and name: "op_name op = opn"
    and node: "opn \<in> set (nodes (graph frag))"
    and port: "map_of (inputs op) p = Some io" "queue_size io \<noteq> kAnySize"
    and item: "ci_name item = opn @ ''.'' @ p" "CHR ''.'' \<notin> set opn" "ci_io_type item = kInput"
    and fresh: "vname \<notin> set (nodes (graph frag))" "fname \<notin> set (nodes (graph frag))"
      "\<forall>e \<in> set (edges (graph frag)). fst (fst e) \<noteq> fname \<and> snd (fst e) \<noteq> fname"
  shows "lower_fragment dp source_address [item] frag =
           Inr ((set_operator
                   ((ForwardOp fname)
                      \<lparr>inputs := AList.map_entry ''in'' (set_connector kUCX (ci_args item) dp)
                                   (inputs (ForwardOp fname))\<rparr>)
                   (set_operator (VirtualReceiverOp vname p kUCX (ci_args item)) frag))
                  \<lparr>graph := \<lparr>nodes = nodes (graph frag) @ [vname, fname],
                              edges = edges (graph frag) @
                                [((vname, fname), [(p, [''in''])]),
                                 ((fname, opn), [(''out'', [p])])]\<rparr>\<rparr>)"
proof -
  let ?vop = "VirtualReceiverOp vname p kUCX (ci_args item)"
  let ?fwd = "(ForwardOp fname)
                \<lparr>inputs := AList.map_entry ''in'' (set_connector kUCX (ci_args item) dp)
                             (inputs (ForwardOp fname))\<rparr>"
  let ?frag1 = "set_operator ?fwd (set_operator ?vop frag)"
  let ?g2 = "\<lparr>nodes = nodes (graph frag) @ [vname, fname],
               edges = edges (graph frag) @ [((vname, fname), [(p, [''in''])])]\<rparr>"
  let ?g3 = "\<lparr>nodes = nodes (graph frag) @ [vname, fname],
               edges = edges (graph frag) @
                 [((vname, fname), [(p, [''in''])]), ((fname, opn), [(''out'', [p])])]\<rparr>"
  let ?frag2 = "?frag1\<lparr>graph := ?g2\<rparr>"
  let ?frag3 = "?frag1\<lparr>graph := ?g3\<rparr>"
  have gen: "generate_connection_map (graph frag) [item] = Inr [(opn, [(p, [item])])]"
    using item node
    by (simp add: generate_connection_map_def get_nodes_def parse_port_name_dot
        add_connection_item_def Let_def)
  have vf: "vname \<noteq> fname" by (simp add: v f)
  from node fresh(1,2) have ne: "vname \<noteq> opn" "fname \<noteq> opn" by auto
  have nf: "op_name ?fwd = fname" by simp
  have o1: "map_of (operators ?frag1) vname = Some ?vop"
    using vf by (simp add: set_operator_def update_conv')
  have o2: "map_of (operators ?frag1) fname = Some ?fwd"
    by (simp add: set_operator_def update_conv')
  have o3: "map_of (operators ?frag1) opn = Some op"
    using op ne by (simp add: set_operator_def update_conv')
  have vout: "map_of (outputs ?vop) p = Some (new_port p kOutput kSizeOne)"
    by (simp add: VirtualReceiverOp_def spec_output_def basic_operator_def)
  have fin: "map_of (inputs ?fwd) ''in'' =
               Some (set_connector kUCX (ci_args item) dp (new_port ''in'' kInput kSizeOne))"
    by (simp add: ForwardOp_def spec_input_def spec_output_def basic_operator_def)
  have fq: "queue_size (set_connector kUCX (ci_args item) dp (new_port ''in'' kInput kSizeOne))
              \<noteq> kAnySize"
    by (simp add: set_connector_def new_port_def kSizeOne_def kAnySize_def)
  have fout: "map_of (outputs ?fwd) ''out'' = Some (new_port ''out'' kOutput kSizeOne)"
    by (simp add: ForwardOp_def spec_input_def spec_output_def basic_operator_def)
  have g1: "graph ?frag1 = graph frag" by (simp add: set_operator_def)
  have af1: "add_flow vname fname [(p, ''in'')] ?frag1 =
               ?frag1\<lparr>graph := graph_add_flow vname fname [(p, [''in''])] (graph ?frag1)\<rparr>"
    using o1 o2 nf vout fin fq by (rule add_flow_single)
  have e1: "map_of (edges (graph frag)) (vname, fname) = None"
    using fresh(3) by (intro no_edge_to) simp
  have gf1: "graph_add_flow vname fname [(p, [''in''])] (graph ?frag1) = ?g2"
    using graph_add_flow_new_edge[OF e1, of "[(p, [''in''])]"] fresh(1,2) vf
    by (simp add: graph_add_node_def g1)
  have o1': "map_of (operators ?frag2) fname = Some ?fwd" using o2 by simp
  have o3': "map_of (operators ?frag2) opn = Some op" using o3 by simp
  have af2: "add_flow fname opn [(''out'', p)] ?frag2 =
               ?frag2\<lparr>graph := graph_add_flow fname opn [(''out'', [p])] (graph ?frag2)\<rparr>"
    using o1' o3' name fout port by (rule add_flow_single)
  have e2: "map_of (edges ?g2) (fname, opn) = None"
    using no_edge_from[of "edges (graph frag)" fname opn] fresh(3) vf
    by (simp add: map_add_def)
  have gf2: "graph_add_flow fname opn [(''out'', [p])] (graph ?frag2) = ?g3"
    using graph_add_flow_new_edge[OF e2, of "[(''out'', [p])]"] node
    by (simp add: graph_add_node_def)
  have idx: "\<not> (case map_of (inputs op) p of None \<Rightarrow> True | Some io \<Rightarrow> queue_size io = kAnySize)"
    using port by simp
  have af: "add_flow fname opn [(''out'', p)] (add_flow vname fname [(p, ''in'')] ?frag1) = ?frag3"
    using af1 gf1 af2 gf2 by simp
  have cv: "create_virtual_operators_and_connections dp source_address frag
              [(opn, [(p, [item])])] = Inr (?frag3, [vname])"
    using item(3) op idx af unfolding v f
    by (simp add: create_virtual_operators_and_connections_def create_virtual_operator_def
        Let_def)
  have vi: "virtual_info ?vop = Some \<lparr>v_port_name = p, v_connector_type = kUCX,
                                       v_arg_list = ci_args item, v_io_type = kInput\<rparr>"
    by (simp add: VirtualReceiverOp_def)
  have o1'': "map_of (operators ?frag3) vname = Some ?vop" using o1 by simp
  have cu: "connect_ucx_transmitter dp vname ?frag3 = Inr ?frag3"
    unfolding connect_ucx_transmitter_def using o1'' vi by simp
  show ?thesis using gen cv cu by (simp add: lower_fragment_def)
qed

lemma no_broadcast_for_single_targets:
  "\<forall>c \<in> set conns. length (snd (snd (snd c))) = 1 \<Longrightarrow>
     create_broadcast_components cfg op conns st = Inr st"
  by (induction conns) (simp_all add: create_broadcast_component_def)

text \<open>
  C7. A fragment whose operator \<open>opn\<close> has the output \<open>p\<close>, not connected
  inside the fragment, and the one connection item of that output: the
  lowering adds the virtual transmitter \<open>virtual_opn_p_0\<close> and the flow from
  \<open>opn.p\<close> to it, and, the port having one connection, sets the UCX connector
  with the item's arguments on the output \<open>p\<close> of \<open>opn\<close> itself. A fragment
  whose operator \<open>opn\<close> has the input \<open>p\<close> and the one connection item of
  that input: the lowering adds the virtual receiver, the forward operator
  \<open>forward_opn_p\<close> with the UCX connector on its input \<open>in\<close>, and the two
  flows from the virtual receiver to \<open>in\<close> of the forward operator and from
  \<open>out\<close> of the forward operator to \<open>opn.p\<close>. No broadcast entity is created
  for source connectors with a single target.
\<close>

theorem single_edge_lowering:
  "(vname = ''virtual_'' @ opn @ ''_'' @ p @ ''_'' @ fmt_nat 0 \<and>
    ip = (case source_address of
            None \<Rightarrow> ''0.0.0.0''
          | Some a \<Rightarrow> if a = [] then ''0.0.0.0'' else parse_address_ip a ''0.0.0.0'') \<and>
    map_of (operators frag) opn = Some op \<and> opn \<in> set (nodes (graph frag)) \<and>
    map_of (outputs op) p = Some io \<and>
    ci_name item = opn @ ''.'' @ p \<and> CHR ''.'' \<notin> set opn \<and> ci_io_type item = kOutput \<and>
    vname \<notin> set (nodes (graph frag)) \<and>
    (\<forall>e \<in> set (edges (graph frag)). snd (fst e) \<noteq> vname) \<and>
    (\<forall>n pm. map_of (edges (graph frag)) (opn, n) = Some pm \<longrightarrow> map_of pm p = None) \<longrightarrow>
    lower_fragment dp source_address [item] frag =
      Inr (set_operator
             (op\<lparr>outputs :=
                   AList.map_entry p
                     (set_connector kUCX (ci_args item @ [(''local_address'', ip)]) dp)
                     (outputs op)\<rparr>)
             ((set_operator
                 (VirtualTransmitterOp vname p kUCX
                    (ci_args item @ [(''local_address'', ip)])) frag)
                \<lparr>graph := \<lparr>nodes = nodes (graph frag) @ [vname],
                            edges = edges (graph frag) @ [((opn, vname), [(p, [p])])]\<rparr>\<rparr>))) \<and>
   (vname = ''virtual_'' @ opn @ ''_'' @ p @ ''_'' @ fmt_nat 0 \<and>
    fname = ''forward_'' @ opn @ ''_'' @ p \<and>
    map_of (operators frag) opn = Some op \<and> op_name op = opn \<and>
    opn \<in> set (nodes (graph frag)) \<and>
    map_of (inputs op) p = Some io \<and> queue_size io \<noteq> kAnySize \<and>
    ci_name item = opn @ ''.'' @ p \<and> CHR ''.'' \<notin> set opn \<and> ci_io_type item = kInput \<and>
    vname \<notin> set (nodes (graph frag)) \<and> fname \<notin> set (nodes (graph frag)) \<and>
    (\<forall>e \<in> set (edges (graph frag)). fst (fst e) \<noteq> fname \<and> snd (fst e) \<noteq> fname) \<longrightarrow>
    lower_fragment dp source_address [item] frag =
      Inr ((set_operator
              ((ForwardOp fname)
                 \<lparr>inputs := AList.map_entry ''in'' (set_connector kUCX (ci_args item) dp)
                              (inputs (ForwardOp fname))\<rparr>)
              (set_operator (VirtualReceiverOp vname p kUCX (ci_args item)) frag))
             \<lparr>graph := \<lparr>nodes = nodes (graph frag) @ [vname, fname],
                         edges = edges (graph frag) @
                           [((vname, fname), [(p, [''in''])]),
                            ((fname, opn), [(''out'', [p])])]\<rparr>\<rparr>)) \<and>
   ((\<forall>c \<in> set conns. length (snd (snd (snd c))) = 1) \<longrightarrow>
    create_broadcast_components cfg op conns st = Inr st)"
proof (intro conjI impI)
  assume "vname = ''virtual_'' @ opn @ ''_'' @ p @ ''_'' @ fmt_nat 0 \<and>
    ip = (case source_address of
            None \<Rightarrow> ''0.0.0.0''
          | Some a \<Rightarrow> if a = [] then ''0.0.0.0'' else parse_address_ip a ''0.0.0.0'') \<and>
    map_of (operators frag) opn = Some op \<and> opn \<in> set (nodes (graph frag)) \<and>
    map_of (outputs op) p = Some io \<and>
    ci_name item = opn @ ''.'' @ p \<and> CHR ''.'' \<notin> set opn \<and> ci_io_type item = kOutput \<and>
    vname \<notin> set (nodes (graph frag)) \<and>
    (\<forall>e \<in> set (edges (graph frag)). snd (fst e) \<noteq> vname) \<and>
    (\<forall>n pm. map_of (edges (graph frag)) (opn, n) = Some pm \<longrightarrow> map_of pm p = None)"
  then show "lower_fragment dp source_address [item] frag =
      Inr (set_operator
             (op\<lparr>outputs :=
                   AList.map_entry p
                     (set_connector kUCX (ci_args item @ [(''local_address'', ip)]) dp)
                     (outputs op)\<rparr>)
             ((set_operator
                 (VirtualTransmitterOp vname p kUCX
                    (ci_args item @ [(''local_address'', ip)])) frag)
                \<lparr>graph := \<lparr>nodes = nodes (graph frag) @ [vname],
                            edges = edges (graph frag) @ [((opn, vname), [(p, [p])])]\<rparr>\<rparr>))"
    by (elim conjE) (rule lower_output_item; assumption)
next
  assume "vname = ''virtual_'' @ opn @ ''_'' @ p @ ''_'' @ fmt_nat 0 \<and>
    fname = ''forward_'' @ opn @ ''_'' @ p \<and>
    map_of (operators frag) opn = Some op \<and> op_name op = opn \<and>
    opn \<in> set (nodes (graph frag)) \<and>
    map_of (inputs op) p = Some io \<and> queue_size io \<noteq> kAnySize \<and>
    ci_name item = opn @ ''.'' @ p \<and> CHR ''.'' \<notin> set opn \<and> ci_io_type item = kInput \<and>
    vname \<notin> set (nodes (graph frag)) \<and> fname \<notin> set (nodes (graph frag)) \<and>
    (\<forall>e \<in> set (edges (graph frag)). fst (fst e) \<noteq> fname \<and> snd (fst e) \<noteq> fname)"
  then show "lower_fragment dp source_address [item] frag =
      Inr ((set_operator
              ((ForwardOp fname)
                 \<lparr>inputs := AList.map_entry ''in'' (set_connector kUCX (ci_args item) dp)
                              (inputs (ForwardOp fname))\<rparr>)
              (set_operator (VirtualReceiverOp vname p kUCX (ci_args item)) frag))
             \<lparr>graph := \<lparr>nodes = nodes (graph frag) @ [vname, fname],
                         edges = edges (graph frag) @
                           [((vname, fname), [(p, [''in''])]),
                            ((fname, opn), [(''out'', [p])])]\<rparr>\<rparr>)"
    by (elim conjE) (rule lower_input_item; assumption)
next
  assume "\<forall>c \<in> set conns. length (snd (snd (snd c))) = 1"
  then show "create_broadcast_components cfg op conns st = Inr st"
    by (rule no_broadcast_for_single_targets)
qed

theorem single_edge_lowering_witness:
  "lower_fragment 2 None [item_out] frag_src =
     Inr (set_operator
            (op_src\<lparr>outputs :=
                AList.map_entry ''out''
                  (set_connector kUCX (ci_args item_out @ [(''local_address'', ''0.0.0.0'')]) 2)
                  (outputs op_src)\<rparr>)
            ((set_operator
                (VirtualTransmitterOp ''virtual_Op1_out_0'' ''out'' kUCX
                   (ci_args item_out @ [(''local_address'', ''0.0.0.0'')])) frag_src)
               \<lparr>graph := \<lparr>nodes = nodes (graph frag_src) @ [''virtual_Op1_out_0''],
                           edges = edges (graph frag_src) @
                             [((''Op1'', ''virtual_Op1_out_0''), [(''out'', [''out''])])]\<rparr>\<rparr>)) \<and>
   lower_fragment 2 None [item_in] frag_dst =
     Inr ((set_operator
             ((ForwardOp ''forward_Op2_in'')
                \<lparr>inputs := AList.map_entry ''in'' (set_connector kUCX (ci_args item_in) 2)
                             (inputs (ForwardOp ''forward_Op2_in''))\<rparr>)
             (set_operator (VirtualReceiverOp ''virtual_Op2_in_0'' ''in'' kUCX (ci_args item_in))
                frag_dst))
            \<lparr>graph := \<lparr>nodes = nodes (graph frag_dst) @ [''virtual_Op2_in_0'', ''forward_Op2_in''],
                        edges = edges (graph frag_dst) @
                          [((''virtual_Op2_in_0'', ''forward_Op2_in''), [(''in'', [''in''])]),
                           ((''forward_Op2_in'', ''Op2''), [(''out'', [''in''])])]\<rparr>\<rparr>) \<and>
   create_broadcast_components cfg0 op_src
     [(OperatorPort ''Op1'' ''out'', ''out'', kUCX, [(''virtual_Op1_out_0'', ''out'')])]
     (initial_planner frag_src) = Inr (initial_planner frag_src) \<and>
   map_option (map_sum id (\<lambda>st. (visited_nodes st, connections st, implicit_broadcast_entities st)))
     (initialize_fragment cfg0 None [item_out] 4 frag_src) =
     Some (Inr ([''Op1'', ''virtual_Op1_out_0''], [], [])) \<and>
   map_option (map_sum id (\<lambda>st. (visited_nodes st, connections st, implicit_broadcast_entities st)))
     (initialize_fragment cfg0 None [item_in] 5 frag_dst) =
     Some (Inr ([''virtual_Op2_in_0'', ''forward_Op2_in'', ''Op2''],
                [(OperatorPort ''forward_Op2_in'' ''out'', OperatorPort ''Op2'' ''in'')], []))"
proof -
  have s: "frag_src = \<lparr>frag_name = ''fragment1'', graph = \<lparr>nodes = [''Op1''], edges = []\<rparr>,
                        operators = [(''Op1'', op_src)], thread_pools = [], log = []\<rparr>"
    by (simp add: frag_src_def add_operator_def set_operator_def empty_fragment_def
        graph_add_node_def op_src_def mk_op_def)
  have d: "frag_dst = \<lparr>frag_name = ''fragment2'', graph = \<lparr>nodes = [''Op2''], edges = []\<rparr>,
                        operators = [(''Op2'', op_dst)], thread_pools = [], log = []\<rparr>"
    by (simp add: frag_dst_def add_operator_def set_operator_def empty_fragment_def
        graph_add_node_def op_dst_def mk_op_def)
  have 1: "lower_fragment 2 None [item_out] frag_src =
     Inr (set_operator
            (op_src\<lparr>outputs :=
                AList.map_entry ''out''
                  (set_connector kUCX (ci_args item_out @ [(''local_address'', ''0.0.0.0'')]) 2)
                  (outputs op_src)\<rparr>)
            ((set_operator
                (VirtualTransmitterOp ''virtual_Op1_out_0'' ''out'' kUCX
                   (ci_args item_out @ [(''local_address'', ''0.0.0.0'')])) frag_src)
               \<lparr>graph := \<lparr>nodes = nodes (graph frag_src) @ [''virtual_Op1_out_0''],
                           edges = edges (graph frag_src) @
                             [((''Op1'', ''virtual_Op1_out_0''), [(''out'', [''out''])])]\<rparr>\<rparr>))"
    using single_edge_lowering[where vname = "''virtual_Op1_out_0''" and opn = "''Op1''"
        and p = "''out''" and ip = "''0.0.0.0''" and source_address = None and frag = frag_src
        and op = op_src and io = "mk_output ''out''" and item = item_out and dp = 2]
    by (simp add: s fmt_nat_0 op_src_def item_out_def)
  have 2: "lower_fragment 2 None [item_in] frag_dst =
     Inr ((set_operator
             ((ForwardOp ''forward_Op2_in'')
                \<lparr>inputs := AList.map_entry ''in'' (set_connector kUCX (ci_args item_in) 2)
                             (inputs (ForwardOp ''forward_Op2_in''))\<rparr>)
             (set_operator (VirtualReceiverOp ''virtual_Op2_in_0'' ''in'' kUCX (ci_args item_in))
                frag_dst))
            \<lparr>graph := \<lparr>nodes = nodes (graph frag_dst) @ [''virtual_Op2_in_0'', ''forward_Op2_in''],
                        edges = edges (graph frag_dst) @
                          [((''virtual_Op2_in_0'', ''forward_Op2_in''), [(''in'', [''in''])]),
                           ((''forward_Op2_in'', ''Op2''), [(''out'', [''in''])])]\<rparr>\<rparr>)"
    using single_edge_lowering[where vname = "''virtual_Op2_in_0''" and opn = "''Op2''"
        and fname = "''forward_Op2_in''"
        and p = "''in''" and source_address = None and frag = frag_dst
        and op = op_dst and io = "mk_input ''in'' 1" and item = item_in and dp = 2]
    by (simp add: d fmt_nat_0 op_dst_def item_in_def mk_op_def mk_input_def kAnySize_def)
  have 3: "create_broadcast_components cfg0 op_src
     [(OperatorPort ''Op1'' ''out'', ''out'', kUCX, [(''virtual_Op1_out_0'', ''out'')])]
     (initial_planner frag_src) = Inr (initial_planner frag_src)"
    using single_edge_lowering[where cfg = cfg0 and op = op_src
        and conns = "[(OperatorPort ''Op1'' ''out'', ''out'', kUCX,
                       [(''virtual_Op1_out_0'', ''out'')])]"
        and st = "initial_planner frag_src"]
    by simp
  have 4: "map_option (map_sum id
       (\<lambda>st. (visited_nodes st, connections st, implicit_broadcast_entities st)))
     (initialize_fragment cfg0 None [item_out] 4 frag_src) =
     Some (Inr ([''Op1'', ''virtual_Op1_out_0''], [], []))"
    by code_simp
  have 5: "map_option (map_sum id
       (\<lambda>st. (visited_nodes st, connections st, implicit_broadcast_entities st)))
     (initialize_fragment cfg0 None [item_in] 5 frag_dst) =
     Some (Inr ([''virtual_Op2_in_0'', ''forward_Op2_in'', ''Op2''],
                [(OperatorPort ''forward_Op2_in'' ''out'', OperatorPort ''Op2'' ''in'')], []))"
    by code_simp
  from 1 2 3 4 5 show ?thesis by (intro conjI)
qed

(*THMS_END*)

end
